theory Spec2Isabelle
  imports Main "HOL-Library.Char_ord" "HOL-Library.List_Lexorder"
begin

section \<open>Data model\<close>

text \<open>
  The program (\<^verbatim>\<open>src/main.go\<close>) mirrors the issues of one GitHub project into a cache
  directory. Its data are the structs of the go-github client library, reached through
  pointers. Only the fields the program reads or writes are modelled, plus one payload field
  per struct that stands for the rest.

  A Go pointer is \<open>None\<close> (nil) or \<open>Some a\<close>, an address. Users, milestones and
  repositories are shared by pointer, so they live in an explicit heap and every reference
  to one is a pointer. A pointer field of the library (\<^verbatim>\<open>ID *int\<close>, \<^verbatim>\<open>Number *int\<close>,
  \<^verbatim>\<open>ClosedAt *time.Time\<close>) that is only ever read is an \<open>option\<close>.
\<close>

type_synonym ptr = "nat option"

record github_User =
  User_ID :: "int option"
  Login :: "string option"

record github_Milestone =
  Milestone_ID :: "int option"
  Milestone_Title :: "string option"

record github_Repository =
  Repository_ID :: "int option"
  FullName :: "string option"

text \<open>
  The structs that embed references are polymorphic in the type of a reference: in memory a
  reference is a pointer (\<open>ptr\<close>); in a JSON document it is the referenced object itself,
  written out in place (\<open>github_User option\<close>).
\<close>

record ('u, 'm) github_Timeline =
  Event :: "string option"
  Actor :: 'u
  Timeline_Assignee :: 'u
  Timeline_Milestone :: 'm

record 'u github_RepositoryCommit =
  SHA :: "string option"
  Author :: 'u
  Committer :: 'u

record ('u, 'm, 'r) github_Issue =
  Number :: "int option"
  Title :: "string option"
  User :: 'u
  Assignee :: 'u
  ClosedBy :: 'u
  Assignees :: "'u list"
  Milestone :: 'm
  Repository :: 'r
  PullRequestLinks :: "string option"
  ClosedAt :: "int option"
  CreatedAt :: "int option"

text \<open>
  \<^verbatim>\<open>type Issue struct { github.Issue; Timeline []*github.Timeline; Commits []*github.RepositoryCommit }\<close>.
  A slice is \<open>None\<close> when it is nil (the program tests \<^verbatim>\<open>i.Timeline == nil\<close>) and its
  elements are pointers that may be nil. The pointed-to events and commits are freshly
  decoded for one issue and never shared, so they are kept by value.
  A time is a number of nanoseconds.
\<close>

record ('u, 'm, 'r) Issue_rec =
  Issue :: "('u, 'm, 'r) github_Issue"
  Timeline :: "('u, 'm) github_Timeline option list option"
  Commits :: "'u github_RepositoryCommit option list option"

type_synonym Issue = "(ptr, ptr, ptr) Issue_rec"

type_synonym Issue_doc =
  "(github_User option, github_Milestone option, github_Repository option) Issue_rec"

record heap =
  user_at :: "nat \<Rightarrow> github_User"
  milestone_at :: "nat \<Rightarrow> github_Milestone"
  repository_at :: "nat \<Rightarrow> github_Repository"
  brk :: nat

text \<open>
  \<^verbatim>\<open>type Project struct\<close>. The map \<^verbatim>\<open>issues map[int]*Issue\<close> holds one distinct Issue
  object per key (each is allocated where it is inserted), so the objects are kept by value.
  A map \<^verbatim>\<open>map[int]*github.User\<close> is read only by \<^verbatim>\<open>p.users[id]\<close>, which yields nil for a
  missing key: it is a total function to pointers.
\<close>

record Project =
  Owner :: string
  Repo :: string
  RefreshedAt :: int
  issues :: "int \<rightharpoonup> Issue"
  users :: "int \<Rightarrow> ptr"
  milestones :: "int \<Rightarrow> ptr"
  repos :: "int \<Rightarrow> ptr"

datatype error = Fatal | NilDereference

section \<open>The interner\<close>

text \<open>The library's nil-safe getters: 0 for a nil pointer or a nil ID.\<close>

definition User_GetID :: "heap \<Rightarrow> ptr \<Rightarrow> int" where
  "User_GetID h u = (case u of None \<Rightarrow> 0
     | Some a \<Rightarrow> (case User_ID (user_at h a) of None \<Rightarrow> 0 | Some i \<Rightarrow> i))"

definition Milestone_GetID :: "heap \<Rightarrow> ptr \<Rightarrow> int" where
  "Milestone_GetID h m = (case m of None \<Rightarrow> 0
     | Some a \<Rightarrow> (case Milestone_ID (milestone_at h a) of None \<Rightarrow> 0 | Some i \<Rightarrow> i))"

definition Repository_GetID :: "heap \<Rightarrow> ptr \<Rightarrow> int" where
  "Repository_GetID h r = (case r of None \<Rightarrow> 0
     | Some a \<Rightarrow> (case Repository_ID (repository_at h a) of None \<Rightarrow> 0 | Some i \<Rightarrow> i))"

text \<open>
  \<^verbatim>\<open>func (p *Project) internUser(u **github.User)\<close>: the caller passes the address of a
  pointer variable; the model takes the pointer stored there and returns the pointer stored
  there afterwards, with the project.
\<close>

definition internUser :: "heap \<Rightarrow> Project \<Rightarrow> ptr \<Rightarrow> Project \<times> ptr" where
  "internUser h p u =
     (let id = User_GetID h u in
      if id \<noteq> 0 then
        (case users p id of
           Some e \<Rightarrow> (p, Some e)
         | None \<Rightarrow> (p\<lparr>users := (users p)(id := u)\<rparr>, u))
      else (p, u))"

definition internMilestone :: "heap \<Rightarrow> Project \<Rightarrow> ptr \<Rightarrow> Project \<times> ptr" where
  "internMilestone h p m =
     (let id = Milestone_GetID h m in
      if id \<noteq> 0 then
        (case milestones p id of
           Some e \<Rightarrow> (p, Some e)
         | None \<Rightarrow> (p\<lparr>milestones := (milestones p)(id := m)\<rparr>, m))
      else (p, m))"

definition internRepo :: "heap \<Rightarrow> Project \<Rightarrow> ptr \<Rightarrow> Project \<times> ptr" where
  "internRepo h p r =
     (let id = Repository_GetID h r in
      if id \<noteq> 0 then
        (case repos p id of
           Some e \<Rightarrow> (p, Some e)
         | None \<Rightarrow> (p\<lparr>repos := (repos p)(id := r)\<rparr>, r))
      else (p, r))"

text \<open>\<^verbatim>\<open>for j := range i.Assignees { p.internUser(&i.Assignees[j]) }\<close>\<close>

fun internAssignees :: "heap \<Rightarrow> Project \<Rightarrow> ptr list \<Rightarrow> Project \<times> ptr list" where
  "internAssignees h p [] = (p, [])"
| "internAssignees h p (u # us) =
     (let (p1, u1) = internUser h p u;
          (p2, us2) = internAssignees h p1 us
      in (p2, u1 # us2))"

text \<open>
  The body of \<^verbatim>\<open>for _, t := range i.Timeline\<close>, and the loop. Taking \<^verbatim>\<open>&t.Actor\<close> of a nil
  \<^verbatim>\<open>t\<close> panics.
\<close>

definition internEvent ::
  "heap \<Rightarrow> Project \<Rightarrow> (ptr, ptr) github_Timeline \<Rightarrow> Project \<times> (ptr, ptr) github_Timeline" where
  "internEvent h p t =
     (let (p1, a) = internUser h p (Actor t);
          (p2, b) = internUser h p1 (Timeline_Assignee t);
          (p3, m) = internMilestone h p2 (Timeline_Milestone t)
      in (p3, t\<lparr>Actor := a, Timeline_Assignee := b, Timeline_Milestone := m\<rparr>))"

fun internEvents ::
  "heap \<Rightarrow> Project \<Rightarrow> (ptr, ptr) github_Timeline option list
     \<Rightarrow> error + Project \<times> (ptr, ptr) github_Timeline option list" where
  "internEvents h p [] = Inr (p, [])"
| "internEvents h p (None # ts) = Inl NilDereference"
| "internEvents h p (Some t # ts) =
     (let (p1, t1) = internEvent h p t in
      case internEvents h p1 ts of
        Inl e \<Rightarrow> Inl e
      | Inr (p2, ts2) \<Rightarrow> Inr (p2, Some t1 # ts2))"

definition internCommit ::
  "heap \<Rightarrow> Project \<Rightarrow> ptr github_RepositoryCommit \<Rightarrow> Project \<times> ptr github_RepositoryCommit" where
  "internCommit h p c =
     (let (p1, a) = internUser h p (Author c);
          (p2, b) = internUser h p1 (Committer c)
      in (p2, c\<lparr>Author := a, Committer := b\<rparr>))"

fun internCommits ::
  "heap \<Rightarrow> Project \<Rightarrow> ptr github_RepositoryCommit option list
     \<Rightarrow> error + Project \<times> ptr github_RepositoryCommit option list" where
  "internCommits h p [] = Inr (p, [])"
| "internCommits h p (None # cs) = Inl NilDereference"
| "internCommits h p (Some c # cs) =
     (let (p1, c1) = internCommit h p c in
      case internCommits h p1 cs of
        Inl e \<Rightarrow> Inl e
      | Inr (p2, cs2) \<Rightarrow> Inr (p2, Some c1 # cs2))"

text \<open>Ranging over a nil slice runs no iteration and leaves it nil.\<close>

definition internTimeline ::
  "heap \<Rightarrow> Project \<Rightarrow> (ptr, ptr) github_Timeline option list option
     \<Rightarrow> error + Project \<times> (ptr, ptr) github_Timeline option list option" where
  "internTimeline h p tls =
     (case tls of
        None \<Rightarrow> Inr (p, None)
      | Some ts \<Rightarrow>
          (case internEvents h p ts of Inl e \<Rightarrow> Inl e | Inr (p1, ts1) \<Rightarrow> Inr (p1, Some ts1)))"

definition internCommitList ::
  "heap \<Rightarrow> Project \<Rightarrow> ptr github_RepositoryCommit option list option
     \<Rightarrow> error + Project \<times> ptr github_RepositoryCommit option list option" where
  "internCommitList h p cls =
     (case cls of
        None \<Rightarrow> Inr (p, None)
      | Some cs \<Rightarrow>
          (case internCommits h p cs of Inl e \<Rightarrow> Inl e | Inr (p1, cs1) \<Rightarrow> Inr (p1, Some cs1)))"

text \<open>
  \<^verbatim>\<open>func (p *Project) internIssue(i *Issue)\<close>. A panic ends the process, so a failed run
  yields no state.
\<close>

definition internIssueFields ::
  "heap \<Rightarrow> Project \<Rightarrow> (ptr, ptr, ptr) github_Issue \<Rightarrow> Project \<times> (ptr, ptr, ptr) github_Issue" where
  "internIssueFields h p g =
     (let (p1, u) = internUser h p (User g);
          (p2, a) = internUser h p1 (Assignee g);
          (p3, c) = internUser h p2 (ClosedBy g);
          (p4, asg) = internAssignees h p3 (Assignees g);
          (p5, m) = internMilestone h p4 (Milestone g);
          (p6, r) = internRepo h p5 (Repository g)
      in (p6, g\<lparr>User := u, Assignee := a, ClosedBy := c, Assignees := asg,
                 Milestone := m, Repository := r\<rparr>))"

definition internIssue :: "heap \<Rightarrow> Project \<Rightarrow> Issue \<Rightarrow> error + Project \<times> Issue" where
  "internIssue h p i =
     (let (p6, g) = internIssueFields h p (Issue i) in
      case internTimeline h p6 (Timeline i) of
        Inl e \<Rightarrow> Inl e
      | Inr (p7, tls) \<Rightarrow>
          (case internCommitList h p7 (Commits i) of
             Inl e \<Rightarrow> Inl e
           | Inr (p8, cls) \<Rightarrow> Inr (p8, i\<lparr>Issue := g, Timeline := tls, Commits := cls\<rparr>)))"

section \<open>The closed pull request age statistic\<close>

text \<open>
  The loop of \<^verbatim>\<open>main\<close> that feeds the histogram. \<^verbatim>\<open>time.Duration\<close> is a signed 64-bit
  count of nanoseconds; \<^verbatim>\<open>Time.Sub\<close> saturates at its bounds, and Go's integer division
  truncates toward zero.
\<close>

definition Hour :: int where
  "Hour = 3600000000000"

definition maxDuration :: int where
  "maxDuration = 2 ^ 63 - 1"

definition minDuration :: int where
  "minDuration = - (2 ^ 63)"

definition Time_Sub :: "int \<Rightarrow> int \<Rightarrow> int" where
  "Time_Sub t u =
     (let d = t - u in
      if d < minDuration then minDuration else if maxDuration < d then maxDuration else d)"

definition go_div :: "int \<Rightarrow> int \<Rightarrow> int" where
  "go_div a b = sgn a * sgn b * (\<bar>a\<bar> div \<bar>b\<bar>)"

text \<open>
  One iteration: \<open>Inr None\<close> when the issue is skipped (\<^verbatim>\<open>continue\<close>), \<open>Inr (Some v)\<close> when
  \<^verbatim>\<open>h.RecordValue(v)\<close> is called; dereferencing a nil \<^verbatim>\<open>CreatedAt\<close> panics.
\<close>

definition closedAge :: "('u, 'm, 'r) Issue_rec \<Rightarrow> error + int option" where
  "closedAge i =
     (if PullRequestLinks (Issue i) = None then Inr None
      else case ClosedAt (Issue i) of
        None \<Rightarrow> Inr None
      | Some closed \<Rightarrow>
          (case CreatedAt (Issue i) of
             None \<Rightarrow> Inl NilDereference
           | Some created \<Rightarrow>
               (let age = go_div (Time_Sub closed created) (24 * Hour) in
                Inr (Some (if age < 1 then 1 else age)))))"

text \<open>The values recorded over the issues, in the order the map is ranged over.\<close>

fun recordedAges :: "('u, 'm, 'r) Issue_rec list \<Rightarrow> error + int list" where
  "recordedAges [] = Inr []"
| "recordedAges (i # rest) =
     (case closedAge i of
        Inl e \<Rightarrow> Inl e
      | Inr v \<Rightarrow>
          (case recordedAges rest of
             Inl e \<Rightarrow> Inl e
           | Inr vs \<Rightarrow> Inr (case v of None \<Rightarrow> vs | Some a \<Rightarrow> a # vs)))"

section \<open>JSON documents\<close>

text \<open>
  What the JSON decoder of the library does with a document: every object it meets is
  allocated afresh, at the next unused address. What the encoder does with a value: every
  pointer is followed and the object written out in place.
\<close>

type_synonym Fields_doc =
  "(github_User option, github_Milestone option, github_Repository option) github_Issue"

type_synonym Event_doc = "(github_User option, github_Milestone option) github_Timeline"

type_synonym Commit_doc = "github_User option github_RepositoryCommit"

definition newUser :: "heap \<Rightarrow> github_User option \<Rightarrow> heap \<times> ptr" where
  "newUser h d =
     (case d of
        None \<Rightarrow> (h, None)
      | Some u \<Rightarrow> (h\<lparr>user_at := (user_at h)(brk h := u), brk := Suc (brk h)\<rparr>, Some (brk h)))"

definition newMilestone :: "heap \<Rightarrow> github_Milestone option \<Rightarrow> heap \<times> ptr" where
  "newMilestone h d =
     (case d of
        None \<Rightarrow> (h, None)
      | Some m \<Rightarrow>
          (h\<lparr>milestone_at := (milestone_at h)(brk h := m), brk := Suc (brk h)\<rparr>, Some (brk h)))"

definition newRepository :: "heap \<Rightarrow> github_Repository option \<Rightarrow> heap \<times> ptr" where
  "newRepository h d =
     (case d of
        None \<Rightarrow> (h, None)
      | Some r \<Rightarrow>
          (h\<lparr>repository_at := (repository_at h)(brk h := r), brk := Suc (brk h)\<rparr>, Some (brk h)))"

fun newUsers :: "heap \<Rightarrow> github_User option list \<Rightarrow> heap \<times> ptr list" where
  "newUsers h [] = (h, [])"
| "newUsers h (d # ds) =
     (let (h1, u) = newUser h d; (h2, us) = newUsers h1 ds in (h2, u # us))"

definition decodeEvent :: "heap \<Rightarrow> Event_doc \<Rightarrow> heap \<times> (ptr, ptr) github_Timeline" where
  "decodeEvent h d =
     (let (h1, a) = newUser h (Actor d);
          (h2, b) = newUser h1 (Timeline_Assignee d);
          (h3, m) = newMilestone h2 (Timeline_Milestone d)
      in (h3, \<lparr>Event = Event d, Actor = a, Timeline_Assignee = b, Timeline_Milestone = m\<rparr>))"

fun decodeEvents ::
  "heap \<Rightarrow> Event_doc option list \<Rightarrow> heap \<times> (ptr, ptr) github_Timeline option list" where
  "decodeEvents h [] = (h, [])"
| "decodeEvents h (None # ds) = (let (h1, ts) = decodeEvents h ds in (h1, None # ts))"
| "decodeEvents h (Some d # ds) =
     (let (h1, t) = decodeEvent h d; (h2, ts) = decodeEvents h1 ds in (h2, Some t # ts))"

definition decodeCommit :: "heap \<Rightarrow> Commit_doc \<Rightarrow> heap \<times> ptr github_RepositoryCommit" where
  "decodeCommit h d =
     (let (h1, a) = newUser h (Author d);
          (h2, b) = newUser h1 (Committer d)
      in (h2, \<lparr>SHA = SHA d, Author = a, Committer = b\<rparr>))"

fun decodeCommits ::
  "heap \<Rightarrow> Commit_doc option list \<Rightarrow> heap \<times> ptr github_RepositoryCommit option list" where
  "decodeCommits h [] = (h, [])"
| "decodeCommits h (None # ds) = (let (h1, cs) = decodeCommits h ds in (h1, None # cs))"
| "decodeCommits h (Some d # ds) =
     (let (h1, c) = decodeCommit h d; (h2, cs) = decodeCommits h1 ds in (h2, Some c # cs))"

definition decodeFields :: "heap \<Rightarrow> Fields_doc \<Rightarrow> heap \<times> (ptr, ptr, ptr) github_Issue" where
  "decodeFields h d =
     (let (h1, u) = newUser h (User d);
          (h2, a) = newUser h1 (Assignee d);
          (h3, c) = newUser h2 (ClosedBy d);
          (h4, asg) = newUsers h3 (Assignees d);
          (h5, m) = newMilestone h4 (Milestone d);
          (h6, r) = newRepository h5 (Repository d)
      in (h6, \<lparr>Number = Number d, Title = Title d, User = u, Assignee = a, ClosedBy = c,
                Assignees = asg, Milestone = m, Repository = r,
                PullRequestLinks = PullRequestLinks d, ClosedAt = ClosedAt d,
                CreatedAt = CreatedAt d\<rparr>))"

fun decodePage ::
  "heap \<Rightarrow> Fields_doc option list \<Rightarrow> heap \<times> (ptr, ptr, ptr) github_Issue option list" where
  "decodePage h [] = (h, [])"
| "decodePage h (None # ds) = (let (h1, gs) = decodePage h ds in (h1, None # gs))"
| "decodePage h (Some d # ds) =
     (let (h1, g) = decodeFields h d; (h2, gs) = decodePage h1 ds in (h2, Some g # gs))"

definition decodeIssue :: "heap \<Rightarrow> Issue_doc \<Rightarrow> heap \<times> Issue" where
  "decodeIssue h d =
     (let (h1, g) = decodeFields h (Issue d);
          (h2, tls) = (case Timeline d of
                         None \<Rightarrow> (h1, None)
                       | Some ds \<Rightarrow> (let (h', ts) = decodeEvents h1 ds in (h', Some ts)));
          (h3, cls) = (case Commits d of
                         None \<Rightarrow> (h2, None)
                       | Some ds \<Rightarrow> (let (h', cs) = decodeCommits h2 ds in (h', Some cs)))
      in (h3, \<lparr>Issue = g, Timeline = tls, Commits = cls\<rparr>))"

definition docUser :: "heap \<Rightarrow> ptr \<Rightarrow> github_User option" where
  "docUser h u = map_option (user_at h) u"

definition docMilestone :: "heap \<Rightarrow> ptr \<Rightarrow> github_Milestone option" where
  "docMilestone h m = map_option (milestone_at h) m"

definition docRepository :: "heap \<Rightarrow> ptr \<Rightarrow> github_Repository option" where
  "docRepository h r = map_option (repository_at h) r"

definition encodeEvent :: "heap \<Rightarrow> (ptr, ptr) github_Timeline \<Rightarrow> Event_doc" where
  "encodeEvent h t =
     \<lparr>Event = Event t, Actor = docUser h (Actor t),
      Timeline_Assignee = docUser h (Timeline_Assignee t),
      Timeline_Milestone = docMilestone h (Timeline_Milestone t)\<rparr>"

definition encodeCommit :: "heap \<Rightarrow> ptr github_RepositoryCommit \<Rightarrow> Commit_doc" where
  "encodeCommit h c =
     \<lparr>SHA = SHA c, Author = docUser h (Author c), Committer = docUser h (Committer c)\<rparr>"

definition encodeFields :: "heap \<Rightarrow> (ptr, ptr, ptr) github_Issue \<Rightarrow> Fields_doc" where
  "encodeFields h g =
     \<lparr>Number = Number g, Title = Title g, User = docUser h (User g),
      Assignee = docUser h (Assignee g), ClosedBy = docUser h (ClosedBy g),
      Assignees = map (docUser h) (Assignees g), Milestone = docMilestone h (Milestone g),
      Repository = docRepository h (Repository g), PullRequestLinks = PullRequestLinks g,
      ClosedAt = ClosedAt g, CreatedAt = CreatedAt g\<rparr>"

definition encodeIssue :: "heap \<Rightarrow> Issue \<Rightarrow> Issue_doc" where
  "encodeIssue h i =
     \<lparr>Issue = encodeFields h (Issue i),
      Timeline = map_option (map (map_option (encodeEvent h))) (Timeline i),
      Commits = map_option (map (map_option (encodeCommit h))) (Commits i)\<rparr>"

text \<open>The exported fields of \<^verbatim>\<open>Project\<close>, which is all that the JSON encoder sees of it.\<close>

record Meta =
  Meta_Owner :: string
  Meta_Repo :: string
  Meta_RefreshedAt :: int

section \<open>The environment\<close>

text \<open>
  Everything outside the process is a parameter: the GitHub API, the clock, the file system
  and the JSON codec. The program is sequential and deterministic, so what the outside
  answers is a function of what the program has done so far: the list of its actions, oldest
  first. That list is threaded through the program and is also the record of the run.
  \<open>E_Visit\<close> marks the start of the Phase B loop body for one issue; it is not an action on
  the outside.
\<close>

datatype 'b event =
    E_ListByRepo string string int int int
  | E_Sleep int
  | E_ListCommits string string int int int
  | E_ListIssueTimeline string string int int int
  | E_WriteFile string 'b
  | E_ReadFile string
  | E_ReadDir
  | E_Visit int

datatype 'a response = Response 'a int | Error

datatype 'b read = NotExist | ReadError | Data 'b

record 'b env =
  makeClient :: "'b event list \<Rightarrow> bool"
  now :: "'b event list \<Rightarrow> int"
  ListByRepo ::
    "'b event list \<Rightarrow> string \<Rightarrow> string \<Rightarrow> int \<Rightarrow> int \<Rightarrow> int \<Rightarrow> Fields_doc option list response"
  ListCommits ::
    "'b event list \<Rightarrow> string \<Rightarrow> string \<Rightarrow> int \<Rightarrow> int \<Rightarrow> int \<Rightarrow> Commit_doc option list response"
  ListIssueTimeline ::
    "'b event list \<Rightarrow> string \<Rightarrow> string \<Rightarrow> int \<Rightarrow> int \<Rightarrow> int \<Rightarrow> Event_doc option list response"
  ReadFile :: "'b event list \<Rightarrow> string \<Rightarrow> 'b read"
  ReadDir :: "'b event list \<Rightarrow> string list option"
  WriteFile :: "'b event list \<Rightarrow> string \<Rightarrow> 'b \<Rightarrow> bool"
  Marshal_Issue :: "Issue_doc \<Rightarrow> 'b option"
  Unmarshal_Issue :: "'b \<Rightarrow> Issue_doc option"
  Marshal_Project :: "Meta \<Rightarrow> 'b option"
  Unmarshal_Project :: "'b \<Rightarrow> Meta \<Rightarrow> Meta option"

section \<open>Numbers as file names\<close>

text \<open>
  \<^verbatim>\<open>strconv.Atoi\<close>, of which \<^verbatim>\<open>load\<close> keeps the number and drops the error: an optional
  sign and one or more decimal digits give their value, clamped to the 64-bit range; any
  other string gives 0.
\<close>

definition isDigit :: "char \<Rightarrow> bool" where
  "isDigit c \<longleftrightarrow> 48 \<le> (of_char c :: nat) \<and> (of_char c :: nat) \<le> 57"

fun digitsValue :: "nat \<Rightarrow> string \<Rightarrow> nat option" where
  "digitsValue acc [] = Some acc"
| "digitsValue acc (c # cs) =
     (if isDigit c then digitsValue (acc * 10 + (of_char c - 48)) cs else None)"

definition Atoi :: "string \<Rightarrow> int" where
  "Atoi s =
     (case s of
        [] \<Rightarrow> 0
      | c # cs \<Rightarrow>
          (let neg = (c = CHR ''-'');
               ds = (if c = CHR ''-'' \<or> c = CHR ''+'' then cs else s)
           in if ds = [] then 0
              else case digitsValue 0 ds of
                None \<Rightarrow> 0
              | Some v \<Rightarrow> if neg then max (- (2 ^ 63)) (- int v) else min (2 ^ 63 - 1) (int v)))"

text \<open>\<^verbatim>\<open>fmt.Sprintf("%d", n)\<close>\<close>

function digitsOf :: "nat \<Rightarrow> string" where
  "digitsOf n =
     (if n < 10 then [char_of (48 + n)] else digitsOf (n div 10) @ [char_of (48 + n mod 10)])"
  by pat_completeness auto
termination
  by (relation "measure (\<lambda>n. n)") auto

declare digitsOf.simps [simp del]

definition Sprintf_d :: "int \<Rightarrow> string" where
  "Sprintf_d n = (if n < 0 then CHR ''-'' # digitsOf (nat (- n)) else digitsOf (nat n))"

section \<open>Cache persistence\<close>

text \<open>
  \<^verbatim>\<open>saveJSON\<close>: a value that cannot be encoded and a file that cannot be written are fatal.
  File names are relative to the cache directory. The result is paired with the extended
  record of actions, which outlives a failed run (what was written stays written).
\<close>

definition saveJSON ::
  "'b env \<Rightarrow> 'b event list \<Rightarrow> string \<Rightarrow> 'b option \<Rightarrow> (error + unit) \<times> 'b event list" where
  "saveJSON env tr path v =
     (case v of
        None \<Rightarrow> (Inl Fatal, tr)
      | Some data \<Rightarrow>
          (if WriteFile env tr path data then (Inr (), tr @ [E_WriteFile path data])
           else (Inl Fatal, tr @ [E_WriteFile path data])))"

text \<open>\<^verbatim>\<open>func (i *Issue) save()\<close>; dereferencing a nil \<^verbatim>\<open>Number\<close> panics.\<close>

definition Issue_save ::
  "'b env \<Rightarrow> 'b event list \<Rightarrow> heap \<Rightarrow> Issue \<Rightarrow> (error + unit) \<times> 'b event list" where
  "Issue_save env tr h i =
     (case Number (Issue i) of
        None \<Rightarrow> (Inl NilDereference, tr)
      | Some n \<Rightarrow> saveJSON env tr (Sprintf_d n) (Marshal_Issue env (encodeIssue h i)))"

definition metaOf :: "Project \<Rightarrow> Meta" where
  "metaOf p = \<lparr>Meta_Owner = Owner p, Meta_Repo = Repo p, Meta_RefreshedAt = RefreshedAt p\<rparr>"

text \<open>\<^verbatim>\<open>func (p *Project) save()\<close>\<close>

definition Project_save ::
  "'b env \<Rightarrow> 'b event list \<Rightarrow> Project \<Rightarrow> (error + unit) \<times> 'b event list" where
  "Project_save env tr p = saveJSON env tr ''meta'' (Marshal_Project env (metaOf p))"

text \<open>
  \<^verbatim>\<open>loadJSON\<close> returns without touching its target when the file does not exist; any other
  read error and any decoding error are fatal. \<open>None\<close> stands for the untouched target.
\<close>

definition loadJSON ::
  "'b env \<Rightarrow> 'b event list \<Rightarrow> string \<Rightarrow> ('b \<Rightarrow> 'a option) \<Rightarrow> (error + 'a option) \<times> 'b event list" where
  "loadJSON env tr path decode =
     (case ReadFile env tr path of
        NotExist \<Rightarrow> (Inr None, tr @ [E_ReadFile path])
      | ReadError \<Rightarrow> (Inl Fatal, tr @ [E_ReadFile path])
      | Data data \<Rightarrow>
          (case decode data of
             None \<Rightarrow> (Inl Fatal, tr @ [E_ReadFile path])
           | Some v \<Rightarrow> (Inr (Some v), tr @ [E_ReadFile path])))"

text \<open>\<^verbatim>\<open>i := &Issue{}\<close>\<close>

definition emptyIssue :: Issue where
  "emptyIssue =
     \<lparr>Issue = \<lparr>Number = None, Title = None, User = None, Assignee = None, ClosedBy = None,
                Assignees = [], Milestone = None, Repository = None, PullRequestLinks = None,
                ClosedAt = None, CreatedAt = None\<rparr>,
      Timeline = None, Commits = None\<rparr>"

text \<open>The body of the loop of \<^verbatim>\<open>load\<close> for one file that is not skipped.\<close>

definition loadIssue ::
  "'b env \<Rightarrow> 'b event list \<Rightarrow> heap \<Rightarrow> Project \<Rightarrow> string
     \<Rightarrow> (error + heap \<times> Project) \<times> 'b event list" where
  "loadIssue env tr h p name =
     (case loadJSON env tr name (Unmarshal_Issue env) of
        (Inl e, tr1) \<Rightarrow> (Inl e, tr1)
      | (Inr v, tr1) \<Rightarrow>
          (let (h1, i) = (case v of None \<Rightarrow> (h, emptyIssue) | Some d \<Rightarrow> decodeIssue h d) in
           case internIssue h1 p i of
             Inl e \<Rightarrow> (Inl e, tr1)
           | Inr (p1, i1) \<Rightarrow>
               (case Number (Issue i1) of
                  None \<Rightarrow> (Inl NilDereference, tr1)
                | Some n \<Rightarrow> (Inr (h1, p1\<lparr>issues := (issues p1)(n \<mapsto> i1)\<rparr>), tr1))))"

fun loadFiles ::
  "'b env \<Rightarrow> 'b event list \<Rightarrow> heap \<Rightarrow> Project \<Rightarrow> string list
     \<Rightarrow> (error + heap \<times> Project) \<times> 'b event list" where
  "loadFiles env tr h p [] = (Inr (h, p), tr)"
| "loadFiles env tr h p (f # fs) =
     (if Atoi f = 0 then loadFiles env tr h p fs
      else case loadIssue env tr h p f of
        (Inl e, tr1) \<Rightarrow> (Inl e, tr1)
      | (Inr (h1, p1), tr1) \<Rightarrow> loadFiles env tr1 h1 p1 fs)"




section \<open>The sync orchestrator\<close>

text \<open>
  \<^verbatim>\<open>func (p *Project) refresh()\<close>. Its three pagination loops have no bound of their own, so
  each takes fuel, the number of requests it may still make; \<open>None\<close> is a loop that has not
  returned within its fuel. Output to the terminal is not modelled, except that printing
  \<^verbatim>\<open>*issues[0].Number\<close> and \<^verbatim>\<open>*issues[n-1].Number\<close> can panic.
\<close>

definition perPage :: int where
  "perPage = 100"

definition Second :: int where
  "Second = 1000000000"

definition printRange :: "(ptr, ptr, ptr) github_Issue option list \<Rightarrow> error + unit" where
  "printRange gs =
     (if length gs > 0 then
        (case (hd gs, last gs) of
           (Some a, Some b) \<Rightarrow>
             (if Number a = None \<or> Number b = None then Inl NilDereference else Inr ())
         | _ \<Rightarrow> Inl NilDereference)
      else Inr ())"

text \<open>\<^verbatim>\<open>for _, issue := range issues\<close> of Phase A.\<close>

fun storeIssues :: "Project \<Rightarrow> (ptr, ptr, ptr) github_Issue option list \<Rightarrow> error + Project" where
  "storeIssues p [] = Inr p"
| "storeIssues p (None # gs) = Inl NilDereference"
| "storeIssues p (Some g # gs) =
     (case Number g of
        None \<Rightarrow> Inl NilDereference
      | Some n \<Rightarrow>
          (let i = (case issues p n of None \<Rightarrow> emptyIssue | Some i0 \<Rightarrow> i0) in
           storeIssues
             (p\<lparr>issues := (issues p)(n \<mapsto> i\<lparr>Issue := g, Timeline := None, Commits := None\<rparr>)\<rparr>)
             gs))"

text \<open>Phase A: the issue listing loop, from a given page.\<close>

fun listIssues ::
  "nat \<Rightarrow> 'b env \<Rightarrow> 'b event list \<Rightarrow> heap \<Rightarrow> Project \<Rightarrow> int
     \<Rightarrow> (error + heap \<times> Project) option \<times> 'b event list" where
  "listIssues 0 env tr h p page = (None, tr)"
| "listIssues (Suc n) env tr h p page =
     (case ListByRepo env tr (Owner p) (Repo p) (RefreshedAt p) page perPage of
        Error \<Rightarrow>
          listIssues n env
            (tr @ [E_ListByRepo (Owner p) (Repo p) (RefreshedAt p) page perPage,
                   E_Sleep (5 * Second)])
            h p page
      | Response docs next \<Rightarrow>
          (let tr1 = tr @ [E_ListByRepo (Owner p) (Repo p) (RefreshedAt p) page perPage];
               (h1, gs) = decodePage h docs
           in case printRange gs of
                Inl e \<Rightarrow> (Some (Inl e), tr1)
              | Inr _ \<Rightarrow>
                  (case storeIssues p gs of
                     Inl e \<Rightarrow> (Some (Inl e), tr1)
                   | Inr p1 \<Rightarrow>
                       (if next < page then (Some (Inr (h1, p1)), tr1)
                        else listIssues n env tr1 h1 p1 next))))"

text \<open>
  \<^verbatim>\<open>append(s, xs...)\<close> on a slice that may be nil: appending nothing to nil leaves nil.
\<close>

definition append_slice :: "'a list option \<Rightarrow> 'a list \<Rightarrow> 'a list option" where
  "append_slice s xs =
     (case s of None \<Rightarrow> (if xs = [] then None else Some xs) | Some ys \<Rightarrow> Some (ys @ xs))"

text \<open>Phase B: the commit listing loop for issue \<open>num\<close>, from a given page.\<close>

fun listCommits ::
  "nat \<Rightarrow> 'b env \<Rightarrow> 'b event list \<Rightarrow> heap \<Rightarrow> Project \<Rightarrow> int \<Rightarrow> Issue \<Rightarrow> int
     \<Rightarrow> (error + heap \<times> Issue) option \<times> 'b event list" where
  "listCommits 0 env tr h p num i page = (None, tr)"
| "listCommits (Suc n) env tr h p num i page =
     (case ListCommits env tr (Owner p) (Repo p) num page perPage of
        Error \<Rightarrow> (Some (Inl Fatal), tr @ [E_ListCommits (Owner p) (Repo p) num page perPage])
      | Response docs next \<Rightarrow>
          (let tr1 = tr @ [E_ListCommits (Owner p) (Repo p) num page perPage];
               (h1, cs) = decodeCommits h docs;
               i1 = i\<lparr>Commits := append_slice (Commits i) cs\<rparr>
           in if next < page then (Some (Inr (h1, i1)), tr1)
              else listCommits n env tr1 h1 p num i1 next))"

text \<open>Phase B: the timeline listing loop for issue \<open>num\<close>, from a given page.\<close>

fun listTimeline ::
  "nat \<Rightarrow> 'b env \<Rightarrow> 'b event list \<Rightarrow> heap \<Rightarrow> Project \<Rightarrow> int \<Rightarrow> Issue \<Rightarrow> int
     \<Rightarrow> (error + heap \<times> Issue) option \<times> 'b event list" where
  "listTimeline 0 env tr h p num i page = (None, tr)"
| "listTimeline (Suc n) env tr h p num i page =
     (case ListIssueTimeline env tr (Owner p) (Repo p) num page perPage of
        Error \<Rightarrow>
          (Some (Inl Fatal), tr @ [E_ListIssueTimeline (Owner p) (Repo p) num page perPage])
      | Response docs next \<Rightarrow>
          (let tr1 = tr @ [E_ListIssueTimeline (Owner p) (Repo p) num page perPage];
               (h1, ts) = decodeEvents h docs;
               i1 = i\<lparr>Timeline := append_slice (Timeline i) ts\<rparr>
           in if next < page then (Some (Inr (h1, i1)), tr1)
              else listTimeline n env tr1 h1 p num i1 next))"

text \<open>\<^verbatim>\<open>func (p *Project) sortedIssues() []int\<close>\<close>

definition sortedIssues :: "Project \<Rightarrow> int list" where
  "sortedIssues p = sorted_list_of_set (dom (issues p))"

text \<open>
  The body of the Phase B loop for one issue number, in its three parts: the commits of a
  pull request that has none cached, the timeline of an issue that has none cached, and the
  interning and saving of an issue that changed. A listing loop that returns has set
  \<^verbatim>\<open>changed\<close> (\<open>markChanged\<close>). The issue is updated in place in the
  program; here the updated object is put back under \<open>num\<close>, the key it was read from.
\<close>

definition markChanged ::
  "(error + heap \<times> Issue) option \<times> 'b event list
     \<Rightarrow> (error + heap \<times> Issue \<times> bool) option \<times> 'b event list" where
  "markChanged r =
     (case r of
        (Some (Inr (h1, i1)), tr1) \<Rightarrow> (Some (Inr (h1, i1, True)), tr1)
      | (Some (Inl e), tr1) \<Rightarrow> (Some (Inl e), tr1)
      | (None, tr1) \<Rightarrow> (None, tr1))"

definition fetchCommits ::
  "nat \<Rightarrow> 'b env \<Rightarrow> 'b event list \<Rightarrow> heap \<Rightarrow> Project \<Rightarrow> int \<Rightarrow> Issue
     \<Rightarrow> (error + heap \<times> Issue \<times> bool) option \<times> 'b event list" where
  "fetchCommits n env tr h p num i =
     (if PullRequestLinks (Issue i) \<noteq> None \<and> Commits i = None
      then markChanged (listCommits n env tr h p num i 1)
      else (Some (Inr (h, i, False)), tr))"

definition fetchTimeline ::
  "nat \<Rightarrow> 'b env \<Rightarrow> 'b event list \<Rightarrow> heap \<Rightarrow> Project \<Rightarrow> int \<Rightarrow> Issue \<Rightarrow> bool
     \<Rightarrow> (error + heap \<times> Issue \<times> bool) option \<times> 'b event list" where
  "fetchTimeline n env tr h p num i changed =
     (if Timeline i = None
      then markChanged (listTimeline n env tr h p num i 1)
      else (Some (Inr (h, i, changed)), tr))"

definition saveChanged ::
  "'b env \<Rightarrow> 'b event list \<Rightarrow> heap \<Rightarrow> Project \<Rightarrow> int \<Rightarrow> Issue \<Rightarrow> bool
     \<Rightarrow> (error + heap \<times> Project) option \<times> 'b event list" where
  "saveChanged env tr h p num i changed =
     (if changed then
        (case internIssue h p i of
           Inl e \<Rightarrow> (Some (Inl e), tr)
         | Inr (p1, i1) \<Rightarrow>
             (case Issue_save env tr h i1 of
                (Inl e, tr1) \<Rightarrow> (Some (Inl e), tr1)
              | (Inr _, tr1) \<Rightarrow> (Some (Inr (h, p1\<lparr>issues := (issues p1)(num \<mapsto> i1)\<rparr>)), tr1)))
      else (Some (Inr (h, p)), tr))"

definition backfillIssue ::
  "nat \<Rightarrow> 'b env \<Rightarrow> 'b event list \<Rightarrow> heap \<Rightarrow> Project \<Rightarrow> int
     \<Rightarrow> (error + heap \<times> Project) option \<times> 'b event list" where
  "backfillIssue n env tr h p num =
     (case issues p num of
        None \<Rightarrow> (Some (Inl NilDereference), tr @ [E_Visit num])
      | Some i \<Rightarrow>
          (case fetchCommits n env (tr @ [E_Visit num]) h p num i of
             (Some (Inr (h1, i1, changed1)), tr1) \<Rightarrow>
               (case fetchTimeline n env tr1 h1 p num i1 changed1 of
                  (Some (Inr (h2, i2, changed)), tr2) \<Rightarrow> saveChanged env tr2 h2 p num i2 changed
                | (Some (Inl e), tr2) \<Rightarrow> (Some (Inl e), tr2)
                | (None, tr2) \<Rightarrow> (None, tr2))
           | (Some (Inl e), tr1) \<Rightarrow> (Some (Inl e), tr1)
           | (None, tr1) \<Rightarrow> (None, tr1)))"

text \<open>Phase B over the issue numbers in the order given.\<close>

fun backfill ::
  "nat \<Rightarrow> 'b env \<Rightarrow> 'b event list \<Rightarrow> heap \<Rightarrow> Project \<Rightarrow> int list
     \<Rightarrow> (error + heap \<times> Project) option \<times> 'b event list" where
  "backfill n env tr h p [] = (Some (Inr (h, p)), tr)"
| "backfill n env tr h p (num # nums) =
     (case backfillIssue n env tr h p num of
        (Some (Inr (h1, p1)), tr1) \<Rightarrow> backfill n env tr1 h1 p1 nums
      | (Some (Inl e), tr1) \<Rightarrow> (Some (Inl e), tr1)
      | (None, tr1) \<Rightarrow> (None, tr1))"

text \<open>
  \<^verbatim>\<open>refresh\<close>: the client is made (a missing or ill-protected token file is fatal), the
  clock is read, Phase A runs from page 1, the watermark is set and the metadata saved, and
  Phase B runs over \<^verbatim>\<open>sorted[len(sorted)-1]\<close> down to \<^verbatim>\<open>sorted[0]\<close>.
\<close>

definition refresh ::
  "nat \<Rightarrow> 'b env \<Rightarrow> 'b event list \<Rightarrow> heap \<Rightarrow> Project
     \<Rightarrow> (error + heap \<times> Project) option \<times> 'b event list" where
  "refresh n env tr h p =
     (if \<not> makeClient env tr then (Some (Inl Fatal), tr)
      else
        (let start = now env tr in
         case listIssues n env tr h p 1 of
           (Some (Inr (h1, p1)), tr1) \<Rightarrow>
             (let p2 = p1\<lparr>RefreshedAt := start\<rparr> in
              case Project_save env tr1 p2 of
                (Inl e, tr2) \<Rightarrow> (Some (Inl e), tr2)
              | (Inr _, tr2) \<Rightarrow> backfill n env tr2 h1 p2 (rev (sortedIssues p2)))
         | (Some (Inl e), tr1) \<Rightarrow> (Some (Inl e), tr1)
         | (None, tr1) \<Rightarrow> (None, tr1)))"

section \<open>Properties of the interner\<close>

text \<open>
  The store is well formed when every canonical instance is filed under its own ID. The
  empty maps of \<^verbatim>\<open>makeProject\<close> are, and the interners keep it so. \<open>store_le p q\<close>: \<open>q\<close> is
  \<open>p\<close> with canonical instances added and none replaced. A reference is canonical when it is
  unset or is the instance the store holds for its ID.
\<close>
definition store_ok :: "heap \<Rightarrow> Project \<Rightarrow> bool" where
  "store_ok h p \<longleftrightarrow>
     (\<forall>k a. users p k = Some a \<longrightarrow> User_GetID h (Some a) = k) \<and>
     (\<forall>k a. milestones p k = Some a \<longrightarrow> Milestone_GetID h (Some a) = k) \<and>
     (\<forall>k a. repos p k = Some a \<longrightarrow> Repository_GetID h (Some a) = k)"

definition store_le :: "Project \<Rightarrow> Project \<Rightarrow> bool" where
  "store_le p q \<longleftrightarrow>
     Owner q = Owner p \<and> Repo q = Repo p \<and> RefreshedAt q = RefreshedAt p \<and> issues q = issues p \<and>
     (\<forall>k. users p k \<noteq> None \<longrightarrow> users q k = users p k) \<and>
     (\<forall>k. milestones p k \<noteq> None \<longrightarrow> milestones q k = milestones p k) \<and>
     (\<forall>k. repos p k \<noteq> None \<longrightarrow> repos q k = repos p k)"

definition canonicalUser :: "heap \<Rightarrow> Project \<Rightarrow> ptr \<Rightarrow> bool" where
  "canonicalUser h p u \<longleftrightarrow> User_GetID h u = 0 \<or> users p (User_GetID h u) = u"

definition canonicalMilestone :: "heap \<Rightarrow> Project \<Rightarrow> ptr \<Rightarrow> bool" where
  "canonicalMilestone h p m \<longleftrightarrow> Milestone_GetID h m = 0 \<or> milestones p (Milestone_GetID h m) = m"

definition canonicalRepo :: "heap \<Rightarrow> Project \<Rightarrow> ptr \<Rightarrow> bool" where
  "canonicalRepo h p r \<longleftrightarrow> Repository_GetID h r = 0 \<or> repos p (Repository_GetID h r) = r"

lemma store_le_refl: "store_le p p"
  by (simp add: store_le_def)

lemma store_le_trans: "store_le p q \<Longrightarrow> store_le q r \<Longrightarrow> store_le p r"
  unfolding store_le_def by (metis)

lemma User_GetID_nil: "User_GetID h None = 0"
  by (simp add: User_GetID_def)
lemma Milestone_GetID_nil: "Milestone_GetID h None = 0"
  by (simp add: Milestone_GetID_def)
lemma Repository_GetID_nil: "Repository_GetID h None = 0"
  by (simp add: Repository_GetID_def)

lemma internUser_ok: "store_ok h p \<Longrightarrow> store_ok h (fst (internUser h p u))"
  by (cases u) (auto simp: internUser_def store_ok_def Let_def User_GetID_nil split: option.splits)

lemma internUser_le: "store_le p (fst (internUser h p u))"
  by (auto simp: internUser_def store_le_def Let_def split: option.splits)

lemma internUser_canon:
  "store_ok h p \<Longrightarrow> canonicalUser h (fst (internUser h p u)) (snd (internUser h p u))"
  by (auto simp: internUser_def store_ok_def canonicalUser_def Let_def split: option.splits)

lemma internUser_id: "canonicalUser h p u \<Longrightarrow> internUser h p u = (p, u)"
  by (cases u) (auto simp: internUser_def canonicalUser_def Let_def User_GetID_nil split: option.splits)

lemma canonicalUser_mono: "store_le p q \<Longrightarrow> canonicalUser h p u \<Longrightarrow> canonicalUser h q u"
  by (cases u) (auto simp: canonicalUser_def store_le_def User_GetID_nil)

lemma internMilestone_ok: "store_ok h p \<Longrightarrow> store_ok h (fst (internMilestone h p u))"
  by (cases u) (auto simp: internMilestone_def store_ok_def Let_def Milestone_GetID_nil split: option.splits)

lemma internMilestone_le: "store_le p (fst (internMilestone h p u))"
  by (auto simp: internMilestone_def store_le_def Let_def split: option.splits)

lemma internMilestone_canon:
  "store_ok h p \<Longrightarrow> canonicalMilestone h (fst (internMilestone h p u)) (snd (internMilestone h p u))"
  by (auto simp: internMilestone_def store_ok_def canonicalMilestone_def Let_def split: option.splits)

lemma internMilestone_id: "canonicalMilestone h p u \<Longrightarrow> internMilestone h p u = (p, u)"
  by (cases u) (auto simp: internMilestone_def canonicalMilestone_def Let_def Milestone_GetID_nil split: option.splits)

lemma canonicalMilestone_mono: "store_le p q \<Longrightarrow> canonicalMilestone h p u \<Longrightarrow> canonicalMilestone h q u"
  by (cases u) (auto simp: canonicalMilestone_def store_le_def Milestone_GetID_nil)

lemma internRepo_ok: "store_ok h p \<Longrightarrow> store_ok h (fst (internRepo h p u))"
  by (cases u) (auto simp: internRepo_def store_ok_def Let_def Repository_GetID_nil split: option.splits)

lemma internRepo_le: "store_le p (fst (internRepo h p u))"
  by (auto simp: internRepo_def store_le_def Let_def split: option.splits)

lemma internRepo_canon:
  "store_ok h p \<Longrightarrow> canonicalRepo h (fst (internRepo h p u)) (snd (internRepo h p u))"
  by (auto simp: internRepo_def store_ok_def canonicalRepo_def Let_def split: option.splits)

lemma internRepo_id: "canonicalRepo h p u \<Longrightarrow> internRepo h p u = (p, u)"
  by (cases u) (auto simp: internRepo_def canonicalRepo_def Let_def Repository_GetID_nil split: option.splits)

lemma canonicalRepo_mono: "store_le p q \<Longrightarrow> canonicalRepo h p u \<Longrightarrow> canonicalRepo h q u"
  by (cases u) (auto simp: canonicalRepo_def store_le_def Repository_GetID_nil)

definition canonicalEvent :: "heap \<Rightarrow> Project \<Rightarrow> (ptr, ptr) github_Timeline \<Rightarrow> bool" where
  "canonicalEvent h p t \<longleftrightarrow>
     canonicalUser h p (Actor t) \<and> canonicalUser h p (Timeline_Assignee t) \<and>
     canonicalMilestone h p (Timeline_Milestone t)"

definition canonicalCommit :: "heap \<Rightarrow> Project \<Rightarrow> ptr github_RepositoryCommit \<Rightarrow> bool" where
  "canonicalCommit h p c \<longleftrightarrow> canonicalUser h p (Author c) \<and> canonicalUser h p (Committer c)"

definition canonicalFields :: "heap \<Rightarrow> Project \<Rightarrow> (ptr, ptr, ptr) github_Issue \<Rightarrow> bool" where
  "canonicalFields h p g \<longleftrightarrow>
     canonicalUser h p (User g) \<and> canonicalUser h p (Assignee g) \<and>
     canonicalUser h p (ClosedBy g) \<and> list_all (canonicalUser h p) (Assignees g) \<and>
     canonicalMilestone h p (Milestone g) \<and> canonicalRepo h p (Repository g)"

definition canonicalEvents :: "heap \<Rightarrow> Project \<Rightarrow> (ptr, ptr) github_Timeline option list \<Rightarrow> bool" where
  "canonicalEvents h p ts =
     list_all (\<lambda>x. case x of None \<Rightarrow> False | Some t \<Rightarrow> canonicalEvent h p t) ts"

definition canonicalCommits :: "heap \<Rightarrow> Project \<Rightarrow> ptr github_RepositoryCommit option list \<Rightarrow> bool" where
  "canonicalCommits h p cs =
     list_all (\<lambda>x. case x of None \<Rightarrow> False | Some c \<Rightarrow> canonicalCommit h p c) cs"

definition canonicalIssue :: "heap \<Rightarrow> Project \<Rightarrow> Issue \<Rightarrow> bool" where
  "canonicalIssue h p i \<longleftrightarrow>
     canonicalFields h p (Issue i) \<and>
     (case Timeline i of None \<Rightarrow> True | Some ts \<Rightarrow> canonicalEvents h p ts) \<and>
     (case Commits i of None \<Rightarrow> True | Some cs \<Rightarrow> canonicalCommits h p cs)"

lemma internUser_step:
  assumes "store_ok h p" "internUser h p u = (q, v)"
  shows "store_ok h q \<and> store_le p q \<and> canonicalUser h q v"
  using internUser_ok [OF assms(1), of u] internUser_le [of p h u]
    internUser_canon [OF assms(1), of u] assms(2) by simp

lemma internMilestone_step:
  assumes "store_ok h p" "internMilestone h p u = (q, v)"
  shows "store_ok h q \<and> store_le p q \<and> canonicalMilestone h q v"
  using internMilestone_ok [OF assms(1), of u] internMilestone_le [of p h u]
    internMilestone_canon [OF assms(1), of u] assms(2) by simp

lemma internRepo_step:
  assumes "store_ok h p" "internRepo h p u = (q, v)"
  shows "store_ok h q \<and> store_le p q \<and> canonicalRepo h q v"
  using internRepo_ok [OF assms(1), of u] internRepo_le [of p h u]
    internRepo_canon [OF assms(1), of u] assms(2) by simp

lemma internEvent_step:
  assumes "store_ok h p" "internEvent h p t = (q, t')"
  shows "store_ok h q \<and> store_le p q \<and> canonicalEvent h q t'"
proof -
  obtain p1 a where 1: "internUser h p (Actor t) = (p1, a)" by fastforce
  obtain p2 b where 2: "internUser h p1 (Timeline_Assignee t) = (p2, b)" by fastforce
  obtain p3 m where 3: "internMilestone h p2 (Timeline_Milestone t) = (p3, m)" by fastforce
  note s1 = internUser_step [OF assms(1) 1]
  note s2 = internUser_step [OF s1 [THEN conjunct1] 2]
  note s3 = internMilestone_step [OF s2 [THEN conjunct1] 3]
  have q: "q = p3" and t': "t' = t\<lparr>Actor := a, Timeline_Assignee := b, Timeline_Milestone := m\<rparr>"
    using assms(2) by (simp_all add: internEvent_def 1 2 3)
  have "store_le p p3" using s1 s2 s3 store_le_trans by blast
  moreover have "canonicalUser h p3 a"
    using s1 s2 s3 canonicalUser_mono store_le_trans by blast
  moreover have "canonicalUser h p3 b"
    using s2 s3 canonicalUser_mono by blast
  ultimately show ?thesis using s3 by (simp add: q t' canonicalEvent_def)
qed

lemma canonicalEvent_mono: "store_le p q \<Longrightarrow> canonicalEvent h p t \<Longrightarrow> canonicalEvent h q t"
  by (auto simp: canonicalEvent_def intro: canonicalUser_mono canonicalMilestone_mono)

lemma internEvent_id: "canonicalEvent h p t \<Longrightarrow> internEvent h p t = (p, t)"
  by (simp add: canonicalEvent_def internEvent_def internUser_id internMilestone_id)

lemma internCommit_step:
  assumes "store_ok h p" "internCommit h p c = (q, c')"
  shows "store_ok h q \<and> store_le p q \<and> canonicalCommit h q c'"
proof -
  obtain p1 a where 1: "internUser h p (Author c) = (p1, a)" by fastforce
  obtain p2 b where 2: "internUser h p1 (Committer c) = (p2, b)" by fastforce
  note s1 = internUser_step [OF assms(1) 1]
  note s2 = internUser_step [OF s1 [THEN conjunct1] 2]
  have q: "q = p2" and c': "c' = c\<lparr>Author := a, Committer := b\<rparr>"
    using assms(2) by (simp_all add: internCommit_def 1 2)
  have "store_le p p2" using s1 s2 store_le_trans by blast
  moreover have "canonicalUser h p2 a"
    using s1 s2 canonicalUser_mono by blast
  ultimately show ?thesis using s2 by (simp add: q c' canonicalCommit_def)
qed

lemma canonicalCommit_mono: "store_le p q \<Longrightarrow> canonicalCommit h p t \<Longrightarrow> canonicalCommit h q t"
  by (auto simp: canonicalCommit_def intro: canonicalUser_mono)

lemma internCommit_id: "canonicalCommit h p t \<Longrightarrow> internCommit h p t = (p, t)"
  by (simp add: canonicalCommit_def internCommit_def internUser_id)

lemma canonicalEvents_mono: "store_le p q \<Longrightarrow> canonicalEvents h p ts \<Longrightarrow> canonicalEvents h q ts"
  by (induction ts) (auto simp: canonicalEvents_def intro: canonicalEvent_mono split: option.splits)

lemma canonicalCommits_mono: "store_le p q \<Longrightarrow> canonicalCommits h p ts \<Longrightarrow> canonicalCommits h q ts"
  by (induction ts) (auto simp: canonicalCommits_def intro: canonicalCommit_mono split: option.splits)

lemma internEvents_step:
  "store_ok h p \<Longrightarrow> internEvents h p ts = Inr (q, ts') \<Longrightarrow>
     store_ok h q \<and> store_le p q \<and> canonicalEvents h q ts'"
proof (induction ts arbitrary: p ts')
  case Nil
  then show ?case by (simp add: store_le_refl canonicalEvents_def)
next
  case (Cons x ts)
  then obtain t where x: "x = Some t" by (cases x) auto
  obtain p1 t1 where 1: "internEvent h p t = (p1, t1)" by fastforce
  from Cons.prems(2) obtain ts2 where 2: "internEvents h p1 ts = Inr (q, ts2)"
    and ts': "ts' = Some t1 # ts2"
    by (auto simp: x 1 split: sum.splits)
  note s1 = internEvent_step [OF Cons.prems(1) 1]
  note s2 = Cons.IH [OF s1 [THEN conjunct1] 2]
  have "canonicalEvent h q t1" using s1 s2 canonicalEvent_mono by blast
  moreover have "store_le p q" using s1 s2 store_le_trans by blast
  ultimately show ?case using s2 by (simp add: ts' canonicalEvents_def)
qed

lemma internEvents_id: "canonicalEvents h p ts \<Longrightarrow> internEvents h p ts = Inr (p, ts)"
  by (induction ts) (auto simp: canonicalEvents_def internEvent_id split: option.splits)

lemma internCommits_step:
  "store_ok h p \<Longrightarrow> internCommits h p ts = Inr (q, ts') \<Longrightarrow>
     store_ok h q \<and> store_le p q \<and> canonicalCommits h q ts'"
proof (induction ts arbitrary: p ts')
  case Nil
  then show ?case by (simp add: store_le_refl canonicalCommits_def)
next
  case (Cons x ts)
  then obtain t where x: "x = Some t" by (cases x) auto
  obtain p1 t1 where 1: "internCommit h p t = (p1, t1)" by fastforce
  from Cons.prems(2) obtain ts2 where 2: "internCommits h p1 ts = Inr (q, ts2)"
    and ts': "ts' = Some t1 # ts2"
    by (auto simp: x 1 split: sum.splits)
  note s1 = internCommit_step [OF Cons.prems(1) 1]
  note s2 = Cons.IH [OF s1 [THEN conjunct1] 2]
  have "canonicalCommit h q t1" using s1 s2 canonicalCommit_mono by blast
  moreover have "store_le p q" using s1 s2 store_le_trans by blast
  ultimately show ?case using s2 by (simp add: ts' canonicalCommits_def)
qed

lemma internCommits_id: "canonicalCommits h p ts \<Longrightarrow> internCommits h p ts = Inr (p, ts)"
  by (induction ts) (auto simp: canonicalCommits_def internCommit_id split: option.splits)

lemma internAssignees_step:
  "store_ok h p \<Longrightarrow> internAssignees h p us = (q, us') \<Longrightarrow>
     store_ok h q \<and> store_le p q \<and> list_all (canonicalUser h q) us'"
proof (induction us arbitrary: p q us')
  case Nil
  then show ?case by (auto simp add: store_le_refl)
next
  case (Cons u us)
  obtain p1 u1 where 1: "internUser h p u = (p1, u1)" by fastforce
  obtain p2 us2 where 2: "internAssignees h p1 us = (p2, us2)" by fastforce
  have q: "q = p2" and us': "us' = u1 # us2" using Cons.prems(2) by (simp_all add: 1 2)
  note s1 = internUser_step [OF Cons.prems(1) 1]
  note s2 = Cons.IH [OF s1 [THEN conjunct1] 2]
  have "canonicalUser h p2 u1" using s1 s2 canonicalUser_mono by blast
  moreover have "store_le p p2" using s1 s2 store_le_trans by blast
  ultimately show ?case using s2 by (simp add: q us')
qed

lemma internAssignees_id: "list_all (canonicalUser h p) us \<Longrightarrow> internAssignees h p us = (p, us)"
  by (induction us) (auto simp: internUser_id)

lemma canonicalAssignees_mono:
  "store_le p q \<Longrightarrow> list_all (canonicalUser h p) us \<Longrightarrow> list_all (canonicalUser h q) us"
  by (induction us) (auto intro: canonicalUser_mono)

lemma canonicalFields_mono: "store_le p q \<Longrightarrow> canonicalFields h p g \<Longrightarrow> canonicalFields h q g"
  by (auto simp: canonicalFields_def
      intro: canonicalUser_mono canonicalMilestone_mono canonicalRepo_mono canonicalAssignees_mono)

lemma internIssueFields_id: "canonicalFields h p g \<Longrightarrow> internIssueFields h p g = (p, g)"
  by (simp add: canonicalFields_def internIssueFields_def internUser_id internMilestone_id
      internRepo_id internAssignees_id)

lemma internIssueFields_step:
  assumes "store_ok h p" "internIssueFields h p g = (q, g')"
  shows "store_ok h q \<and> store_le p q \<and> canonicalFields h q g' \<and>
         Number g' = Number g \<and> Title g' = Title g \<and> PullRequestLinks g' = PullRequestLinks g \<and>
         ClosedAt g' = ClosedAt g \<and> CreatedAt g' = CreatedAt g"
proof -
  obtain p1 u where 1: "internUser h p (User g) = (p1, u)" by fastforce
  obtain p2 a where 2: "internUser h p1 (Assignee g) = (p2, a)" by fastforce
  obtain p3 c where 3: "internUser h p2 (ClosedBy g) = (p3, c)" by fastforce
  obtain p4 asg where 4: "internAssignees h p3 (Assignees g) = (p4, asg)" by fastforce
  obtain p5 m where 5: "internMilestone h p4 (Milestone g) = (p5, m)" by fastforce
  obtain p6 r where 6: "internRepo h p5 (Repository g) = (p6, r)" by fastforce
  note s1 = internUser_step [OF assms(1) 1]
  note s2 = internUser_step [OF s1 [THEN conjunct1] 2]
  note s3 = internUser_step [OF s2 [THEN conjunct1] 3]
  note s4 = internAssignees_step [OF s3 [THEN conjunct1] 4]
  note s5 = internMilestone_step [OF s4 [THEN conjunct1] 5]
  note s6 = internRepo_step [OF s5 [THEN conjunct1] 6]
  have q: "q = p6"
    and g': "g' = g\<lparr>User := u, Assignee := a, ClosedBy := c, Assignees := asg,
                     Milestone := m, Repository := r\<rparr>"
    using assms(2) by (simp_all add: internIssueFields_def 1 2 3 4 5 6)
  have l56: "store_le p5 p6" using s6 by simp
  have l46: "store_le p4 p6" using s5 l56 store_le_trans by blast
  have l36: "store_le p3 p6" using s4 l46 store_le_trans by blast
  have l26: "store_le p2 p6" using s3 l36 store_le_trans by blast
  have l16: "store_le p1 p6" using s2 l26 store_le_trans by blast
  have l06: "store_le p p6" using s1 l16 store_le_trans by blast
  have "canonicalUser h p6 u" using s1 l16 canonicalUser_mono by blast
  moreover have "canonicalUser h p6 a" using s2 l26 canonicalUser_mono by blast
  moreover have "canonicalUser h p6 c" using s3 l36 canonicalUser_mono by blast
  moreover have "list_all (canonicalUser h p6) asg" using s4 l46 canonicalAssignees_mono by blast
  moreover have "canonicalMilestone h p6 m" using s5 l56 canonicalMilestone_mono by blast
  moreover have "canonicalRepo h p6 r" using s6 by simp
  ultimately show ?thesis using s6 l06 by (simp add: q g' canonicalFields_def)
qed

lemma canonicalIssue_mono: "store_le p q \<Longrightarrow> canonicalIssue h p i \<Longrightarrow> canonicalIssue h q i"
  by (auto simp: canonicalIssue_def split: option.splits
      intro: canonicalFields_mono canonicalEvents_mono canonicalCommits_mono)

lemma internTimeline_step:
  "store_ok h p \<Longrightarrow> internTimeline h p tls = Inr (q, tls') \<Longrightarrow>
     store_ok h q \<and> store_le p q \<and>
     (case tls' of None \<Rightarrow> tls = None | Some ts \<Rightarrow> tls \<noteq> None \<and> canonicalEvents h q ts)"
  by (cases tls)
    (auto simp: internTimeline_def store_le_refl split: sum.splits dest: internEvents_step)

lemma internCommitList_step:
  "store_ok h p \<Longrightarrow> internCommitList h p cls = Inr (q, cls') \<Longrightarrow>
     store_ok h q \<and> store_le p q \<and>
     (case cls' of None \<Rightarrow> cls = None | Some cs \<Rightarrow> cls \<noteq> None \<and> canonicalCommits h q cs)"
  by (cases cls)
    (auto simp: internCommitList_def store_le_refl split: sum.splits dest: internCommits_step)

lemma internIssue_step:
  assumes "store_ok h p" "internIssue h p i = Inr (q, i')"
  shows "store_ok h q \<and> store_le p q \<and> canonicalIssue h q i'"
proof -
  obtain p6 g where 1: "internIssueFields h p (Issue i) = (p6, g)" by fastforce
  from assms(2) obtain p7 tls where 2: "internTimeline h p6 (Timeline i) = Inr (p7, tls)"
    by (auto simp: internIssue_def 1 split: sum.splits)
  from assms(2) obtain cls where 3: "internCommitList h p7 (Commits i) = Inr (q, cls)"
    and i': "i' = i\<lparr>Issue := g, Timeline := tls, Commits := cls\<rparr>"
    by (auto simp: internIssue_def 1 2 split: sum.splits)
  note s1 = internIssueFields_step [OF assms(1) 1]
  note s2 = internTimeline_step [OF s1 [THEN conjunct1] 2]
  note s3 = internCommitList_step [OF s2 [THEN conjunct1] 3]
  have l7: "store_le p7 q" using s3 by simp
  have l6: "store_le p6 q" using s2 l7 store_le_trans by blast
  have l0: "store_le p q" using s1 l6 store_le_trans by blast
  have "canonicalFields h q g" using s1 l6 canonicalFields_mono by blast
  moreover have "case tls of None \<Rightarrow> True | Some ts \<Rightarrow> canonicalEvents h q ts"
    using s2 l7 canonicalEvents_mono by (auto split: option.splits)
  moreover have "case cls of None \<Rightarrow> True | Some cs \<Rightarrow> canonicalCommits h q cs"
    using s3 by (auto split: option.splits)
  ultimately show ?thesis using s3 l0 by (simp add: i' canonicalIssue_def)
qed

lemma internIssue_id: "canonicalIssue h p i \<Longrightarrow> internIssue h p i = Inr (p, i)"
  by (auto simp: canonicalIssue_def internIssue_def internIssueFields_id internTimeline_def
      internCommitList_def internEvents_id internCommits_id split: option.splits)

text \<open>The references embedded in an issue, in the order \<^verbatim>\<open>internIssue\<close> visits them.\<close>

fun eventUserRefs :: "(ptr, ptr) github_Timeline option list \<Rightarrow> ptr list" where
  "eventUserRefs [] = []"
| "eventUserRefs (None # ts) = eventUserRefs ts"
| "eventUserRefs (Some t # ts) = Actor t # Timeline_Assignee t # eventUserRefs ts"

fun eventMilestoneRefs :: "(ptr, ptr) github_Timeline option list \<Rightarrow> ptr list" where
  "eventMilestoneRefs [] = []"
| "eventMilestoneRefs (None # ts) = eventMilestoneRefs ts"
| "eventMilestoneRefs (Some t # ts) = Timeline_Milestone t # eventMilestoneRefs ts"

fun commitUserRefs :: "ptr github_RepositoryCommit option list \<Rightarrow> ptr list" where
  "commitUserRefs [] = []"
| "commitUserRefs (None # cs) = commitUserRefs cs"
| "commitUserRefs (Some c # cs) = Author c # Committer c # commitUserRefs cs"

definition userRefs :: "Issue \<Rightarrow> ptr list" where
  "userRefs i =
     [User (Issue i), Assignee (Issue i), ClosedBy (Issue i)] @ Assignees (Issue i) @
     (case Timeline i of None \<Rightarrow> [] | Some ts \<Rightarrow> eventUserRefs ts) @
     (case Commits i of None \<Rightarrow> [] | Some cs \<Rightarrow> commitUserRefs cs)"

definition milestoneRefs :: "Issue \<Rightarrow> ptr list" where
  "milestoneRefs i =
     Milestone (Issue i) # (case Timeline i of None \<Rightarrow> [] | Some ts \<Rightarrow> eventMilestoneRefs ts)"

definition repoRefs :: "Issue \<Rightarrow> ptr list" where
  "repoRefs i = [Repository (Issue i)]"

definition sameUser :: "heap \<Rightarrow> ptr \<Rightarrow> ptr \<Rightarrow> bool" where
  "sameUser h u v \<longleftrightarrow> User_GetID h u \<noteq> 0 \<and> User_GetID h u = User_GetID h v"

definition sameMilestone :: "heap \<Rightarrow> ptr \<Rightarrow> ptr \<Rightarrow> bool" where
  "sameMilestone h u v \<longleftrightarrow> Milestone_GetID h u \<noteq> 0 \<and> Milestone_GetID h u = Milestone_GetID h v"

definition sameRepo :: "heap \<Rightarrow> ptr \<Rightarrow> ptr \<Rightarrow> bool" where
  "sameRepo h u v \<longleftrightarrow> Repository_GetID h u \<noteq> 0 \<and> Repository_GetID h u = Repository_GetID h v"

lemma eventUserRefs_canon:
  "canonicalEvents h p ts \<Longrightarrow> list_all (canonicalUser h p) (eventUserRefs ts)"
  by (induction ts rule: eventUserRefs.induct) (auto simp: canonicalEvents_def canonicalEvent_def)

lemma eventMilestoneRefs_canon:
  "canonicalEvents h p ts \<Longrightarrow> list_all (canonicalMilestone h p) (eventMilestoneRefs ts)"
  by (induction ts rule: eventMilestoneRefs.induct) (auto simp: canonicalEvents_def canonicalEvent_def)

lemma commitUserRefs_canon:
  "canonicalCommits h p cs \<Longrightarrow> list_all (canonicalUser h p) (commitUserRefs cs)"
  by (induction cs rule: commitUserRefs.induct) (auto simp: canonicalCommits_def canonicalCommit_def)

lemma userRefs_canon: "canonicalIssue h p i \<Longrightarrow> list_all (canonicalUser h p) (userRefs i)"
  by (auto simp: canonicalIssue_def canonicalFields_def userRefs_def
      eventUserRefs_canon commitUserRefs_canon split: option.splits)

lemma milestoneRefs_canon:
  "canonicalIssue h p i \<Longrightarrow> list_all (canonicalMilestone h p) (milestoneRefs i)"
  by (auto simp: canonicalIssue_def canonicalFields_def milestoneRefs_def
      eventMilestoneRefs_canon split: option.splits)

lemma repoRefs_canon: "canonicalIssue h p i \<Longrightarrow> list_all (canonicalRepo h p) (repoRefs i)"
  by (simp add: canonicalIssue_def canonicalFields_def repoRefs_def)

lemma canonicalUser_same:
  "canonicalUser h p u \<Longrightarrow> canonicalUser h p v \<Longrightarrow> sameUser h u v \<Longrightarrow> u = v"
  by (auto simp: canonicalUser_def sameUser_def)

lemma canonicalMilestone_same:
  "canonicalMilestone h p u \<Longrightarrow> canonicalMilestone h p v \<Longrightarrow> sameMilestone h u v \<Longrightarrow> u = v"
  by (auto simp: canonicalMilestone_def sameMilestone_def)

lemma canonicalRepo_same:
  "canonicalRepo h p u \<Longrightarrow> canonicalRepo h p v \<Longrightarrow> sameRepo h u v \<Longrightarrow> u = v"
  by (auto simp: canonicalRepo_def sameRepo_def)

lemma internUser_cases:
  "internUser h p u = (q, v) \<Longrightarrow>
     (User_GetID h u = 0 \<and> q = p \<and> v = u) \<or>
     (User_GetID h u \<noteq> 0 \<and> users p (User_GetID h u) \<noteq> None \<and> q = p \<and>
        v = users p (User_GetID h u)) \<or>
     (User_GetID h u \<noteq> 0 \<and> users p (User_GetID h u) = None \<and>
        q = p\<lparr>users := (users p)(User_GetID h u := u)\<rparr> \<and> v = u)"
  by (auto simp: internUser_def Let_def split: option.splits if_splits)

lemma internMilestone_cases:
  "internMilestone h p u = (q, v) \<Longrightarrow>
     (Milestone_GetID h u = 0 \<and> q = p \<and> v = u) \<or>
     (Milestone_GetID h u \<noteq> 0 \<and> milestones p (Milestone_GetID h u) \<noteq> None \<and> q = p \<and>
        v = milestones p (Milestone_GetID h u)) \<or>
     (Milestone_GetID h u \<noteq> 0 \<and> milestones p (Milestone_GetID h u) = None \<and>
        q = p\<lparr>milestones := (milestones p)(Milestone_GetID h u := u)\<rparr> \<and> v = u)"
  by (auto simp: internMilestone_def Let_def split: option.splits if_splits)

lemma internRepo_cases:
  "internRepo h p u = (q, v) \<Longrightarrow>
     (Repository_GetID h u = 0 \<and> q = p \<and> v = u) \<or>
     (Repository_GetID h u \<noteq> 0 \<and> repos p (Repository_GetID h u) \<noteq> None \<and> q = p \<and>
        v = repos p (Repository_GetID h u)) \<or>
     (Repository_GetID h u \<noteq> 0 \<and> repos p (Repository_GetID h u) = None \<and>
        q = p\<lparr>repos := (repos p)(Repository_GetID h u := u)\<rparr> \<and> v = u)"
  by (auto simp: internRepo_def Let_def split: option.splits if_splits)

subsection \<open>An example\<close>

definition heap0 :: heap where
  "heap0 = \<lparr>user_at = (\<lambda>a. \<lparr>User_ID = None, Login = None\<rparr>)
               (10 := \<lparr>User_ID = Some 7, Login = Some ''ann''\<rparr>,
                11 := \<lparr>User_ID = Some 7, Login = Some ''ann''\<rparr>,
                12 := \<lparr>User_ID = Some 9, Login = Some ''bob''\<rparr>),
             milestone_at = (\<lambda>a. \<lparr>Milestone_ID = None, Milestone_Title = None\<rparr>)
               (20 := \<lparr>Milestone_ID = Some 3, Milestone_Title = Some ''1.0''\<rparr>,
                21 := \<lparr>Milestone_ID = Some 3, Milestone_Title = Some ''1.0''\<rparr>),
             repository_at = (\<lambda>a. \<lparr>Repository_ID = None, FullName = None\<rparr>),
             brk = 30\<rparr>"

definition project0 :: Project where
  "project0 = \<lparr>Owner = ''cockroachdb'', Repo = ''cockroach'', RefreshedAt = 0,
                issues = Map.empty, users = (\<lambda>k. None), milestones = (\<lambda>k. None),
                repos = (\<lambda>k. None)\<rparr>"

definition issue0 :: Issue where
  "issue0 = \<lparr>Issue = \<lparr>Number = Some 42, Title = Some ''a bug'', User = Some 10,
                Assignee = Some 11, ClosedBy = None, Assignees = [Some 11, Some 12],
                Milestone = Some 20, Repository = None, PullRequestLinks = None,
                ClosedAt = None, CreatedAt = Some 5\<rparr>,
              Timeline = Some [Some \<lparr>Event = Some ''assigned'', Actor = Some 11,
                Timeline_Assignee = Some 12, Timeline_Milestone = Some 21\<rparr>],
              Commits = Some [Some \<lparr>SHA = Some ''abc'', Author = Some 11, Committer = None\<rparr>]\<rparr>"

definition issue1 :: Issue where
  "issue1 = \<lparr>Issue = \<lparr>Number = Some 42, Title = Some ''a bug'', User = Some 10,
                Assignee = Some 10, ClosedBy = None, Assignees = [Some 10, Some 12],
                Milestone = Some 20, Repository = None, PullRequestLinks = None,
                ClosedAt = None, CreatedAt = Some 5\<rparr>,
              Timeline = Some [Some \<lparr>Event = Some ''assigned'', Actor = Some 10,
                Timeline_Assignee = Some 12, Timeline_Milestone = Some 20\<rparr>],
              Commits = Some [Some \<lparr>SHA = Some ''abc'', Author = Some 10, Committer = None\<rparr>]\<rparr>"

definition project1 :: Project where
  "project1 = project0\<lparr>users := (\<lambda>k. None)(7 := Some 10, 9 := Some 12),
                        milestones := (\<lambda>k. None)(3 := Some 20)\<rparr>"

lemma store_ok_project0: "store_ok heap0 project0"
  by (simp add: store_ok_def project0_def)

lemma GetID_heap0:
  "User_GetID heap0 (Some 10) = 7" "User_GetID heap0 (Some 11) = 7" "User_GetID heap0 (Some 12) = 9"
  "User_GetID heap0 None = 0"
  "Milestone_GetID heap0 (Some 20) = 3" "Milestone_GetID heap0 (Some 21) = 3"
  "Repository_GetID heap0 None = 0"
  by (simp_all add: User_GetID_def Milestone_GetID_def Repository_GetID_def heap0_def)

lemma internIssue_issue0: "internIssue heap0 project0 issue0 = Inr (project1, issue1)"
  by (simp add: internIssue_def internIssueFields_def internTimeline_def internCommitList_def
      internEvent_def internCommit_def internUser_def internMilestone_def internRepo_def
      GetID_heap0 Let_def issue0_def issue1_def project0_def project1_def)

lemma shared_users:
  "list_all (canonicalUser h q) us \<Longrightarrow>
     \<forall>u \<in> set us. \<forall>v \<in> set us. sameUser h u v \<longrightarrow> u = v \<and> users q (User_GetID h u) = u"
  unfolding list_all_iff canonicalUser_def sameUser_def by metis

lemma shared_milestones:
  "list_all (canonicalMilestone h q) ms \<Longrightarrow>
     \<forall>u \<in> set ms. \<forall>v \<in> set ms.
       sameMilestone h u v \<longrightarrow> u = v \<and> milestones q (Milestone_GetID h u) = u"
  unfolding list_all_iff canonicalMilestone_def sameMilestone_def by metis

lemma shared_repos:
  "list_all (canonicalRepo h q) rs \<Longrightarrow>
     \<forall>u \<in> set rs. \<forall>v \<in> set rs. sameRepo h u v \<longrightarrow> u = v \<and> repos q (Repository_GetID h u) = u"
  unfolding list_all_iff canonicalRepo_def sameRepo_def by metis

text \<open>
  C1 (interning invariant). From a well-formed store, each of \<^verbatim>\<open>internUser\<close>,
  \<^verbatim>\<open>internMilestone\<close> and \<^verbatim>\<open>internRepo\<close> does exactly one of three things: it leaves a
  reference whose ID is zero or unset untouched; it rewrites the reference to the instance
  the store already holds for the ID; or it registers the given instance for the ID. The
  store stays well formed, no canonical instance is ever replaced, and the reference ends
  up canonical. After \<^verbatim>\<open>internIssue\<close>, the references of the issue, together with those of any
  issue interned before, that carry the same nonzero ID are one and the same pointer: the
  instance the store holds for that ID.
\<close>
theorem interning_invariant:
  assumes "store_ok h p"
  shows
    "(\<forall>u q v. internUser h p u = (q, v) \<longrightarrow>
        ((User_GetID h u = 0 \<and> q = p \<and> v = u) \<or>
         (User_GetID h u \<noteq> 0 \<and> users p (User_GetID h u) \<noteq> None \<and> q = p \<and>
            v = users p (User_GetID h u)) \<or>
         (User_GetID h u \<noteq> 0 \<and> users p (User_GetID h u) = None \<and>
            q = p\<lparr>users := (users p)(User_GetID h u := u)\<rparr> \<and> v = u)) \<and>
        store_ok h q \<and> store_le p q \<and> canonicalUser h q v) \<and>
     (\<forall>m q v. internMilestone h p m = (q, v) \<longrightarrow>
        ((Milestone_GetID h m = 0 \<and> q = p \<and> v = m) \<or>
         (Milestone_GetID h m \<noteq> 0 \<and> milestones p (Milestone_GetID h m) \<noteq> None \<and> q = p \<and>
            v = milestones p (Milestone_GetID h m)) \<or>
         (Milestone_GetID h m \<noteq> 0 \<and> milestones p (Milestone_GetID h m) = None \<and>
            q = p\<lparr>milestones := (milestones p)(Milestone_GetID h m := m)\<rparr> \<and> v = m)) \<and>
        store_ok h q \<and> store_le p q \<and> canonicalMilestone h q v) \<and>
     (\<forall>r q v. internRepo h p r = (q, v) \<longrightarrow>
        ((Repository_GetID h r = 0 \<and> q = p \<and> v = r) \<or>
         (Repository_GetID h r \<noteq> 0 \<and> repos p (Repository_GetID h r) \<noteq> None \<and> q = p \<and>
            v = repos p (Repository_GetID h r)) \<or>
         (Repository_GetID h r \<noteq> 0 \<and> repos p (Repository_GetID h r) = None \<and>
            q = p\<lparr>repos := (repos p)(Repository_GetID h r := r)\<rparr> \<and> v = r)) \<and>
        store_ok h q \<and> store_le p q \<and> canonicalRepo h q v) \<and>
     (\<forall>i q i'. internIssue h p i = Inr (q, i') \<longrightarrow>
        store_ok h q \<and> store_le p q \<and> canonicalIssue h q i' \<and>
        (\<forall>j. canonicalIssue h p j \<longrightarrow>
           canonicalIssue h q j \<and>
           (\<forall>u \<in> set (userRefs j @ userRefs i'). \<forall>v \<in> set (userRefs j @ userRefs i').
              sameUser h u v \<longrightarrow> u = v \<and> users q (User_GetID h u) = u) \<and>
           (\<forall>u \<in> set (milestoneRefs j @ milestoneRefs i').
            \<forall>v \<in> set (milestoneRefs j @ milestoneRefs i').
              sameMilestone h u v \<longrightarrow> u = v \<and> milestones q (Milestone_GetID h u) = u) \<and>
           (\<forall>u \<in> set (repoRefs j @ repoRefs i'). \<forall>v \<in> set (repoRefs j @ repoRefs i').
              sameRepo h u v \<longrightarrow> u = v \<and> repos q (Repository_GetID h u) = u)))"
proof -
  have users: "\<forall>u q v. internUser h p u = (q, v) \<longrightarrow>
        ((User_GetID h u = 0 \<and> q = p \<and> v = u) \<or>
         (User_GetID h u \<noteq> 0 \<and> users p (User_GetID h u) \<noteq> None \<and> q = p \<and>
            v = users p (User_GetID h u)) \<or>
         (User_GetID h u \<noteq> 0 \<and> users p (User_GetID h u) = None \<and>
            q = p\<lparr>users := (users p)(User_GetID h u := u)\<rparr> \<and> v = u)) \<and>
        store_ok h q \<and> store_le p q \<and> canonicalUser h q v"
    using internUser_cases internUser_step [OF assms] by blast
  have milestones: "\<forall>m q v. internMilestone h p m = (q, v) \<longrightarrow>
        ((Milestone_GetID h m = 0 \<and> q = p \<and> v = m) \<or>
         (Milestone_GetID h m \<noteq> 0 \<and> milestones p (Milestone_GetID h m) \<noteq> None \<and> q = p \<and>
            v = milestones p (Milestone_GetID h m)) \<or>
         (Milestone_GetID h m \<noteq> 0 \<and> milestones p (Milestone_GetID h m) = None \<and>
            q = p\<lparr>milestones := (milestones p)(Milestone_GetID h m := m)\<rparr> \<and> v = m)) \<and>
        store_ok h q \<and> store_le p q \<and> canonicalMilestone h q v"
    using internMilestone_cases internMilestone_step [OF assms] by blast
  have repos: "\<forall>r q v. internRepo h p r = (q, v) \<longrightarrow>
        ((Repository_GetID h r = 0 \<and> q = p \<and> v = r) \<or>
         (Repository_GetID h r \<noteq> 0 \<and> repos p (Repository_GetID h r) \<noteq> None \<and> q = p \<and>
            v = repos p (Repository_GetID h r)) \<or>
         (Repository_GetID h r \<noteq> 0 \<and> repos p (Repository_GetID h r) = None \<and>
            q = p\<lparr>repos := (repos p)(Repository_GetID h r := r)\<rparr> \<and> v = r)) \<and>
        store_ok h q \<and> store_le p q \<and> canonicalRepo h q v"
    using internRepo_cases internRepo_step [OF assms] by blast
  have issue: "store_ok h q \<and> store_le p q \<and> canonicalIssue h q i' \<and>
        (\<forall>j. canonicalIssue h p j \<longrightarrow>
           canonicalIssue h q j \<and>
           (\<forall>u \<in> set (userRefs j @ userRefs i'). \<forall>v \<in> set (userRefs j @ userRefs i').
              sameUser h u v \<longrightarrow> u = v \<and> users q (User_GetID h u) = u) \<and>
           (\<forall>u \<in> set (milestoneRefs j @ milestoneRefs i').
            \<forall>v \<in> set (milestoneRefs j @ milestoneRefs i').
              sameMilestone h u v \<longrightarrow> u = v \<and> milestones q (Milestone_GetID h u) = u) \<and>
           (\<forall>u \<in> set (repoRefs j @ repoRefs i'). \<forall>v \<in> set (repoRefs j @ repoRefs i').
              sameRepo h u v \<longrightarrow> u = v \<and> repos q (Repository_GetID h u) = u))"
    if run: "internIssue h p i = Inr (q, i')" for i q i'
  proof -
    note s = internIssue_step [OF assms run]
    have "canonicalIssue h q j \<and>
           (\<forall>u \<in> set (userRefs j @ userRefs i'). \<forall>v \<in> set (userRefs j @ userRefs i').
              sameUser h u v \<longrightarrow> u = v \<and> users q (User_GetID h u) = u) \<and>
           (\<forall>u \<in> set (milestoneRefs j @ milestoneRefs i').
            \<forall>v \<in> set (milestoneRefs j @ milestoneRefs i').
              sameMilestone h u v \<longrightarrow> u = v \<and> milestones q (Milestone_GetID h u) = u) \<and>
           (\<forall>u \<in> set (repoRefs j @ repoRefs i'). \<forall>v \<in> set (repoRefs j @ repoRefs i').
              sameRepo h u v \<longrightarrow> u = v \<and> repos q (Repository_GetID h u) = u)"
      if j: "canonicalIssue h p j" for j
    proof -
      have cj: "canonicalIssue h q j" using j s canonicalIssue_mono by blast
      have us: "list_all (canonicalUser h q) (userRefs j @ userRefs i')"
        using userRefs_canon [OF cj] userRefs_canon s by simp
      have ms: "list_all (canonicalMilestone h q) (milestoneRefs j @ milestoneRefs i')"
        using milestoneRefs_canon [OF cj] milestoneRefs_canon s by simp
      have rs: "list_all (canonicalRepo h q) (repoRefs j @ repoRefs i')"
        using repoRefs_canon [OF cj] repoRefs_canon s by simp
      show ?thesis
        using cj shared_users [OF us] shared_milestones [OF ms] shared_repos [OF rs] by blast
    qed
    then show ?thesis using s by blast
  qed
  show ?thesis using users milestones repos issue by blast
qed

text \<open>
  C2 (interning idempotence). When \<^verbatim>\<open>internIssue\<close> has returned from a well-formed store,
  applying it again to the resulting project and issue returns exactly the same project and
  the same issue: no map of the store and no reference embedded in the issue changes. Every
  reference of the issue with a nonzero ID is the one instance the store holds for that ID.
\<close>
theorem internIssue_idempotent:
  assumes "store_ok h p" and "internIssue h p i = Inr (q, i')"
  shows "internIssue h q i' = Inr (q, i') \<and>
         list_all (\<lambda>u. User_GetID h u = 0 \<or> users q (User_GetID h u) = u) (userRefs i') \<and>
         list_all (\<lambda>m. Milestone_GetID h m = 0 \<or> milestones q (Milestone_GetID h m) = m)
           (milestoneRefs i') \<and>
         list_all (\<lambda>r. Repository_GetID h r = 0 \<or> repos q (Repository_GetID h r) = r)
           (repoRefs i')"
proof -
  have c: "canonicalIssue h q i'" using internIssue_step [OF assms] by simp
  show ?thesis
    using internIssue_id [OF c] userRefs_canon [OF c] milestoneRefs_canon [OF c]
      repoRefs_canon [OF c]
    by (simp add: canonicalUser_def [abs_def] canonicalMilestone_def [abs_def]
        canonicalRepo_def [abs_def])
qed

theorem internIssue_idempotent_witness:
  "store_ok heap0 project0 \<and> internIssue heap0 project0 issue0 = Inr (project1, issue1) \<and>
   internIssue heap0 project1 issue1 = Inr (project1, issue1) \<and>
   users project1 7 = Some 10 \<and> User (Issue issue1) = Some 10 \<and> Assignee (Issue issue1) = Some 10"
  using internIssue_idempotent [OF store_ok_project0 internIssue_issue0]
    store_ok_project0 internIssue_issue0
  by (simp add: project1_def issue1_def)

theorem interning_invariant_witness:
  "store_ok heap0 project0 \<and> internIssue heap0 project0 issue0 = Inr (project1, issue1) \<and>
   store_ok heap0 project1 \<and> canonicalIssue heap0 project1 issue1 \<and>
   sameUser heap0 (Some 10) (Some 11) \<and> User (Issue issue0) = Some 10 \<and>
   Assignee (Issue issue0) = Some 11 \<and> User (Issue issue1) = Assignee (Issue issue1)"
  using interning_invariant [OF store_ok_project0] store_ok_project0 internIssue_issue0
  by (simp add: issue0_def issue1_def sameUser_def GetID_heap0)

section \<open>Properties of the age statistic\<close>

definition issue42 :: Issue where
  "issue42 = \<lparr>Issue = \<lparr>Number = Some 42, Title = Some ''a bug'', User = None,
                Assignee = None, ClosedBy = None, Assignees = [],
                Milestone = None, Repository = None, PullRequestLinks = None,
                ClosedAt = None, CreatedAt = Some 1000\<rparr>,
              Timeline = None, Commits = None\<rparr>"

definition pr43 :: Issue where
  "pr43 = \<lparr>Issue = \<lparr>Number = Some 43, Title = Some ''a fix'', User = None,
                Assignee = None, ClosedBy = None, Assignees = [],
                Milestone = None, Repository = None,
                PullRequestLinks = Some ''https://github.com/cockroachdb/cockroach/pull/43'',
                ClosedAt = Some (1000 + 36 * Hour), CreatedAt = Some 1000\<rparr>,
              Timeline = None, Commits = None\<rparr>"

lemma go_div_nonneg: "0 \<le> a \<Longrightarrow> 0 < b \<Longrightarrow> go_div a b = a div b"
  by (cases "a = 0") (simp_all add: go_div_def)

lemma Time_Sub_in_range:
  "minDuration \<le> t - u \<Longrightarrow> t - u \<le> maxDuration \<Longrightarrow> Time_Sub t u = t - u"
  by (simp add: Time_Sub_def)

text \<open>
  C9 (closed pull request age), as amended. An issue with no pull-request linkage or with no
  \<^verbatim>\<open>ClosedAt\<close> records no value. A pull request created at \<open>T\<close> and closed at \<open>T\<close> plus 36
  hours records an age of 1 day: the duration is divided by 24 hours with Go's truncating
  integer division, so whole days are rounded down, and a result below 1 is raised to 1.
\<close>
theorem closedAge_scenario:
  "(PullRequestLinks (Issue i) = None \<or> ClosedAt (Issue i) = None \<longrightarrow> closedAge i = Inr None) \<and>
   (PullRequestLinks (Issue i) \<noteq> None \<and> CreatedAt (Issue i) = Some T \<and>
    ClosedAt (Issue i) = Some (T + 36 * Hour) \<longrightarrow> closedAge i = Inr (Some 1)) \<and>
   (PullRequestLinks (Issue i) \<noteq> None \<and> CreatedAt (Issue i) = Some c \<and>
    ClosedAt (Issue i) = Some d \<and> 0 \<le> d - c \<and> d - c \<le> maxDuration \<longrightarrow>
      closedAge i = Inr (Some (max 1 ((d - c) div (24 * Hour)))))"
proof (intro conjI impI)
  assume "PullRequestLinks (Issue i) = None \<or> ClosedAt (Issue i) = None"
  then show "closedAge i = Inr None" by (auto simp: closedAge_def)
next
  assume a: "PullRequestLinks (Issue i) \<noteq> None \<and> CreatedAt (Issue i) = Some T \<and>
    ClosedAt (Issue i) = Some (T + 36 * Hour)"
  have "Time_Sub (T + 36 * Hour) T = 36 * Hour"
    by (simp add: Time_Sub_def Hour_def minDuration_def maxDuration_def)
  moreover have "go_div (36 * Hour) (24 * Hour) = 1"
    by (simp add: go_div_def Hour_def)
  ultimately show "closedAge i = Inr (Some 1)" using a by (simp add: closedAge_def)
next
  assume a: "PullRequestLinks (Issue i) \<noteq> None \<and> CreatedAt (Issue i) = Some c \<and>
    ClosedAt (Issue i) = Some d \<and> 0 \<le> d - c \<and> d - c \<le> maxDuration"
  then have "Time_Sub d c = d - c"
    by (intro Time_Sub_in_range) (simp_all add: minDuration_def)
  moreover have "go_div (d - c) (24 * Hour) = (d - c) div (24 * Hour)"
    using a by (intro go_div_nonneg) (simp_all add: Hour_def)
  ultimately show "closedAge i = Inr (Some (max 1 ((d - c) div (24 * Hour))))"
    using a by (auto simp: closedAge_def max_def)
qed

theorem closedAge_scenario_witness:
  "closedAge issue42 = Inr None \<and> closedAge pr43 = Inr (Some 1) \<and>
   recordedAges [issue42, pr43] = Inr [1]"
proof -
  have 1: "closedAge issue42 = Inr None"
    using closedAge_scenario [of issue42] by (simp add: issue42_def)
  have 2: "closedAge pr43 = Inr (Some 1)"
    using closedAge_scenario [of pr43 1000] by (simp add: pr43_def)
  show ?thesis by (simp add: 1 2)
qed

text \<open>
  The 36 hour pull request does not record the 2 days that rounding up would give.
\<close>

theorem closedAge_36h_counterexample:
  "PullRequestLinks (Issue pr43) \<noteq> None \<and> CreatedAt (Issue pr43) = Some 1000 \<and>
   ClosedAt (Issue pr43) = Some (1000 + 36 * Hour) \<and> closedAge pr43 \<noteq> Inr (Some 2)"
  by (simp add: pr43_def closedAge_def Time_Sub_def go_div_def Hour_def minDuration_def
      maxDuration_def)

section \<open>Properties of the cache load\<close>

lemma internIssueFields_scalars:
  "internIssueFields h p g = (q, g') \<Longrightarrow>
     Number g' = Number g \<and> Title g' = Title g \<and> PullRequestLinks g' = PullRequestLinks g \<and>
     ClosedAt g' = ClosedAt g \<and> CreatedAt g' = CreatedAt g"
  by (auto simp: internIssueFields_def Let_def split: prod.splits)

lemma internEvents_error: "internEvents h p ts = Inl e \<Longrightarrow> e = NilDereference"
  by (induction h p ts rule: internEvents.induct) (auto split: prod.splits sum.splits)

lemma internCommits_error: "internCommits h p cs = Inl e \<Longrightarrow> e = NilDereference"
  by (induction h p cs rule: internCommits.induct) (auto split: prod.splits sum.splits)

lemma internIssue_error: "internIssue h p i = Inl e \<Longrightarrow> e = NilDereference"
  by (auto simp: internIssue_def internTimeline_def internCommitList_def
      split: prod.splits sum.splits option.splits
      dest: internEvents_error internCommits_error)

lemma internIssue_Number:
  "internIssue h p i = Inr (q, i') \<Longrightarrow> Number (Issue i') = Number (Issue i)"
  by (auto simp: internIssue_def split: prod.splits sum.splits dest: internIssueFields_scalars)

lemma decodeFields_Number: "decodeFields h d = (h', g) \<Longrightarrow> Number g = Number d"
  by (auto simp: decodeFields_def Let_def split: prod.splits)

lemma decodeIssue_Number: "decodeIssue h d = (h', i) \<Longrightarrow> Number (Issue i) = Number (Issue d)"
  by (auto simp: decodeIssue_def Let_def split: prod.splits dest: decodeFields_Number)






















lemma internUser_le': "internUser h p u = (q, v) \<Longrightarrow> store_le p q"
  using internUser_le [of p h u] by simp

lemma internMilestone_le': "internMilestone h p u = (q, v) \<Longrightarrow> store_le p q"
  using internMilestone_le [of p h u] by simp

lemma internRepo_le': "internRepo h p u = (q, v) \<Longrightarrow> store_le p q"
  using internRepo_le [of p h u] by simp

lemma internAssignees_le: "internAssignees h p us = (q, us') \<Longrightarrow> store_le p q"
proof (induction us arbitrary: p q us')
  case Nil
  then show ?case by (simp add: store_le_refl)
next
  case (Cons u us)
  obtain p1 u1 where 1: "internUser h p u = (p1, u1)" by fastforce
  obtain p2 us2 where 2: "internAssignees h p1 us = (p2, us2)" by fastforce
  have "q = p2" using Cons.prems by (simp add: 1 2)
  then show ?case using internUser_le' [OF 1] Cons.IH [OF 2] store_le_trans by blast
qed

lemma internEvent_le: "internEvent h p t = (q, t') \<Longrightarrow> store_le p q"
proof -
  assume a: "internEvent h p t = (q, t')"
  obtain p1 a where 1: "internUser h p (Actor t) = (p1, a)" by fastforce
  obtain p2 b where 2: "internUser h p1 (Timeline_Assignee t) = (p2, b)" by fastforce
  obtain p3 m where 3: "internMilestone h p2 (Timeline_Milestone t) = (p3, m)" by fastforce
  have "q = p3" using a by (simp add: internEvent_def 1 2 3)
  then show ?thesis
    using internUser_le' [OF 1] internUser_le' [OF 2] internMilestone_le' [OF 3] store_le_trans
    by blast
qed

lemma internCommit_le: "internCommit h p c = (q, c') \<Longrightarrow> store_le p q"
proof -
  assume a: "internCommit h p c = (q, c')"
  obtain p1 a where 1: "internUser h p (Author c) = (p1, a)" by fastforce
  obtain p2 b where 2: "internUser h p1 (Committer c) = (p2, b)" by fastforce
  have "q = p2" using a by (simp add: internCommit_def 1 2)
  then show ?thesis
    using internUser_le' [OF 1] internUser_le' [OF 2] store_le_trans by blast
qed

lemma internEvents_le: "internEvents h p ts = Inr (q, ts') \<Longrightarrow> store_le p q"
proof (induction ts arbitrary: p ts')
  case Nil
  then show ?case by (simp add: store_le_refl)
next
  case (Cons x ts)
  then obtain t where x: "x = Some t" by (cases x) auto
  obtain p1 t1 where 1: "internEvent h p t = (p1, t1)" by fastforce
  from Cons.prems obtain ts2 where 2: "internEvents h p1 ts = Inr (q, ts2)"
    by (auto simp: x 1 split: sum.splits)
  show ?case using internEvent_le [OF 1] Cons.IH [OF 2] store_le_trans by blast
qed

lemma internCommits_le: "internCommits h p cs = Inr (q, cs') \<Longrightarrow> store_le p q"
proof (induction cs arbitrary: p cs')
  case Nil
  then show ?case by (simp add: store_le_refl)
next
  case (Cons x cs)
  then obtain c where x: "x = Some c" by (cases x) auto
  obtain p1 c1 where 1: "internCommit h p c = (p1, c1)" by fastforce
  from Cons.prems obtain cs2 where 2: "internCommits h p1 cs = Inr (q, cs2)"
    by (auto simp: x 1 split: sum.splits)
  show ?case using internCommit_le [OF 1] Cons.IH [OF 2] store_le_trans by blast
qed

lemma internIssueFields_le: "internIssueFields h p g = (q, g') \<Longrightarrow> store_le p q"
proof -
  assume a: "internIssueFields h p g = (q, g')"
  obtain p1 u where 1: "internUser h p (User g) = (p1, u)" by fastforce
  obtain p2 a where 2: "internUser h p1 (Assignee g) = (p2, a)" by fastforce
  obtain p3 c where 3: "internUser h p2 (ClosedBy g) = (p3, c)" by fastforce
  obtain p4 asg where 4: "internAssignees h p3 (Assignees g) = (p4, asg)" by fastforce
  obtain p5 m where 5: "internMilestone h p4 (Milestone g) = (p5, m)" by fastforce
  obtain p6 r where 6: "internRepo h p5 (Repository g) = (p6, r)" by fastforce
  have q: "q = p6" using a by (simp add: internIssueFields_def 1 2 3 4 5 6)
  have "store_le p p2" using internUser_le' [OF 1] internUser_le' [OF 2] store_le_trans by blast
  then have "store_le p p4"
    using internUser_le' [OF 3] internAssignees_le [OF 4] store_le_trans by blast
  then show ?thesis
    using internMilestone_le' [OF 5] internRepo_le' [OF 6] store_le_trans q by blast
qed

lemma internIssue_le: "internIssue h p i = Inr (q, i') \<Longrightarrow> store_le p q"
proof -
  assume a: "internIssue h p i = Inr (q, i')"
  obtain p6 g where 1: "internIssueFields h p (Issue i) = (p6, g)" by fastforce
  from a obtain p7 tls where 2: "internTimeline h p6 (Timeline i) = Inr (p7, tls)"
    by (auto simp: internIssue_def 1 split: sum.splits)
  from a obtain cls where 3: "internCommitList h p7 (Commits i) = Inr (q, cls)"
    by (auto simp: internIssue_def 1 2 split: sum.splits)
  have "store_le p6 p7" using 2 internEvents_le
    by (auto simp: internTimeline_def store_le_refl split: option.splits sum.splits)
  moreover have "store_le p7 q" using 3 internCommits_le
    by (auto simp: internCommitList_def store_le_refl split: option.splits sum.splits)
  ultimately show ?thesis using internIssueFields_le [OF 1] store_le_trans by blast
qed

lemma internIssue_issues: "internIssue h p i = Inr (q, i') \<Longrightarrow> issues q = issues p"
  using internIssue_le [of h p i q i'] by (simp add: store_le_def)

subsection \<open>An example cache directory\<close>

definition doc7 :: Issue_doc where
  "doc7 = \<lparr>Issue = \<lparr>Number = Some 7, Title = Some ''seven'',
               User = Some \<lparr>User_ID = Some 70, Login = Some ''carol''\<rparr>,
               Assignee = None, ClosedBy = None, Assignees = [], Milestone = None,
               Repository = None, PullRequestLinks = None, ClosedAt = None,
               CreatedAt = Some 5\<rparr>,
            Timeline = None, Commits = None\<rparr>"

definition docNoNumber :: Issue_doc where
  "docNoNumber = \<lparr>Issue = \<lparr>Number = None, Title = Some ''no number'', User = None,
               Assignee = None, ClosedBy = None, Assignees = [], Milestone = None,
               Repository = None, PullRequestLinks = None, ClosedAt = None,
               CreatedAt = None\<rparr>,
            Timeline = None, Commits = None\<rparr>"

text \<open>
  A cache directory with the files \<^verbatim>\<open>-5\<close> and \<^verbatim>\<open>12\<close>, which both hold issue 7, \<^verbatim>\<open>13\<close>,
  which holds an issue without a number, and \<^verbatim>\<open>notes.txt\<close>; there is no \<^verbatim>\<open>meta\<close>. File
  contents are numbers: 1 decodes to \<open>doc7\<close>, 2 to \<open>docNoNumber\<close>, anything else is malformed.
\<close>

definition cacheEnv :: "nat env" where
  "cacheEnv =
     \<lparr>makeClient = (\<lambda>tr. True), now = (\<lambda>tr. 0),
      ListByRepo = (\<lambda>tr ow re since page pp. Error),
      ListCommits = (\<lambda>tr ow re num page pp. Error),
      ListIssueTimeline = (\<lambda>tr ow re num page pp. Error),
      ReadFile = (\<lambda>tr name. if name = ''-5'' \<or> name = ''12'' then Data 1
                     else if name = ''13'' then Data 2
                     else if name = ''notes.txt'' then Data 3 else NotExist),
      ReadDir = (\<lambda>tr. Some [''-5'', ''12'', ''13'', ''notes.txt'']),
      WriteFile = (\<lambda>tr name data. True),
      Marshal_Issue = (\<lambda>d. Some 1),
      Unmarshal_Issue = (\<lambda>b. if b = 1 then Some doc7 else if b = 2 then Some docNoNumber else None),
      Marshal_Project = (\<lambda>m. Some 0),
      Unmarshal_Project = (\<lambda>b m. None)\<rparr>"

definition issue7 :: Issue where
  "issue7 = \<lparr>Issue = \<lparr>Number = Some 7, Title = Some ''seven'', User = Some 30,
               Assignee = None, ClosedBy = None, Assignees = [], Milestone = None,
               Repository = None, PullRequestLinks = None, ClosedAt = None,
               CreatedAt = Some 5\<rparr>,
            Timeline = None, Commits = None\<rparr>"

definition heap7 :: heap where
  "heap7 = heap0\<lparr>user_at := (user_at heap0)(30 := \<lparr>User_ID = Some 70, Login = Some ''carol''\<rparr>),
                 brk := 31\<rparr>"

definition project7 :: Project where
  "project7 = project0\<lparr>users := (\<lambda>k. None)(70 := Some 30), issues := [7 \<mapsto> issue7]\<rparr>"






lemma loadIssue_ok:
  "ReadFile env tr f = Data b \<Longrightarrow> Unmarshal_Issue env b = Some d \<Longrightarrow>
   decodeIssue h d = (h1, i) \<Longrightarrow> internIssue h1 p i = Inr (p1, i1) \<Longrightarrow>
   Number (Issue d) = Some n \<Longrightarrow>
     loadIssue env tr h p f = (Inr (h1, p1\<lparr>issues := (issues p)(n \<mapsto> i1)\<rparr>), tr @ [E_ReadFile f])"
  using internIssue_Number [of h1 p i p1 i1] decodeIssue_Number [of h d h1 i]
    internIssue_issues [of h1 p i p1 i1]
  by (simp add: loadIssue_def loadJSON_def)

lemma loadIssue_no_number:
  assumes "ReadFile env tr f = Data b" "Unmarshal_Issue env b = Some d"
    "Number (Issue d) = None"
  shows "loadIssue env tr h p f = (Inl NilDereference, tr @ [E_ReadFile f])"
proof -
  obtain h1 i where 1: "decodeIssue h d = (h1, i)" by fastforce
  have n: "Number (Issue i) = None" using decodeIssue_Number [OF 1] assms(3) by simp
  show ?thesis
  proof (cases "internIssue h1 p i")
    case (Inl e)
    then show ?thesis
      using internIssue_error [OF Inl] assms by (simp add: loadIssue_def loadJSON_def 1)
  next
    case (Inr r)
    obtain p1 i1 where r: "r = (p1, i1)" by fastforce
    have "Number (Issue i1) = None" using internIssue_Number [of h1 p i p1 i1] Inr r n by simp
    then show ?thesis using assms Inr r by (simp add: loadIssue_def loadJSON_def 1)
  qed
qed

lemma loadFiles_Cons_ok:
  "Atoi f \<noteq> 0 \<and> ReadFile env tr f = Data b \<and> Unmarshal_Issue env b = Some d \<and>
   decodeIssue h d = (h1, i) \<and> internIssue h1 p i = Inr (p1, i1) \<and>
   Number (Issue d) = Some n \<Longrightarrow>
     loadFiles env tr h p (f # fs) =
       loadFiles env (tr @ [E_ReadFile f]) h1 (p1\<lparr>issues := (issues p)(n \<mapsto> i1)\<rparr>) fs"
  using loadIssue_ok [of env tr f b d h h1 i p p1 i1 n] by simp

lemma loadFiles_Cons_no_number:
  "Atoi f \<noteq> 0 \<and> ReadFile env tr f = Data b \<and> Unmarshal_Issue env b = Some d \<and>
   Number (Issue d) = None \<Longrightarrow>
     loadFiles env tr h p (f # fs) = (Inl NilDereference, tr @ [E_ReadFile f])"
  using loadIssue_no_number [of env tr f b d h p] by simp

lemma loaded_Number:
  "decodeIssue h d = (h1, i) \<and> internIssue h1 p i = Inr (p1, i1) \<Longrightarrow>
     Number (Issue i1) = Number (Issue d)"
  using internIssue_Number [of h1 p i p1 i1] decodeIssue_Number [of h d h1 i] by simp


lemma Atoi_examples:
  "Atoi ''notes.txt'' = 0" "Atoi ''-5'' = - 5" "Atoi ''12'' = 12" "Atoi ''13'' = 13"
  by (simp_all add: Atoi_def isDigit_def)




text \<open>
  C10 (keying of loaded issues). A loaded issue is inserted under the \<^verbatim>\<open>Number\<close> found in
  the file's content, whatever the file's name, replacing any issue held under that
  number. When the content decodes but has no \<^verbatim>\<open>Number\<close>, \<^verbatim>\<open>load\<close> ends in a nil
  dereference, not in the fatal-error exit.
\<close>
theorem load_keyed_by_inner_number:
  "(Atoi f \<noteq> 0 \<and> ReadFile env tr f = Data b \<and> Unmarshal_Issue env b = Some d \<and>
    decodeIssue h d = (h1, i) \<and> internIssue h1 p i = Inr (p1, i1) \<and>
    Number (Issue d) = Some n \<longrightarrow>
      Number (Issue i1) = Some n \<and>
      loadFiles env tr h p (f # fs) =
        loadFiles env (tr @ [E_ReadFile f]) h1 (p1\<lparr>issues := (issues p)(n \<mapsto> i1)\<rparr>) fs) \<and>
   (Atoi f \<noteq> 0 \<and> ReadFile env tr f = Data b \<and> Unmarshal_Issue env b = Some d \<and>
    Number (Issue d) = None \<longrightarrow>
      loadFiles env tr h p (f # fs) = (Inl NilDereference, tr @ [E_ReadFile f]))"
proof (intro conjI impI)
  assume a: "Atoi f \<noteq> 0 \<and> ReadFile env tr f = Data b \<and> Unmarshal_Issue env b = Some d \<and>
    decodeIssue h d = (h1, i) \<and> internIssue h1 p i = Inr (p1, i1) \<and> Number (Issue d) = Some n"
  then show "Number (Issue i1) = Some n" using loaded_Number [of h d h1 i p p1 i1] by simp
  from a show "loadFiles env tr h p (f # fs) =
        loadFiles env (tr @ [E_ReadFile f]) h1 (p1\<lparr>issues := (issues p)(n \<mapsto> i1)\<rparr>) fs"
    by (rule loadFiles_Cons_ok)
next
  assume "Atoi f \<noteq> 0 \<and> ReadFile env tr f = Data b \<and> Unmarshal_Issue env b = Some d \<and>
    Number (Issue d) = None"
  then show "loadFiles env tr h p (f # fs) = (Inl NilDereference, tr @ [E_ReadFile f])"
    by (rule loadFiles_Cons_no_number)
qed

definition issue7' :: Issue where
  "issue7' = issue7\<lparr>Issue := (Issue issue7)\<lparr>User := Some 31\<rparr>\<rparr>"

definition heap7' :: heap where
  "heap7' = heap7\<lparr>user_at := (user_at heap7)(31 := \<lparr>User_ID = Some 70, Login = Some ''carol''\<rparr>),
                  brk := 32\<rparr>"

lemma decodeIssue_doc7': "decodeIssue heap7 doc7 = (heap7', issue7')"
  by (simp add: decodeIssue_def decodeFields_def newUser_def newMilestone_def newRepository_def
      doc7_def heap0_def heap7_def heap7'_def issue7_def issue7'_def)

lemma internIssue_issue7': "internIssue heap7' project7 issue7' = Inr (project7, issue7)"
  by (simp add: internIssue_def internIssueFields_def internTimeline_def internCommitList_def
      internUser_def internMilestone_def internRepo_def User_GetID_def Milestone_GetID_def
      Repository_GetID_def heap7'_def heap7_def heap0_def issue7_def issue7'_def project0_def
      project7_def)

theorem load_keyed_by_inner_number_witness:
  "Atoi ''12'' = 12 \<and> issues project7 7 = Some issue7 \<and> issues project7 12 = None \<and>
   loadFiles cacheEnv [E_ReadFile ''-5''] heap7 project7 [''12''] =
     (Inr (heap7', project7), [E_ReadFile ''-5'', E_ReadFile ''12'']) \<and>
   loadFiles cacheEnv [E_ReadFile ''-5''] heap7 project7 [''13''] =
     (Inl NilDereference, [E_ReadFile ''-5'', E_ReadFile ''13''])"
proof -
  have r: "ReadFile cacheEnv [E_ReadFile ''-5''] ''12'' = Data 1"
    "ReadFile cacheEnv [E_ReadFile ''-5''] ''13'' = Data 2"
    "Unmarshal_Issue cacheEnv 1 = Some doc7" "Unmarshal_Issue cacheEnv 2 = Some docNoNumber"
    "Number (Issue doc7) = Some 7" "Number (Issue docNoNumber) = None"
    by (simp_all add: cacheEnv_def doc7_def docNoNumber_def)
  have p: "project7\<lparr>issues := (issues project7)(7 \<mapsto> issue7)\<rparr> = project7"
    by (simp add: project7_def)
  have a: "loadFiles cacheEnv [E_ReadFile ''-5''] heap7 project7 [''12''] =
     (Inr (heap7', project7), [E_ReadFile ''-5'', E_ReadFile ''12''])"
    using load_keyed_by_inner_number [of "''12''" cacheEnv "[E_ReadFile ''-5'']" 1 doc7 heap7
        heap7' issue7' project7 project7 issue7 7 "[]"]
      r Atoi_examples decodeIssue_doc7' internIssue_issue7' by (simp add: p)
  have b: "loadFiles cacheEnv [E_ReadFile ''-5''] heap7 project7 [''13''] =
     (Inl NilDereference, [E_ReadFile ''-5'', E_ReadFile ''13''])"
    using load_keyed_by_inner_number [of "''13''" cacheEnv "[E_ReadFile ''-5'']" 2 docNoNumber
        heap7 _ _ project7 _ _ _ "[]"]
      r Atoi_examples by simp
  show ?thesis using a b Atoi_examples by (simp add: project7_def)
qed

section \<open>Properties of the sync orchestrator\<close>

definition requestIssues :: "Project \<Rightarrow> int \<Rightarrow> 'b event" where
  "requestIssues p page = E_ListByRepo (Owner p) (Repo p) (RefreshedAt p) page perPage"

definition requestCommits :: "Project \<Rightarrow> int \<Rightarrow> int \<Rightarrow> 'b event" where
  "requestCommits p num page = E_ListCommits (Owner p) (Repo p) num page perPage"

definition requestTimeline :: "Project \<Rightarrow> int \<Rightarrow> int \<Rightarrow> 'b event" where
  "requestTimeline p num page = E_ListIssueTimeline (Owner p) (Repo p) num page perPage"

fun listingEvent :: "'b event \<Rightarrow> bool" where
  "listingEvent (E_ListByRepo ow re since page pp) = True"
| "listingEvent (E_Sleep d) = True"
| "listingEvent e = False"

lemma storeIssues_frame:
  "storeIssues p gs = Inr p1 \<Longrightarrow>
     Owner p1 = Owner p \<and> Repo p1 = Repo p \<and> RefreshedAt p1 = RefreshedAt p \<and>
     users p1 = users p \<and> milestones p1 = milestones p \<and> repos p1 = repos p"
  by (induction p gs rule: storeIssues.induct) (auto split: option.splits)

lemma storeIssues_error: "storeIssues p gs = Inl e \<Longrightarrow> e = NilDereference"
  by (induction p gs rule: storeIssues.induct) (auto split: option.splits)

lemma printRange_error: "printRange gs = Inl e \<Longrightarrow> e = NilDereference"
  by (auto simp: printRange_def split: if_splits option.splits)

lemma listIssues_Error:
  "ListByRepo env tr (Owner p) (Repo p) (RefreshedAt p) page perPage = Error \<Longrightarrow>
     listIssues (Suc n) env tr h p page =
       listIssues n env (tr @ [requestIssues p page, E_Sleep (5 * Second)]) h p page"
  by (simp add: requestIssues_def)

lemma listIssues_Response:
  "ListByRepo env tr (Owner p) (Repo p) (RefreshedAt p) page perPage = Response docs next \<Longrightarrow>
   decodePage h docs = (h1, gs) \<Longrightarrow> printRange gs = Inr () \<Longrightarrow> storeIssues p gs = Inr p1 \<Longrightarrow>
     listIssues (Suc n) env tr h p page =
       (if next < page then (Some (Inr (h1, p1)), tr @ [requestIssues p page])
        else listIssues n env (tr @ [requestIssues p page]) h1 p1 next)"
  by (simp add: requestIssues_def)

lemma listIssues_trace:
  "\<exists>evs. snd (listIssues n env tr h p page) = tr @ evs \<and> list_all listingEvent evs"
proof (induction n arbitrary: tr h p page)
  case 0
  then show ?case by simp
next
  case (Suc n)
  let ?req = "E_ListByRepo (Owner p) (Repo p) (RefreshedAt p) page perPage :: 'a event"
  show ?case
  proof (cases "ListByRepo env tr (Owner p) (Repo p) (RefreshedAt p) page perPage")
    case Error
    obtain evs where "snd (listIssues n env (tr @ [?req, E_Sleep (5 * Second)]) h p page) =
        (tr @ [?req, E_Sleep (5 * Second)]) @ evs" and "list_all listingEvent evs"
      using Suc by blast
    then show ?thesis using Error
      by (intro exI [of _ "[?req, E_Sleep (5 * Second)] @ evs"]) simp
  next
    case (Response docs nxt)
    obtain h1 gs where d: "decodePage h docs = (h1, gs)" by fastforce
    show ?thesis
    proof (cases "printRange gs")
      case (Inl e)
      then show ?thesis using Response d by (intro exI [of _ "[?req]"]) simp
    next
      case (Inr u)
      show ?thesis
      proof (cases "storeIssues p gs")
        case (Inl e)
        then show ?thesis using Response d Inr by (intro exI [of _ "[?req]"]) simp
      next
        case p1: (Inr p1)
        show ?thesis
        proof (cases "nxt < page")
          case True
          then show ?thesis using Response d Inr p1 by (intro exI [of _ "[?req]"]) simp
        next
          case False
          obtain evs where "snd (listIssues n env (tr @ [?req]) h1 p1 nxt) = (tr @ [?req]) @ evs"
            and "list_all listingEvent evs"
            using Suc by blast
          then show ?thesis using Response d Inr p1 False
            by (intro exI [of _ "[?req] @ evs"]) simp
        qed
      qed
    qed
  qed
qed

lemma listIssues_first_request:
  "\<exists>rest. snd (listIssues (Suc n) env tr h p page) = tr @ requestIssues p page # rest"
proof -
  let ?req = "E_ListByRepo (Owner p) (Repo p) (RefreshedAt p) page perPage :: 'a event"
  show ?thesis
  proof (cases "ListByRepo env tr (Owner p) (Repo p) (RefreshedAt p) page perPage")
    case Error
    obtain evs where "snd (listIssues n env (tr @ [?req, E_Sleep (5 * Second)]) h p page) =
        (tr @ [?req, E_Sleep (5 * Second)]) @ evs"
      using listIssues_trace by blast
    then show ?thesis using Error by (simp add: requestIssues_def)
  next
    case (Response docs nxt)
    obtain h1 gs where d: "decodePage h docs = (h1, gs)" by fastforce
    have rec: "\<exists>evs. snd (listIssues n env (tr @ [?req]) h1 p1 nxt) = (tr @ [?req]) @ evs" for p1
      using listIssues_trace by blast
    show ?thesis using Response d rec
      by (auto simp: requestIssues_def Let_def split: sum.splits)
  qed
qed

lemma listIssues_never_fatal: "fst (listIssues n env tr h p page) \<noteq> Some (Inl Fatal)"
proof (induction n arbitrary: tr h p page)
  case 0
  then show ?case by simp
next
  case (Suc n)
  show ?case
  proof (cases "ListByRepo env tr (Owner p) (Repo p) (RefreshedAt p) page perPage")
    case Error
    then show ?thesis using Suc by simp
  next
    case (Response docs nxt)
    obtain h1 gs where d: "decodePage h docs = (h1, gs)" by fastforce
    show ?thesis
    proof (cases "printRange gs")
      case (Inl e)
      then show ?thesis using Response d printRange_error [OF Inl] by simp
    next
      case (Inr u)
      show ?thesis
      proof (cases "storeIssues p gs")
        case (Inl e)
        then show ?thesis using Response d Inr storeIssues_error [OF Inl] by simp
      next
        case p1: (Inr p1)
        then show ?thesis using Response d Inr Suc by (simp add: Let_def)
      qed
    qed
  qed
qed

lemma listIssues_always_Error:
  "(\<And>tr'. ListByRepo env tr' (Owner p) (Repo p) (RefreshedAt p) page perPage = Error) \<Longrightarrow>
     listIssues n env tr h p page =
       (None, tr @ concat (replicate n [requestIssues p page, E_Sleep (5 * Second)]))"
  by (induction n arbitrary: tr) (simp_all add: requestIssues_def)

fun commitsRequestFor :: "'b event \<Rightarrow> int option" where
  "commitsRequestFor (E_ListCommits ow re num page pp) = Some num"
| "commitsRequestFor e = None"

fun timelineRequestFor :: "'b event \<Rightarrow> int option" where
  "timelineRequestFor (E_ListIssueTimeline ow re num page pp) = Some num"
| "timelineRequestFor e = None"

fun visitOf :: "'b event \<Rightarrow> int option" where
  "visitOf (E_Visit num) = Some num"
| "visitOf e = None"

fun isWrite :: "'b event \<Rightarrow> bool" where
  "isWrite (E_WriteFile name data) = True"
| "isWrite e = False"

lemma listCommits_Error:
  "ListCommits env tr (Owner p) (Repo p) num page perPage = Error \<Longrightarrow>
     listCommits (Suc n) env tr h p num i page =
       (Some (Inl Fatal), tr @ [requestCommits p num page])"
  by (simp add: requestCommits_def)

lemma listCommits_Response:
  "ListCommits env tr (Owner p) (Repo p) num page perPage = Response docs nxt \<Longrightarrow>
   decodeCommits h docs = (h1, cs) \<Longrightarrow>
     listCommits (Suc n) env tr h p num i page =
       (if nxt < page
        then (Some (Inr (h1, i\<lparr>Commits := append_slice (Commits i) cs\<rparr>)),
              tr @ [requestCommits p num page])
        else listCommits n env (tr @ [requestCommits p num page]) h1 p num
               (i\<lparr>Commits := append_slice (Commits i) cs\<rparr>) nxt)"
  by (simp add: requestCommits_def)

lemma listCommits_trace:
  "\<exists>evs. snd (listCommits n env tr h p num i page) = tr @ evs \<and>
         list_all (\<lambda>e. commitsRequestFor e = Some num \<and> \<not> isWrite e \<and>
                       timelineRequestFor e = None \<and> visitOf e = None) evs"
proof (induction n arbitrary: tr h i page)
  case 0
  then show ?case by simp
next
  case (Suc n)
  let ?req = "E_ListCommits (Owner p) (Repo p) num page perPage :: 'a event"
  show ?case
  proof (cases "ListCommits env tr (Owner p) (Repo p) num page perPage")
    case Error
    then show ?thesis by (intro exI [of _ "[?req]"]) simp
  next
    case (Response docs nxt)
    obtain h1 cs where d: "decodeCommits h docs = (h1, cs)" by fastforce
    show ?thesis
    proof (cases "nxt < page")
      case True
      then show ?thesis using Response d by (intro exI [of _ "[?req]"]) simp
    next
      case False
      obtain evs where
        "snd (listCommits n env (tr @ [?req]) h1 p num
               (i\<lparr>Commits := append_slice (Commits i) cs\<rparr>) nxt) = (tr @ [?req]) @ evs"
        and "list_all (\<lambda>e. commitsRequestFor e = Some num \<and> \<not> isWrite e \<and>
                       timelineRequestFor e = None \<and> visitOf e = None) evs"
        using Suc by blast
      then show ?thesis using Response d False
        by (intro exI [of _ "[?req] @ evs"]) simp
    qed
  qed
qed

lemma listCommits_first_request:
  "\<exists>rest. snd (listCommits (Suc n) env tr h p num i page) = tr @ requestCommits p num page # rest"
proof (cases "ListCommits env tr (Owner p) (Repo p) num page perPage")
  case Error
  then show ?thesis by (simp add: requestCommits_def)
next
  case (Response docs nxt)
  obtain h1 cs where d: "decodeCommits h docs = (h1, cs)" by fastforce
  have "\<exists>evs. snd (listCommits n env (tr @ [requestCommits p num page]) h1 p num j nxt) =
      (tr @ [requestCommits p num page]) @ evs" for j
    using listCommits_trace by blast
  then show ?thesis using Response d
    by (auto simp: requestCommits_def Let_def)
qed

lemma listCommits_result:
  "listCommits n env tr h p num i page = (Some (Inr (h1, i1)), tr1) \<Longrightarrow>
     Issue i1 = Issue i \<and> Timeline i1 = Timeline i \<and> (Commits i \<noteq> None \<longrightarrow> Commits i1 \<noteq> None)"
proof (induction n arbitrary: tr h i page)
  case 0
  then show ?case by simp
next
  case (Suc n)
  show ?case
  proof (cases "ListCommits env tr (Owner p) (Repo p) num page perPage")
    case Error
    then show ?thesis using Suc.prems by simp
  next
    case (Response docs nxt)
    obtain h' cs where d: "decodeCommits h docs = (h', cs)" by fastforce
    show ?thesis
    proof (cases "nxt < page")
      case True
      then show ?thesis using Response d Suc.prems
        by (auto simp: append_slice_def split: option.splits)
    next
      case False
      then have "listCommits n env (tr @ [E_ListCommits (Owner p) (Repo p) num page perPage]) h' p
          num (i\<lparr>Commits := append_slice (Commits i) cs\<rparr>) nxt = (Some (Inr (h1, i1)), tr1)"
        using Response d Suc.prems by simp
      from Suc.IH [OF this] show ?thesis
        by (auto simp: append_slice_def split: option.splits)
    qed
  qed
qed

lemma listTimeline_Error:
  "ListIssueTimeline env tr (Owner p) (Repo p) num page perPage = Error \<Longrightarrow>
     listTimeline (Suc n) env tr h p num i page =
       (Some (Inl Fatal), tr @ [requestTimeline p num page])"
  by (simp add: requestTimeline_def)

lemma listTimeline_Response:
  "ListIssueTimeline env tr (Owner p) (Repo p) num page perPage = Response docs nxt \<Longrightarrow>
   decodeEvents h docs = (h1, ts) \<Longrightarrow>
     listTimeline (Suc n) env tr h p num i page =
       (if nxt < page
        then (Some (Inr (h1, i\<lparr>Timeline := append_slice (Timeline i) ts\<rparr>)),
              tr @ [requestTimeline p num page])
        else listTimeline n env (tr @ [requestTimeline p num page]) h1 p num
               (i\<lparr>Timeline := append_slice (Timeline i) ts\<rparr>) nxt)"
  by (simp add: requestTimeline_def)

lemma listTimeline_trace:
  "\<exists>evs. snd (listTimeline n env tr h p num i page) = tr @ evs \<and>
         list_all (\<lambda>e. timelineRequestFor e = Some num \<and> \<not> isWrite e \<and>
                       commitsRequestFor e = None \<and> visitOf e = None) evs"
proof (induction n arbitrary: tr h i page)
  case 0
  then show ?case by simp
next
  case (Suc n)
  let ?req = "E_ListIssueTimeline (Owner p) (Repo p) num page perPage :: 'a event"
  show ?case
  proof (cases "ListIssueTimeline env tr (Owner p) (Repo p) num page perPage")
    case Error
    then show ?thesis by (intro exI [of _ "[?req]"]) simp
  next
    case (Response docs nxt)
    obtain h1 ts where d: "decodeEvents h docs = (h1, ts)" by fastforce
    show ?thesis
    proof (cases "nxt < page")
      case True
      then show ?thesis using Response d by (intro exI [of _ "[?req]"]) simp
    next
      case False
      obtain evs where
        "snd (listTimeline n env (tr @ [?req]) h1 p num
               (i\<lparr>Timeline := append_slice (Timeline i) ts\<rparr>) nxt) = (tr @ [?req]) @ evs"
        and "list_all (\<lambda>e. timelineRequestFor e = Some num \<and> \<not> isWrite e \<and>
                       commitsRequestFor e = None \<and> visitOf e = None) evs"
        using Suc by blast
      then show ?thesis using Response d False
        by (intro exI [of _ "[?req] @ evs"]) simp
    qed
  qed
qed

lemma listTimeline_first_request:
  "\<exists>rest. snd (listTimeline (Suc n) env tr h p num i page) =
     tr @ requestTimeline p num page # rest"
proof (cases "ListIssueTimeline env tr (Owner p) (Repo p) num page perPage")
  case Error
  then show ?thesis by (simp add: requestTimeline_def)
next
  case (Response docs nxt)
  obtain h1 ts where d: "decodeEvents h docs = (h1, ts)" by fastforce
  have "\<exists>evs. snd (listTimeline n env (tr @ [requestTimeline p num page]) h1 p num j nxt) =
      (tr @ [requestTimeline p num page]) @ evs" for j
    using listTimeline_trace by blast
  then show ?thesis using Response d
    by (auto simp: requestTimeline_def Let_def)
qed

lemma listTimeline_result:
  "listTimeline n env tr h p num i page = (Some (Inr (h1, i1)), tr1) \<Longrightarrow>
     Issue i1 = Issue i \<and> Commits i1 = Commits i \<and> (Timeline i \<noteq> None \<longrightarrow> Timeline i1 \<noteq> None)"
proof (induction n arbitrary: tr h i page)
  case 0
  then show ?case by simp
next
  case (Suc n)
  show ?case
  proof (cases "ListIssueTimeline env tr (Owner p) (Repo p) num page perPage")
    case Error
    then show ?thesis using Suc.prems by simp
  next
    case (Response docs nxt)
    obtain h' ts where d: "decodeEvents h docs = (h', ts)" by fastforce
    show ?thesis
    proof (cases "nxt < page")
      case True
      then show ?thesis using Response d Suc.prems
        by (auto simp: append_slice_def split: option.splits)
    next
      case False
      then have "listTimeline n env (tr @ [E_ListIssueTimeline (Owner p) (Repo p) num page perPage])
          h' p num (i\<lparr>Timeline := append_slice (Timeline i) ts\<rparr>) nxt = (Some (Inr (h1, i1)), tr1)"
        using Response d Suc.prems by simp
      from Suc.IH [OF this] show ?thesis
        by (auto simp: append_slice_def split: option.splits)
    qed
  qed
qed

lemma listIssues_continue_request:
  assumes "ListByRepo env tr (Owner p) (Repo p) (RefreshedAt p) page perPage = Response docs nxt"
    "decodePage h docs = (h1, gs)" "printRange gs = Inr ()" "storeIssues p gs = Inr p1"
    "\<not> nxt < page"
  shows "\<exists>rest. snd (listIssues (Suc (Suc n)) env tr h p page) =
           tr @ [requestIssues p page, requestIssues p nxt] @ rest"
proof -
  have "listIssues (Suc (Suc n)) env tr h p page =
      listIssues (Suc n) env (tr @ [requestIssues p page]) h1 p1 nxt"
    using listIssues_Response [OF assms(1-4)] assms(5) by simp
  moreover obtain rest where "snd (listIssues (Suc n) env (tr @ [requestIssues p page]) h1 p1 nxt) =
      (tr @ [requestIssues p page]) @ requestIssues p1 nxt # rest"
    using listIssues_first_request by blast
  moreover have "(requestIssues p1 nxt :: 'a event) = requestIssues p nxt"
    using storeIssues_frame [OF assms(4)] by (simp add: requestIssues_def)
  ultimately show ?thesis by simp
qed

lemma listCommits_continue_request:
  assumes "ListCommits env tr (Owner p) (Repo p) num page perPage = Response docs nxt"
    "decodeCommits h docs = (h1, cs)" "\<not> nxt < page"
  shows "\<exists>rest. snd (listCommits (Suc (Suc n)) env tr h p num i page) =
           tr @ [requestCommits p num page, requestCommits p num nxt] @ rest"
proof -
  have "listCommits (Suc (Suc n)) env tr h p num i page =
      listCommits (Suc n) env (tr @ [requestCommits p num page]) h1 p num
        (i\<lparr>Commits := append_slice (Commits i) cs\<rparr>) nxt"
    using listCommits_Response [OF assms(1,2)] assms(3) by simp
  moreover obtain rest where
    "snd (listCommits (Suc n) env (tr @ [requestCommits p num page]) h1 p num
        (i\<lparr>Commits := append_slice (Commits i) cs\<rparr>) nxt) =
      (tr @ [requestCommits p num page]) @ requestCommits p num nxt # rest"
    using listCommits_first_request by blast
  ultimately show ?thesis by simp
qed

lemma listTimeline_continue_request:
  assumes "ListIssueTimeline env tr (Owner p) (Repo p) num page perPage = Response docs nxt"
    "decodeEvents h docs = (h1, ts)" "\<not> nxt < page"
  shows "\<exists>rest. snd (listTimeline (Suc (Suc n)) env tr h p num i page) =
           tr @ [requestTimeline p num page, requestTimeline p num nxt] @ rest"
proof -
  have "listTimeline (Suc (Suc n)) env tr h p num i page =
      listTimeline (Suc n) env (tr @ [requestTimeline p num page]) h1 p num
        (i\<lparr>Timeline := append_slice (Timeline i) ts\<rparr>) nxt"
    using listTimeline_Response [OF assms(1,2)] assms(3) by simp
  moreover obtain rest where
    "snd (listTimeline (Suc n) env (tr @ [requestTimeline p num page]) h1 p num
        (i\<lparr>Timeline := append_slice (Timeline i) ts\<rparr>) nxt) =
      (tr @ [requestTimeline p num page]) @ requestTimeline p num nxt # rest"
    using listTimeline_first_request by blast
  ultimately show ?thesis by simp
qed

text \<open>
  C3 (pagination), as amended. In each of the three paginated loops (the issue listing of
  Phase A, the commit listing and the timeline listing of Phase B), after a successful
  response the loop returns exactly when the reported next page is strictly less than the
  page just requested; otherwise it goes on, and its next request is for the reported next
  page. A reported next page equal to the requested page therefore does not end the loop:
  the same page is requested again.
\<close>
theorem pagination_termination:
  "(ListByRepo env tr (Owner p) (Repo p) (RefreshedAt p) page perPage = Response docs nxt \<and>
    decodePage h docs = (h1, gs) \<and> printRange gs = Inr () \<and> storeIssues p gs = Inr p1 \<longrightarrow>
      (nxt < page \<longrightarrow>
         listIssues (Suc n) env tr h p page = (Some (Inr (h1, p1)), tr @ [requestIssues p page])) \<and>
      (\<not> nxt < page \<longrightarrow>
         listIssues (Suc n) env tr h p page =
           listIssues n env (tr @ [requestIssues p page]) h1 p1 nxt \<and>
         (\<exists>rest. snd (listIssues (Suc (Suc n)) env tr h p page) =
            tr @ [requestIssues p page, requestIssues p nxt] @ rest))) \<and>
   (ListCommits env tr (Owner p) (Repo p) num page perPage = Response cdocs nxt \<and>
    decodeCommits h cdocs = (h2, cs) \<longrightarrow>
      (nxt < page \<longrightarrow>
         listCommits (Suc n) env tr h p num i page =
           (Some (Inr (h2, i\<lparr>Commits := append_slice (Commits i) cs\<rparr>)),
            tr @ [requestCommits p num page])) \<and>
      (\<not> nxt < page \<longrightarrow>
         listCommits (Suc n) env tr h p num i page =
           listCommits n env (tr @ [requestCommits p num page]) h2 p num
             (i\<lparr>Commits := append_slice (Commits i) cs\<rparr>) nxt \<and>
         (\<exists>rest. snd (listCommits (Suc (Suc n)) env tr h p num i page) =
            tr @ [requestCommits p num page, requestCommits p num nxt] @ rest))) \<and>
   (ListIssueTimeline env tr (Owner p) (Repo p) num page perPage = Response tdocs nxt \<and>
    decodeEvents h tdocs = (h3, ts) \<longrightarrow>
      (nxt < page \<longrightarrow>
         listTimeline (Suc n) env tr h p num i page =
           (Some (Inr (h3, i\<lparr>Timeline := append_slice (Timeline i) ts\<rparr>)),
            tr @ [requestTimeline p num page])) \<and>
      (\<not> nxt < page \<longrightarrow>
         listTimeline (Suc n) env tr h p num i page =
           listTimeline n env (tr @ [requestTimeline p num page]) h3 p num
             (i\<lparr>Timeline := append_slice (Timeline i) ts\<rparr>) nxt \<and>
         (\<exists>rest. snd (listTimeline (Suc (Suc n)) env tr h p num i page) =
            tr @ [requestTimeline p num page, requestTimeline p num nxt] @ rest)))"
proof (intro conjI impI)
  assume a: "ListByRepo env tr (Owner p) (Repo p) (RefreshedAt p) page perPage = Response docs nxt \<and>
    decodePage h docs = (h1, gs) \<and> printRange gs = Inr () \<and> storeIssues p gs = Inr p1"
  then have r: "listIssues (Suc n) env tr h p page =
       (if nxt < page then (Some (Inr (h1, p1)), tr @ [requestIssues p page])
        else listIssues n env (tr @ [requestIssues p page]) h1 p1 nxt)"
    using listIssues_Response by blast
  {
    assume "nxt < page"
    then show "listIssues (Suc n) env tr h p page =
        (Some (Inr (h1, p1)), tr @ [requestIssues p page])"
      using r by simp
  }
  {
    assume c: "\<not> nxt < page"
    then show "listIssues (Suc n) env tr h p page =
        listIssues n env (tr @ [requestIssues p page]) h1 p1 nxt"
      using r by simp
    show "\<exists>rest. snd (listIssues (Suc (Suc n)) env tr h p page) =
        tr @ [requestIssues p page, requestIssues p nxt] @ rest"
      using listIssues_continue_request a c by blast
  }
next
  assume a: "ListCommits env tr (Owner p) (Repo p) num page perPage = Response cdocs nxt \<and>
    decodeCommits h cdocs = (h2, cs)"
  then have r: "listCommits (Suc n) env tr h p num i page =
       (if nxt < page
        then (Some (Inr (h2, i\<lparr>Commits := append_slice (Commits i) cs\<rparr>)),
              tr @ [requestCommits p num page])
        else listCommits n env (tr @ [requestCommits p num page]) h2 p num
               (i\<lparr>Commits := append_slice (Commits i) cs\<rparr>) nxt)"
    using listCommits_Response by blast
  {
    assume "nxt < page"
    then show "listCommits (Suc n) env tr h p num i page =
        (Some (Inr (h2, i\<lparr>Commits := append_slice (Commits i) cs\<rparr>)),
         tr @ [requestCommits p num page])"
      using r by simp
  }
  {
    assume c: "\<not> nxt < page"
    then show "listCommits (Suc n) env tr h p num i page =
        listCommits n env (tr @ [requestCommits p num page]) h2 p num
          (i\<lparr>Commits := append_slice (Commits i) cs\<rparr>) nxt"
      using r by simp
    show "\<exists>rest. snd (listCommits (Suc (Suc n)) env tr h p num i page) =
        tr @ [requestCommits p num page, requestCommits p num nxt] @ rest"
      using listCommits_continue_request a c by blast
  }
next
  assume a: "ListIssueTimeline env tr (Owner p) (Repo p) num page perPage = Response tdocs nxt \<and>
    decodeEvents h tdocs = (h3, ts)"
  then have r: "listTimeline (Suc n) env tr h p num i page =
       (if nxt < page
        then (Some (Inr (h3, i\<lparr>Timeline := append_slice (Timeline i) ts\<rparr>)),
              tr @ [requestTimeline p num page])
        else listTimeline n env (tr @ [requestTimeline p num page]) h3 p num
               (i\<lparr>Timeline := append_slice (Timeline i) ts\<rparr>) nxt)"
    using listTimeline_Response by blast
  {
    assume "nxt < page"
    then show "listTimeline (Suc n) env tr h p num i page =
        (Some (Inr (h3, i\<lparr>Timeline := append_slice (Timeline i) ts\<rparr>)),
         tr @ [requestTimeline p num page])"
      using r by simp
  }
  {
    assume c: "\<not> nxt < page"
    then show "listTimeline (Suc n) env tr h p num i page =
        listTimeline n env (tr @ [requestTimeline p num page]) h3 p num
          (i\<lparr>Timeline := append_slice (Timeline i) ts\<rparr>) nxt"
      using r by simp
    show "\<exists>rest. snd (listTimeline (Suc (Suc n)) env tr h p num i page) =
        tr @ [requestTimeline p num page, requestTimeline p num nxt] @ rest"
      using listTimeline_continue_request a c by blast
  }
qed

text \<open>
  An API whose first answer, to a request for page 1, reports page 1 as the next page, and
  whose later answers report no next page (0). All pages are empty.
\<close>

definition samePageEnv :: "nat env" where
  "samePageEnv =
     \<lparr>makeClient = (\<lambda>tr. True), now = (\<lambda>tr. int (length tr)),
      ListByRepo = (\<lambda>tr ow re since page pp. Response [] (if tr = [] then 1 else 0)),
      ListCommits = (\<lambda>tr ow re num page pp. Response [] (if tr = [] then 1 else 0)),
      ListIssueTimeline = (\<lambda>tr ow re num page pp. Response [] (if tr = [] then 1 else 0)),
      ReadFile = (\<lambda>tr name. NotExist),
      ReadDir = (\<lambda>tr. Some []),
      WriteFile = (\<lambda>tr name data. True),
      Marshal_Issue = (\<lambda>d. Some 1),
      Unmarshal_Issue = (\<lambda>b. None),
      Marshal_Project = (\<lambda>m. Some 0),
      Unmarshal_Project = (\<lambda>b m. None)\<rparr>"

lemma samePageEnv_simps:
  "ListByRepo samePageEnv tr ow re since page pp = Response [] (if tr = [] then 1 else 0)"
  "ListCommits samePageEnv tr ow re num page pp = Response [] (if tr = [] then 1 else 0)"
  "ListIssueTimeline samePageEnv tr ow re num page pp = Response [] (if tr = [] then 1 else 0)"
  by (simp_all add: samePageEnv_def)

text \<open>
  The first response reports page 1 as next to the request for page 1. The loop does not
  return on it: with fuel for one request it has not returned, and with fuel for two it
  requests page 1 a second time.
\<close>

theorem pagination_same_page_counterexample:
  "ListByRepo samePageEnv [] (Owner project0) (Repo project0) (RefreshedAt project0) 1 perPage
     = Response [] 1 \<and>
   listIssues 2 samePageEnv [] heap0 project0 1 =
     (Some (Inr (heap0, project0)), [requestIssues project0 1, requestIssues project0 1]) \<and>
   listIssues 1 samePageEnv [] heap0 project0 1 = (None, [requestIssues project0 1])"
  by (simp add: samePageEnv_simps numeral_2_eq_2 printRange_def requestIssues_def)

theorem pagination_termination_witness:
  "listIssues 2 samePageEnv [] heap0 project0 1 =
     (Some (Inr (heap0, project0)), [requestIssues project0 1, requestIssues project0 1]) \<and>
   listCommits 2 samePageEnv [] heap0 project0 7 issue7 1 =
     (Some (Inr (heap0, issue7)), [requestCommits project0 7 1, requestCommits project0 7 1]) \<and>
   listTimeline 2 samePageEnv [] heap0 project0 7 issue7 1 =
     (Some (Inr (heap0, issue7)), [requestTimeline project0 7 1, requestTimeline project0 7 1])"
proof -
  have i7: "issue7\<lparr>Commits := None\<rparr> = issue7" "issue7\<lparr>Timeline := None\<rparr> = issue7"
    "Commits issue7 = None" "Timeline issue7 = None"
    by (simp_all add: issue7_def)
  note first = pagination_termination [of samePageEnv "[]" project0 1 "[]" 1 heap0 heap0 "[]"
      project0 "Suc 0" 7 "[]" heap0 "[]" issue7 "[]" heap0 "[]"]
  note second = pagination_termination [of samePageEnv _ project0 1 "[]" 0 heap0 heap0 "[]"
      project0 0 7 "[]" heap0 "[]" issue7 "[]" heap0 "[]"]
  have a: "listIssues 2 samePageEnv [] heap0 project0 1 =
      listIssues 1 samePageEnv [requestIssues project0 1] heap0 project0 1"
    using first by (simp add: samePageEnv_simps printRange_def numeral_2_eq_2)
  have b: "listIssues 1 samePageEnv [requestIssues project0 1] heap0 project0 1 =
      (Some (Inr (heap0, project0)), [requestIssues project0 1, requestIssues project0 1])"
    using second [of "[requestIssues project0 1]"]
    by (simp add: samePageEnv_simps printRange_def)
  have c: "listCommits 2 samePageEnv [] heap0 project0 7 issue7 1 =
      listCommits 1 samePageEnv [requestCommits project0 7 1] heap0 project0 7 issue7 1"
    using first by (simp add: samePageEnv_simps append_slice_def i7 numeral_2_eq_2)
  have d: "listCommits 1 samePageEnv [requestCommits project0 7 1] heap0 project0 7 issue7 1 =
      (Some (Inr (heap0, issue7)), [requestCommits project0 7 1, requestCommits project0 7 1])"
    using second [of "[requestCommits project0 7 1]"]
    by (simp add: samePageEnv_simps append_slice_def i7)
  have e: "listTimeline 2 samePageEnv [] heap0 project0 7 issue7 1 =
      listTimeline 1 samePageEnv [requestTimeline project0 7 1] heap0 project0 7 issue7 1"
    using first by (simp add: samePageEnv_simps append_slice_def i7 numeral_2_eq_2)
  have f: "listTimeline 1 samePageEnv [requestTimeline project0 7 1] heap0 project0 7 issue7 1 =
      (Some (Inr (heap0, issue7)), [requestTimeline project0 7 1, requestTimeline project0 7 1])"
    using second [of "[requestTimeline project0 7 1]"]
    by (simp add: samePageEnv_simps append_slice_def i7)
  show ?thesis using a b c d e f by simp
qed

lemma listCommits_failure: "fst (listCommits n env tr h p num i page) = Some (Inl e) \<Longrightarrow> e = Fatal"
proof (induction n arbitrary: tr h i page)
  case 0
  then show ?case by simp
next
  case (Suc n)
  show ?case
  proof (cases "ListCommits env tr (Owner p) (Repo p) num page perPage")
    case Error
    then show ?thesis using Suc.prems by simp
  next
    case (Response docs nxt)
    obtain h1 cs where d: "decodeCommits h docs = (h1, cs)" by fastforce
    show ?thesis using Response d Suc by (cases "nxt < page") (auto simp: Let_def)
  qed
qed

lemma listTimeline_failure:
  "fst (listTimeline n env tr h p num i page) = Some (Inl e) \<Longrightarrow> e = Fatal"
proof (induction n arbitrary: tr h i page)
  case 0
  then show ?case by simp
next
  case (Suc n)
  show ?case
  proof (cases "ListIssueTimeline env tr (Owner p) (Repo p) num page perPage")
    case Error
    then show ?thesis using Suc.prems by simp
  next
    case (Response docs nxt)
    obtain h1 ts where d: "decodeEvents h docs = (h1, ts)" by fastforce
    show ?thesis using Response d Suc by (cases "nxt < page") (auto simp: Let_def)
  qed
qed

text \<open>
  What the three parts of a visit add to the record: \<open>fetchCommits\<close> only commit requests
  for its issue, and none unless the issue is a pull request without cached commits;
  \<open>fetchTimeline\<close> only timeline requests for its issue, and none when a timeline is
  cached; \<open>saveChanged\<close> only writes.
\<close>

definition commitsOnly :: "int \<Rightarrow> 'b event list \<Rightarrow> bool" where
  "commitsOnly num evs =
     list_all (\<lambda>e. commitsRequestFor e = Some num \<and> \<not> isWrite e \<and>
                   timelineRequestFor e = None \<and> visitOf e = None) evs"

definition timelineOnly :: "int \<Rightarrow> 'b event list \<Rightarrow> bool" where
  "timelineOnly num evs =
     list_all (\<lambda>e. timelineRequestFor e = Some num \<and> \<not> isWrite e \<and>
                   commitsRequestFor e = None \<and> visitOf e = None) evs"

definition writesOnly :: "'b event list \<Rightarrow> bool" where
  "writesOnly evs =
     list_all (\<lambda>e. isWrite e \<and> commitsRequestFor e = None \<and> timelineRequestFor e = None \<and>
                   visitOf e = None) evs"

lemma markChanged_snd: "snd (markChanged r) = snd r"
  by (auto simp: markChanged_def split: prod.splits option.splits sum.splits)

lemma markChanged_failure: "fst (markChanged r) = Some (Inl e) \<longleftrightarrow> fst r = Some (Inl e)"
  by (auto simp: markChanged_def split: prod.splits option.splits sum.splits)

lemma markChanged_timeout: "fst (markChanged r) = None \<longleftrightarrow> fst r = None"
  by (auto simp: markChanged_def split: prod.splits option.splits sum.splits)

lemma markChanged_result:
  "markChanged r = (Some (Inr (h1, i1, c)), tr1) \<longleftrightarrow> c \<and> r = (Some (Inr (h1, i1)), tr1)"
  by (auto simp: markChanged_def split: prod.splits option.splits sum.splits)

lemma fetchCommits_trace:
  "\<exists>evs. snd (fetchCommits n env tr h p num i) = tr @ evs \<and> commitsOnly num evs \<and>
         (PullRequestLinks (Issue i) = None \<or> Commits i \<noteq> None \<longrightarrow> evs = [])"
proof (cases "PullRequestLinks (Issue i) \<noteq> None \<and> Commits i = None")
  case True
  obtain evs where "snd (listCommits n env tr h p num i 1) = tr @ evs" "commitsOnly num evs"
    using listCommits_trace unfolding commitsOnly_def by blast
  then show ?thesis using True
    by (intro exI [of _ evs]) (auto simp: fetchCommits_def markChanged_snd)
next
  case False
  then show ?thesis by (intro exI [of _ "[]"]) (auto simp: fetchCommits_def commitsOnly_def)
qed

lemma fetchTimeline_trace:
  "\<exists>evs. snd (fetchTimeline n env tr h p num i c) = tr @ evs \<and> timelineOnly num evs \<and>
         (Timeline i \<noteq> None \<longrightarrow> evs = [])"
proof (cases "Timeline i = None")
  case True
  obtain evs where "snd (listTimeline n env tr h p num i 1) = tr @ evs" "timelineOnly num evs"
    using listTimeline_trace unfolding timelineOnly_def by blast
  then show ?thesis using True
    by (intro exI [of _ evs]) (auto simp: fetchTimeline_def markChanged_snd)
next
  case False
  then show ?thesis by (intro exI [of _ "[]"]) (auto simp: fetchTimeline_def timelineOnly_def)
qed

lemma saveJSON_trace: "\<exists>evs. snd (saveJSON env tr path v) = tr @ evs \<and> writesOnly evs"
  by (cases v) (auto simp: saveJSON_def writesOnly_def)

lemma Issue_save_trace: "\<exists>evs. snd (Issue_save env tr h i) = tr @ evs \<and> writesOnly evs"
proof (cases "Number (Issue i)")
  case None
  then show ?thesis by (simp add: Issue_save_def writesOnly_def)
next
  case (Some n)
  then show ?thesis using saveJSON_trace by (simp add: Issue_save_def)
qed

lemma saveChanged_trace:
  "\<exists>evs. snd (saveChanged env tr h p num i c) = tr @ evs \<and> writesOnly evs"
proof (cases c)
  case False
  then show ?thesis by (simp add: saveChanged_def writesOnly_def)
next
  case True
  show ?thesis
  proof (cases "internIssue h p i")
    case (Inl e)
    then show ?thesis using True by (simp add: saveChanged_def writesOnly_def)
  next
    case (Inr r)
    obtain p1 i1 where r: "r = (p1, i1)" by fastforce
    obtain evs where s: "snd (Issue_save env tr h i1) = tr @ evs" "writesOnly evs"
      using Issue_save_trace by blast
    obtain res tr1 where t: "Issue_save env tr h i1 = (res, tr1)" by fastforce
    show ?thesis using True Inr r s t
      by (cases res) (simp_all add: saveChanged_def)
  qed
qed

lemma fetchCommits_failure:
  "fst (fetchCommits n env tr h p num i) = Some (Inl e) \<Longrightarrow> e = Fatal"
  using listCommits_failure [of n env tr h p num i 1 e]
  by (simp add: fetchCommits_def markChanged_failure split: if_splits)

lemma fetchTimeline_failure:
  "fst (fetchTimeline n env tr h p num i c) = Some (Inl e) \<Longrightarrow> e = Fatal"
  using listTimeline_failure [of n env tr h p num i 1 e]
  by (simp add: fetchTimeline_def markChanged_failure split: if_splits)

lemma fetchCommits_result:
  "fetchCommits n env tr h p num i = (Some (Inr (h1, i1, c)), tr1) \<Longrightarrow>
     Issue i1 = Issue i \<and> Timeline i1 = Timeline i \<and> (Commits i \<noteq> None \<longrightarrow> Commits i1 \<noteq> None)"
  using listCommits_result [of n env tr h p num i 1 h1 i1 tr1]
  by (simp add: fetchCommits_def markChanged_result split: if_splits)

lemma fetchTimeline_result:
  "fetchTimeline n env tr h p num i c = (Some (Inr (h1, i1, c')), tr1) \<Longrightarrow>
     Issue i1 = Issue i \<and> Commits i1 = Commits i \<and> (Timeline i \<noteq> None \<longrightarrow> Timeline i1 \<noteq> None)"
  using listTimeline_result [of n env tr h p num i 1 h1 i1 tr1]
  by (simp add: fetchTimeline_def markChanged_result split: if_splits)

lemma internTimeline_shape:
  "internTimeline h p tls = Inr (q, tls') \<Longrightarrow> (tls' = None \<longleftrightarrow> tls = None)"
  by (auto simp: internTimeline_def split: option.splits sum.splits)

lemma internCommitList_shape:
  "internCommitList h p cls = Inr (q, cls') \<Longrightarrow> (cls' = None \<longleftrightarrow> cls = None)"
  by (auto simp: internCommitList_def split: option.splits sum.splits)

lemma internIssue_shape:
  assumes "internIssue h p i = Inr (q, i')"
  shows "(Timeline i' = None \<longleftrightarrow> Timeline i = None) \<and> (Commits i' = None \<longleftrightarrow> Commits i = None) \<and>
         PullRequestLinks (Issue i') = PullRequestLinks (Issue i)"
proof -
  obtain p6 g where 1: "internIssueFields h p (Issue i) = (p6, g)" by fastforce
  from assms obtain p7 tls where 2: "internTimeline h p6 (Timeline i) = Inr (p7, tls)"
    by (auto simp: internIssue_def 1 split: sum.splits)
  from assms obtain cls where 3: "internCommitList h p7 (Commits i) = Inr (q, cls)"
    and i': "i' = i\<lparr>Issue := g, Timeline := tls, Commits := cls\<rparr>"
    by (auto simp: internIssue_def 1 2 split: sum.splits)
  show ?thesis
    using internIssueFields_scalars [OF 1] internTimeline_shape [OF 2]
      internCommitList_shape [OF 3] by (simp add: i')
qed

definition sameProject :: "Project \<Rightarrow> Project \<Rightarrow> bool" where
  "sameProject p q \<longleftrightarrow> Owner q = Owner p \<and> Repo q = Repo p \<and> RefreshedAt q = RefreshedAt p"

definition keepsCached :: "Issue \<Rightarrow> Issue \<Rightarrow> bool" where
  "keepsCached i i' \<longleftrightarrow>
     PullRequestLinks (Issue i') = PullRequestLinks (Issue i) \<and>
     (Timeline i \<noteq> None \<longrightarrow> Timeline i' \<noteq> None) \<and> (Commits i \<noteq> None \<longrightarrow> Commits i' \<noteq> None)"

lemma saveChanged_result:
  assumes "saveChanged env tr h p num i c = (Some (Inr (h', p')), tr')"
  shows "sameProject p p' \<and> (\<forall>k. k \<noteq> num \<longrightarrow> issues p' k = issues p k) \<and>
         (if c then \<exists>i'. issues p' num = Some i' \<and> keepsCached i i' else p' = p)"
proof (cases c)
  case False
  then show ?thesis using assms by (simp add: saveChanged_def sameProject_def)
next
  case True
  from assms True obtain p1 i1 where 1: "internIssue h p i = Inr (p1, i1)"
    by (cases "internIssue h p i") (auto simp: saveChanged_def)
  obtain res tr1 where 2: "Issue_save env tr h i1 = (res, tr1)" by fastforce
  have p': "p' = p1\<lparr>issues := (issues p1)(num \<mapsto> i1)\<rparr>"
    using assms True 1 2 by (cases res) (simp_all add: saveChanged_def)
  have "store_le p p1" using internIssue_le [OF 1] .
  then have "sameProject p p'" "\<forall>k. k \<noteq> num \<longrightarrow> issues p' k = issues p k"
    by (simp_all add: p' store_le_def sameProject_def)
  moreover have "keepsCached i i1" using internIssue_shape [OF 1] by (simp add: keepsCached_def)
  ultimately show ?thesis using True by (simp add: p')
qed

lemma backfillIssue_unfold:
  "issues p num = Some i \<Longrightarrow>
   fetchCommits n env (tr @ [E_Visit num]) h p num i = (Some (Inr (h1, i1, c1)), tr1) \<Longrightarrow>
   fetchTimeline n env tr1 h1 p num i1 c1 = (Some (Inr (h2, i2, c2)), tr2) \<Longrightarrow>
     backfillIssue n env tr h p num = saveChanged env tr2 h2 p num i2 c2"
  by (simp add: backfillIssue_def)

lemma backfillIssue_commits_failed:
  "issues p num = Some i \<Longrightarrow>
   fetchCommits n env (tr @ [E_Visit num]) h p num i = (Some (Inl e), tr1) \<Longrightarrow>
     backfillIssue n env tr h p num = (Some (Inl e), tr1)"
  by (simp add: backfillIssue_def)

lemma backfillIssue_timeline_failed:
  "issues p num = Some i \<Longrightarrow>
   fetchCommits n env (tr @ [E_Visit num]) h p num i = (Some (Inr (h1, i1, c1)), tr1) \<Longrightarrow>
   fetchTimeline n env tr1 h1 p num i1 c1 = (Some (Inl e), tr2) \<Longrightarrow>
     backfillIssue n env tr h p num = (Some (Inl e), tr2)"
  by (simp add: backfillIssue_def)

lemma backfillIssue_result:
  assumes "backfillIssue n env tr h p num = (Some (Inr (h', p')), tr')"
  shows "sameProject p p' \<and> (\<forall>k. k \<noteq> num \<longrightarrow> issues p' k = issues p k) \<and>
         (\<exists>i i'. issues p num = Some i \<and> issues p' num = Some i' \<and> keepsCached i i')"
proof -
  from assms obtain i where i: "issues p num = Some i"
    by (cases "issues p num") (auto simp: backfillIssue_def)
  obtain r1 tr1 where 1: "fetchCommits n env (tr @ [E_Visit num]) h p num i = (r1, tr1)"
    by fastforce
  from assms i 1 obtain h1 i1 c1 where r1: "r1 = Some (Inr (h1, i1, c1))"
    by (cases r1) (auto simp: backfillIssue_def split: sum.splits)
  obtain r2 tr2 where 2: "fetchTimeline n env tr1 h1 p num i1 c1 = (r2, tr2)" by fastforce
  from assms i 1 r1 2 obtain h2 i2 c2 where r2: "r2 = Some (Inr (h2, i2, c2))"
    by (cases r2) (auto simp: backfillIssue_def split: sum.splits)
  have s: "saveChanged env tr2 h2 p num i2 c2 = (Some (Inr (h', p')), tr')"
    using assms backfillIssue_unfold [OF i 1 [unfolded r1] 2 [unfolded r2]] by simp
  note a = fetchCommits_result [OF 1 [unfolded r1]]
  note b = fetchTimeline_result [OF 2 [unfolded r2]]
  note c = saveChanged_result [OF s]
  have k: "keepsCached i i2" using a b by (simp add: keepsCached_def)
  show ?thesis
  proof (cases c2)
    case True
    then obtain i' where "issues p' num = Some i'" "keepsCached i2 i'" using c by auto
    then show ?thesis using c i k by (auto simp: keepsCached_def)
  next
    case False
    then have "p' = p" using c by simp
    then show ?thesis using i by (auto simp: sameProject_def keepsCached_def)
  qed
qed

definition visits :: "'b event list \<Rightarrow> int list" where
  "visits evs = List.map_filter visitOf evs"

definition commitRequests :: "'b event list \<Rightarrow> int list" where
  "commitRequests evs = List.map_filter commitsRequestFor evs"

definition timelineRequests :: "'b event list \<Rightarrow> int list" where
  "timelineRequests evs = List.map_filter timelineRequestFor evs"

definition timelineCached :: "Project \<Rightarrow> int \<Rightarrow> bool" where
  "timelineCached p num = (case issues p num of None \<Rightarrow> False | Some i \<Rightarrow> Timeline i \<noteq> None)"

definition commitsSkipped :: "Project \<Rightarrow> int \<Rightarrow> bool" where
  "commitsSkipped p num =
     (case issues p num of
        None \<Rightarrow> False
      | Some i \<Rightarrow> PullRequestLinks (Issue i) = None \<or> Commits i \<noteq> None)"

lemma map_filter_append: "List.map_filter f (xs @ ys) = List.map_filter f xs @ List.map_filter f ys"
  by (simp add: List.map_filter_def)

lemma map_filter_none: "list_all (\<lambda>e. f e = None) evs \<Longrightarrow> List.map_filter f evs = []"
  by (induction evs) (simp_all add: List.map_filter_def)

lemma map_filter_only:
  "list_all (\<lambda>e. f e = Some k) evs \<Longrightarrow> set (List.map_filter f evs) \<subseteq> {k}"
  by (induction evs) (auto simp: List.map_filter_def)

lemma commitsOnly_projections:
  assumes "commitsOnly num evs"
  shows "visits evs = []" "timelineRequests evs = []" "set (commitRequests evs) \<subseteq> {num}"
    "list_all (\<lambda>e. \<not> isWrite e) evs"
proof -
  from assms have a: "list_all (\<lambda>e. visitOf e = None) evs"
    "list_all (\<lambda>e. timelineRequestFor e = None) evs"
    "list_all (\<lambda>e. commitsRequestFor e = Some num) evs" "list_all (\<lambda>e. \<not> isWrite e) evs"
    by (simp_all add: commitsOnly_def list_all_iff)
  show "visits evs = []" "timelineRequests evs = []" "set (commitRequests evs) \<subseteq> {num}"
    "list_all (\<lambda>e. \<not> isWrite e) evs"
    using a map_filter_none map_filter_only
    by (simp_all add: visits_def timelineRequests_def commitRequests_def)
qed

lemma timelineOnly_projections:
  assumes "timelineOnly num evs"
  shows "visits evs = []" "commitRequests evs = []" "set (timelineRequests evs) \<subseteq> {num}"
    "list_all (\<lambda>e. \<not> isWrite e) evs"
proof -
  from assms have a: "list_all (\<lambda>e. visitOf e = None) evs"
    "list_all (\<lambda>e. commitsRequestFor e = None) evs"
    "list_all (\<lambda>e. timelineRequestFor e = Some num) evs" "list_all (\<lambda>e. \<not> isWrite e) evs"
    by (simp_all add: timelineOnly_def list_all_iff)
  show "visits evs = []" "commitRequests evs = []" "set (timelineRequests evs) \<subseteq> {num}"
    "list_all (\<lambda>e. \<not> isWrite e) evs"
    using a map_filter_none map_filter_only
    by (simp_all add: visits_def timelineRequests_def commitRequests_def)
qed

lemma writesOnly_projections:
  assumes "writesOnly evs"
  shows "visits evs = []" "commitRequests evs = []" "timelineRequests evs = []"
proof -
  from assms have a: "list_all (\<lambda>e. visitOf e = None) evs"
    "list_all (\<lambda>e. commitsRequestFor e = None) evs"
    "list_all (\<lambda>e. timelineRequestFor e = None) evs"
    by (simp_all add: writesOnly_def list_all_iff)
  show "visits evs = []" "commitRequests evs = []" "timelineRequests evs = []"
    using a map_filter_none by (simp_all add: visits_def timelineRequests_def commitRequests_def)
qed

lemma backfillIssue_trace:
  "\<exists>evC evT evW. snd (backfillIssue n env tr h p num) = tr @ E_Visit num # evC @ evT @ evW \<and>
     commitsOnly num evC \<and> timelineOnly num evT \<and> writesOnly evW \<and>
     (commitsSkipped p num \<longrightarrow> evC = []) \<and> (timelineCached p num \<longrightarrow> evT = [])"
proof (cases "issues p num")
  case None
  then show ?thesis
    by (intro exI [of _ "[]"])
      (simp add: backfillIssue_def commitsOnly_def timelineOnly_def writesOnly_def
        commitsSkipped_def timelineCached_def)
next
  case (Some i)
  obtain evC where C: "snd (fetchCommits n env (tr @ [E_Visit num]) h p num i) =
      (tr @ [E_Visit num]) @ evC" "commitsOnly num evC"
    "PullRequestLinks (Issue i) = None \<or> Commits i \<noteq> None \<longrightarrow> evC = []"
    using fetchCommits_trace by blast
  obtain r1 tr1 where 1: "fetchCommits n env (tr @ [E_Visit num]) h p num i = (r1, tr1)"
    by fastforce
  have tr1: "tr1 = tr @ E_Visit num # evC" using C(1) 1 by simp
  have skipC: "commitsSkipped p num \<longrightarrow> evC = []" using C(3) Some by (simp add: commitsSkipped_def)
  have nil: "timelineOnly num []" "writesOnly []" by (simp_all add: timelineOnly_def writesOnly_def)
  show ?thesis
  proof (cases r1)
    case None
    then show ?thesis using Some 1 tr1 C(2) skipC nil
      by (intro exI [of _ evC] exI [of _ "[]"]) (simp add: backfillIssue_def)
  next
    case r1: (Some s1)
    show ?thesis
    proof (cases s1)
      case (Inl e)
      then show ?thesis using Some 1 r1 tr1 C(2) skipC nil
        by (intro exI [of _ evC] exI [of _ "[]"]) (simp add: backfillIssue_def)
    next
      case (Inr v)
      obtain h1 i1 c1 where v: "v = (h1, i1, c1)" by (cases v) auto
      note res1 = fetchCommits_result [OF 1 [unfolded r1 Inr v]]
      obtain evT where T: "snd (fetchTimeline n env tr1 h1 p num i1 c1) = tr1 @ evT"
        "timelineOnly num evT" "Timeline i1 \<noteq> None \<longrightarrow> evT = []"
        using fetchTimeline_trace by blast
      obtain r2 tr2 where 2: "fetchTimeline n env tr1 h1 p num i1 c1 = (r2, tr2)" by fastforce
      have tr2: "tr2 = tr @ E_Visit num # evC @ evT" using T(1) 2 tr1 by simp
      have skipT: "timelineCached p num \<longrightarrow> evT = []"
        using T(3) res1 Some by (simp add: timelineCached_def)
      show ?thesis
      proof (cases r2)
        case None
        then show ?thesis using Some 1 r1 Inr v 2 tr2 C(2) T(2) skipC skipT nil
          by (intro exI [of _ evC] exI [of _ evT] exI [of _ "[]"]) (simp add: backfillIssue_def)
      next
        case r2: (Some s2)
        show ?thesis
        proof (cases s2)
          case (Inl e)
          then show ?thesis using Some 1 r1 \<open>s1 = Inr v\<close> v 2 r2 tr2 C(2) T(2) skipC skipT nil
            by (intro exI [of _ evC] exI [of _ evT] exI [of _ "[]"]) (simp add: backfillIssue_def)
        next
          case (Inr w)
          obtain h2 i2 c2 where w: "w = (h2, i2, c2)" by (cases w) auto
          obtain evW where W: "snd (saveChanged env tr2 h2 p num i2 c2) = tr2 @ evW"
            "writesOnly evW"
            using saveChanged_trace by blast
          have "backfillIssue n env tr h p num = saveChanged env tr2 h2 p num i2 c2"
            using backfillIssue_unfold [OF Some 1 [unfolded r1 \<open>s1 = Inr v\<close> v]
                2 [unfolded r2 Inr w]] .
          then show ?thesis using W tr2 C(2) T(2) skipC skipT
            by (intro exI [of _ evC] exI [of _ evT] exI [of _ evW]) simp
        qed
      qed
    qed
  qed
qed

lemma backfillIssue_keeps_cached:
  assumes "backfillIssue n env tr h p num = (Some (Inr (h', p')), tr')"
  shows "sameProject p p'" "timelineCached p k \<Longrightarrow> timelineCached p' k"
    "commitsSkipped p k \<Longrightarrow> commitsSkipped p' k" "dom (issues p') = dom (issues p)"
proof -
  note r = backfillIssue_result [OF assms]
  then obtain i i' where i: "issues p num = Some i" "issues p' num = Some i'" "keepsCached i i'"
    by blast
  show "sameProject p p'" using r by simp
  show "timelineCached p' k" if "timelineCached p k"
    using that r i by (cases "k = num") (auto simp: timelineCached_def keepsCached_def)
  show "commitsSkipped p' k" if "commitsSkipped p k"
    using that r i by (cases "k = num") (auto simp: commitsSkipped_def keepsCached_def)
  show "dom (issues p') = dom (issues p)"
  proof (rule set_eqI)
    fix k show "k \<in> dom (issues p') \<longleftrightarrow> k \<in> dom (issues p)"
      using r i by (cases "k = num") auto
  qed
qed

lemma backfillIssue_requests:
  "\<exists>evs. snd (backfillIssue n env tr h p num) = tr @ evs \<and> visits evs = [num] \<and>
     set (commitRequests evs) \<subseteq> {num} \<and> set (timelineRequests evs) \<subseteq> {num} \<and>
     (commitsSkipped p num \<longrightarrow> commitRequests evs = []) \<and>
     (timelineCached p num \<longrightarrow> timelineRequests evs = [])"
proof -
  obtain evC evT evW where t: "snd (backfillIssue n env tr h p num) = tr @ E_Visit num # evC @ evT @ evW"
    "commitsOnly num evC" "timelineOnly num evT" "writesOnly evW"
    "commitsSkipped p num \<longrightarrow> evC = []" "timelineCached p num \<longrightarrow> evT = []"
    using backfillIssue_trace by blast
  note c = commitsOnly_projections [OF t(2)]
  note l = timelineOnly_projections [OF t(3)]
  note w = writesOnly_projections [OF t(4)]
  have v: "visits [E_Visit num] = [num]" "commitRequests [E_Visit num] = []"
    "timelineRequests [E_Visit num] = []"
    by (simp_all add: visits_def commitRequests_def timelineRequests_def List.map_filter_def)
  have split: "E_Visit num # evC @ evT @ evW = [E_Visit num] @ evC @ evT @ evW" by simp
  have 1: "visits (E_Visit num # evC @ evT @ evW) = [num]"
    unfolding split visits_def map_filter_append
    using c(1) l(1) w(1) v(1) by (simp add: visits_def)
  have 2: "commitRequests (E_Visit num # evC @ evT @ evW) = commitRequests evC"
    unfolding split commitRequests_def map_filter_append
    using l(2) w(2) v(2) by (simp add: commitRequests_def)
  have 3: "timelineRequests (E_Visit num # evC @ evT @ evW) = timelineRequests evT"
    unfolding split timelineRequests_def map_filter_append
    using c(2) w(3) v(3) by (simp add: timelineRequests_def)
  have 4: "commitsSkipped p num \<longrightarrow> commitRequests evC = []"
    using t(5) by (auto simp: commitRequests_def List.map_filter_def)
  have 5: "timelineCached p num \<longrightarrow> timelineRequests evT = []"
    using t(6) by (auto simp: timelineRequests_def List.map_filter_def)
  show ?thesis
    using t(1) 1 2 3 4 5 c(3) l(3)
    by (intro exI [of _ "E_Visit num # evC @ evT @ evW"]) simp
qed

lemma backfill_trace:
  "\<exists>evs. snd (backfill n env tr h p nums) = tr @ evs \<and>
     (\<exists>rest. nums = visits evs @ rest) \<and>
     (\<forall>r. fst (backfill n env tr h p nums) = Some (Inr r) \<longrightarrow> visits evs = nums) \<and>
     (\<forall>k. timelineCached p k \<longrightarrow> k \<notin> set (timelineRequests evs)) \<and>
     (\<forall>k. commitsSkipped p k \<longrightarrow> k \<notin> set (commitRequests evs))"
proof (induction nums arbitrary: tr h p)
  case Nil
  then show ?case
    by (intro exI [of _ "[]"])
      (simp add: visits_def timelineRequests_def commitRequests_def List.map_filter_def)
next
  case (Cons num nums)
  obtain ev1 where e1: "snd (backfillIssue n env tr h p num) = tr @ ev1" "visits ev1 = [num]"
    "set (commitRequests ev1) \<subseteq> {num}" "set (timelineRequests ev1) \<subseteq> {num}"
    "commitsSkipped p num \<longrightarrow> commitRequests ev1 = []"
    "timelineCached p num \<longrightarrow> timelineRequests ev1 = []"
    using backfillIssue_requests by blast
  obtain r1 tr1 where 1: "backfillIssue n env tr h p num = (r1, tr1)" by fastforce
  have tr1: "tr1 = tr @ ev1" using e1(1) 1 by simp
  have noT: "\<forall>k. timelineCached p k \<longrightarrow> k \<notin> set (timelineRequests ev1)"
    using e1(4,6) by auto
  have noC: "\<forall>k. commitsSkipped p k \<longrightarrow> k \<notin> set (commitRequests ev1)"
    using e1(3,5) by auto
  have stop: ?case if "backfill n env tr h p (num # nums) = (r1, tr1)" "\<forall>r. r1 \<noteq> Some (Inr r)"
    using that tr1 e1(2) noT noC by (intro exI [of _ ev1]) simp
  show ?case
  proof (cases r1)
    case None
    then show ?thesis using stop 1 by simp
  next
    case (Some s1)
    show ?thesis
    proof (cases s1)
      case (Inl e)
      then show ?thesis using stop 1 Some by simp
    next
      case (Inr v)
      obtain h1 p1 where v: "v = (h1, p1)" by fastforce
      note ok = 1 [unfolded Some Inr v]
      note keep = backfillIssue_keeps_cached [OF ok]
      obtain ev2 where e2: "snd (backfill n env tr1 h1 p1 nums) = tr1 @ ev2"
        "\<exists>rest. nums = visits ev2 @ rest"
        "\<forall>r. fst (backfill n env tr1 h1 p1 nums) = Some (Inr r) \<longrightarrow> visits ev2 = nums"
        "\<forall>k. timelineCached p1 k \<longrightarrow> k \<notin> set (timelineRequests ev2)"
        "\<forall>k. commitsSkipped p1 k \<longrightarrow> k \<notin> set (commitRequests ev2)"
        using Cons.IH by blast
      have eq: "backfill n env tr h p (num # nums) = backfill n env tr1 h1 p1 nums"
        using ok by simp
      have v12: "visits (ev1 @ ev2) = num # visits ev2"
        using e1(2) by (simp add: visits_def map_filter_append)
      have t12: "timelineRequests (ev1 @ ev2) = timelineRequests ev1 @ timelineRequests ev2"
        and c12: "commitRequests (ev1 @ ev2) = commitRequests ev1 @ commitRequests ev2"
        by (simp_all add: timelineRequests_def commitRequests_def map_filter_append)
      have a: "snd (backfill n env tr h p (num # nums)) = tr @ ev1 @ ev2"
        using eq e2(1) tr1 by simp
      have b: "\<exists>rest. num # nums = visits (ev1 @ ev2) @ rest" using e2(2) v12 by auto
      have c: "\<forall>r. fst (backfill n env tr h p (num # nums)) = Some (Inr r) \<longrightarrow>
          visits (ev1 @ ev2) = num # nums"
        using e2(3) eq v12 by simp
      have d: "\<forall>k. timelineCached p k \<longrightarrow> k \<notin> set (timelineRequests (ev1 @ ev2))"
        using noT e2(4) keep(2) t12 by auto
      have e: "\<forall>k. commitsSkipped p k \<longrightarrow> k \<notin> set (commitRequests (ev1 @ ev2))"
        using noC e2(5) keep(3) c12 by auto
      show ?thesis using a b c d e by (intro exI [of _ "ev1 @ ev2"]) blast
    qed
  qed
qed


lemma listIssues_frame:
  "listIssues n env tr h p page = (Some (Inr (h1, p1)), tr1) \<Longrightarrow>
     Owner p1 = Owner p \<and> Repo p1 = Repo p \<and> RefreshedAt p1 = RefreshedAt p"
proof (induction n arbitrary: tr h p page)
  case 0
  then show ?case by simp
next
  case (Suc n)
  show ?case
  proof (cases "ListByRepo env tr (Owner p) (Repo p) (RefreshedAt p) page perPage")
    case Error
    then show ?thesis using Suc by simp
  next
    case (Response docs nxt)
    obtain h' gs where d: "decodePage h docs = (h', gs)" by fastforce
    show ?thesis
    proof (cases "printRange gs")
      case (Inl e)
      then show ?thesis using Response d Suc.prems by simp
    next
      case (Inr u)
      show ?thesis
      proof (cases "storeIssues p gs")
        case (Inl e)
        then show ?thesis using Response d Inr Suc.prems by simp
      next
        case p': (Inr p')
        note f = storeIssues_frame [OF p']
        show ?thesis
        proof (cases "nxt < page")
          case True
          then show ?thesis using Response d Inr p' Suc.prems f by (simp add: Let_def)
        next
          case False
          then have "listIssues n env (tr @ [E_ListByRepo (Owner p) (Repo p) (RefreshedAt p) page perPage])
              h' p' nxt = (Some (Inr (h1, p1)), tr1)"
            using Response d Inr p' Suc.prems by (simp add: Let_def)
          from Suc.IH [OF this] show ?thesis using f by simp
        qed
      qed
    qed
  qed
qed

lemma backfill_sameProject:
  "backfill n env tr h p nums = (Some (Inr (h', p')), tr') \<Longrightarrow> sameProject p p'"
proof (induction nums arbitrary: tr h p)
  case Nil
  then show ?case by (simp add: sameProject_def)
next
  case (Cons num nums)
  obtain r1 tr1 where 1: "backfillIssue n env tr h p num = (r1, tr1)" by fastforce
  from Cons.prems 1 obtain h1 p1 where r1: "r1 = Some (Inr (h1, p1))"
    by (cases r1) (auto split: sum.splits)
  have "backfill n env tr1 h1 p1 nums = (Some (Inr (h', p')), tr')"
    using Cons.prems 1 r1 by simp
  from Cons.IH [OF this] backfillIssue_keeps_cached(1) [OF 1 [unfolded r1]]
  show ?case by (simp add: sameProject_def)
qed

lemma backfill_extends: "\<exists>evs. snd (backfill n env tr h p nums) = tr @ evs"
  using backfill_trace [of n env tr h p nums] by blast

lemma refresh_after_phaseA:
  assumes "makeClient env tr" "listIssues n env tr h p 1 = (Some (Inr (h1, p1)), tr1)"
  shows "refresh n env tr h p =
     (case Project_save env tr1 (p1\<lparr>RefreshedAt := now env tr\<rparr>) of
        (Inl e, tr2) \<Rightarrow> (Some (Inl e), tr2)
      | (Inr u, tr2) \<Rightarrow>
          backfill n env tr2 h1 (p1\<lparr>RefreshedAt := now env tr\<rparr>) (rev (sortedIssues (p1\<lparr>RefreshedAt := now env tr\<rparr>))))"
  using assms by (simp add: refresh_def Let_def)

lemma refresh_meta_written:
  assumes "makeClient env tr" "listIssues n env tr h p 1 = (Some (Inr (h1, p1)), tr1)"
    "Marshal_Project env \<lparr>Meta_Owner = Owner p, Meta_Repo = Repo p,
       Meta_RefreshedAt = now env tr\<rparr> = Some data"
  shows "\<exists>evsB. snd (refresh n env tr h p) = tr1 @ E_WriteFile ''meta'' data # evsB"
proof -
  let ?p2 = "p1\<lparr>RefreshedAt := now env tr\<rparr>"
  have m: "Marshal_Project env (metaOf ?p2) = Some data"
    using assms(3) listIssues_frame [OF assms(2)] by (simp add: metaOf_def)
  show ?thesis
  proof (cases "WriteFile env tr1 ''meta'' data")
    case False
    then show ?thesis
      using m by (simp add: refresh_after_phaseA [OF assms(1,2)] Project_save_def saveJSON_def)
  next
    case True
    obtain evs where "snd (backfill n env (tr1 @ [E_WriteFile ''meta'' data]) h1 ?p2
        (rev (sortedIssues ?p2))) = (tr1 @ [E_WriteFile ''meta'' data]) @ evs"
      using backfill_extends by blast
    then show ?thesis
      using m True by (simp add: refresh_after_phaseA [OF assms(1,2)] Project_save_def saveJSON_def)
  qed
qed

lemma refresh_watermark:
  assumes "makeClient env tr" "listIssues n env tr h p 1 = (Some (Inr (h1, p1)), tr1)"
    "refresh n env tr h p = (Some (Inr (h', p')), tr')"
  shows "RefreshedAt p' = now env tr"
proof -
  let ?p2 = "p1\<lparr>RefreshedAt := now env tr\<rparr>"
  obtain r tr2 where s: "Project_save env tr1 ?p2 = (r, tr2)" by fastforce
  from assms(3) have "backfill n env tr2 h1 ?p2 (rev (sortedIssues (p1\<lparr>RefreshedAt := now env tr\<rparr>))) = (Some (Inr (h', p')), tr')"
    using s by (cases r) (simp_all add: refresh_after_phaseA [OF assms(1,2)])
  from backfill_sameProject [OF this] show ?thesis by (simp add: sameProject_def)
qed

text \<open>
  C4 (watermark). When the client is made and Phase A returns, Phase A has only issued
  issue-listing requests and sleeps; the project then saved and handed to Phase B carries
  as \<^verbatim>\<open>RefreshedAt\<close> the clock reading taken before the first request, whatever the clock
  shows afterwards; when the metadata can be encoded, writing the file \<^verbatim>\<open>meta\<close> is the very
  next action after Phase A, before anything Phase B does; and a run of \<^verbatim>\<open>refresh\<close> that
  returns leaves that reading in \<^verbatim>\<open>RefreshedAt\<close>.
\<close>
theorem watermark_is_start_time:
  "makeClient env tr \<and> listIssues n env tr h p 1 = (Some (Inr (h1, p1)), tr1) \<longrightarrow>
     (\<exists>evsA. tr1 = tr @ evsA \<and> list_all listingEvent evsA) \<and>
     refresh n env tr h p =
       (case Project_save env tr1 (p1\<lparr>RefreshedAt := now env tr\<rparr>) of
          (Inl e, tr2) \<Rightarrow> (Some (Inl e), tr2)
        | (Inr u, tr2) \<Rightarrow>
            backfill n env tr2 h1 (p1\<lparr>RefreshedAt := now env tr\<rparr>) (rev (sortedIssues (p1\<lparr>RefreshedAt := now env tr\<rparr>)))) \<and>
     (\<forall>data. Marshal_Project env \<lparr>Meta_Owner = Owner p, Meta_Repo = Repo p,
                 Meta_RefreshedAt = now env tr\<rparr> = Some data \<longrightarrow>
        (\<exists>evsB. snd (refresh n env tr h p) = tr1 @ E_WriteFile ''meta'' data # evsB)) \<and>
     (\<forall>h' p' tr'. refresh n env tr h p = (Some (Inr (h', p')), tr') \<longrightarrow>
        RefreshedAt p' = now env tr)"
proof (intro impI)
  assume a: "makeClient env tr \<and> listIssues n env tr h p 1 = (Some (Inr (h1, p1)), tr1)"
  then have c: "makeClient env tr" and l: "listIssues n env tr h p 1 = (Some (Inr (h1, p1)), tr1)"
    by simp_all
  have 1: "\<exists>evsA. tr1 = tr @ evsA \<and> list_all listingEvent evsA"
    using listIssues_trace [of n env tr h p 1] l by simp
  show "(\<exists>evsA. tr1 = tr @ evsA \<and> list_all listingEvent evsA) \<and>
     refresh n env tr h p =
       (case Project_save env tr1 (p1\<lparr>RefreshedAt := now env tr\<rparr>) of
          (Inl e, tr2) \<Rightarrow> (Some (Inl e), tr2)
        | (Inr u, tr2) \<Rightarrow>
            backfill n env tr2 h1 (p1\<lparr>RefreshedAt := now env tr\<rparr>) (rev (sortedIssues (p1\<lparr>RefreshedAt := now env tr\<rparr>)))) \<and>
     (\<forall>data. Marshal_Project env \<lparr>Meta_Owner = Owner p, Meta_Repo = Repo p,
                 Meta_RefreshedAt = now env tr\<rparr> = Some data \<longrightarrow>
        (\<exists>evsB. snd (refresh n env tr h p) = tr1 @ E_WriteFile ''meta'' data # evsB)) \<and>
     (\<forall>h' p' tr'. refresh n env tr h p = (Some (Inr (h', p')), tr') \<longrightarrow>
        RefreshedAt p' = now env tr)"
    using 1 refresh_after_phaseA [OF c l] refresh_meta_written [OF c l] refresh_watermark [OF c l]
    by blast
qed


text \<open>
  C6 (error handling in the two phases). In Phase A a failed request is followed by a sleep
  of 5 seconds and the same request for the same page, with the store unchanged; Phase A
  never ends in the fatal exit; and against an API that always fails it never returns, the
  record being the request and the sleep over and over. In Phase B a failed commit or
  timeline request ends its loop at once with the fatal exit, after that single request;
  the visit ends with the same error and has written no file, and Phase B ends there, the
  remaining issues unvisited.
\<close>
theorem error_handling_asymmetry:
  "(ListByRepo env tr (Owner p) (Repo p) (RefreshedAt p) page perPage = Error \<longrightarrow>
      listIssues (Suc n) env tr h p page =
        listIssues n env (tr @ [requestIssues p page, E_Sleep (5 * Second)]) h p page) \<and>
   fst (listIssues n env tr h p page) \<noteq> Some (Inl Fatal) \<and>
   ((\<forall>tr'. ListByRepo env tr' (Owner p) (Repo p) (RefreshedAt p) page perPage = Error) \<longrightarrow>
      listIssues n env tr h p page =
        (None, tr @ concat (replicate n [requestIssues p page, E_Sleep (5 * Second)]))) \<and>
   (ListCommits env tr (Owner p) (Repo p) num page perPage = Error \<longrightarrow>
      listCommits (Suc n) env tr h p num i page =
        (Some (Inl Fatal), tr @ [requestCommits p num page])) \<and>
   (ListIssueTimeline env tr (Owner p) (Repo p) num page perPage = Error \<longrightarrow>
      listTimeline (Suc n) env tr h p num i page =
        (Some (Inl Fatal), tr @ [requestTimeline p num page])) \<and>
   (issues p num = Some j \<and>
    fetchCommits n env (tr @ [E_Visit num]) h p num j = (Some (Inl e), tr1) \<longrightarrow>
      e = Fatal \<and> backfillIssue n env tr h p num = (Some (Inl e), tr1) \<and>
      list_all (\<lambda>ev. \<not> isWrite ev) (drop (length tr) tr1)) \<and>
   (issues p num = Some j \<and>
    fetchCommits n env (tr @ [E_Visit num]) h p num j = (Some (Inr (h1, j1, c1)), tr1) \<and>
    fetchTimeline n env tr1 h1 p num j1 c1 = (Some (Inl e), tr2) \<longrightarrow>
      e = Fatal \<and> backfillIssue n env tr h p num = (Some (Inl e), tr2) \<and>
      list_all (\<lambda>ev. \<not> isWrite ev) (drop (length tr) tr2)) \<and>
   (backfillIssue n env tr h p num = (Some (Inl e), tr1) \<longrightarrow>
      backfill n env tr h p (num # nums) = (Some (Inl e), tr1))"
proof (intro conjI impI)
  assume "ListByRepo env tr (Owner p) (Repo p) (RefreshedAt p) page perPage = Error"
  then show "listIssues (Suc n) env tr h p page =
        listIssues n env (tr @ [requestIssues p page, E_Sleep (5 * Second)]) h p page"
    by (rule listIssues_Error)
next
  show "fst (listIssues n env tr h p page) \<noteq> Some (Inl Fatal)" by (rule listIssues_never_fatal)
next
  assume "\<forall>tr'. ListByRepo env tr' (Owner p) (Repo p) (RefreshedAt p) page perPage = Error"
  then show "listIssues n env tr h p page =
        (None, tr @ concat (replicate n [requestIssues p page, E_Sleep (5 * Second)]))"
    using listIssues_always_Error by blast
next
  assume "ListCommits env tr (Owner p) (Repo p) num page perPage = Error"
  then show "listCommits (Suc n) env tr h p num i page =
        (Some (Inl Fatal), tr @ [requestCommits p num page])"
    by (rule listCommits_Error)
next
  assume "ListIssueTimeline env tr (Owner p) (Repo p) num page perPage = Error"
  then show "listTimeline (Suc n) env tr h p num i page =
        (Some (Inl Fatal), tr @ [requestTimeline p num page])"
    by (rule listTimeline_Error)
next
  assume a: "issues p num = Some j \<and>
    fetchCommits n env (tr @ [E_Visit num]) h p num j = (Some (Inl e), tr1)"
  then show "e = Fatal" using fetchCommits_failure [of n env "tr @ [E_Visit num]" h p num j e]
    by simp
  from a show "backfillIssue n env tr h p num = (Some (Inl e), tr1)"
    using backfillIssue_commits_failed by blast
  obtain evs where "snd (fetchCommits n env (tr @ [E_Visit num]) h p num j) =
      (tr @ [E_Visit num]) @ evs" "commitsOnly num evs"
    using fetchCommits_trace by blast
  then show "list_all (\<lambda>ev. \<not> isWrite ev) (drop (length tr) tr1)"
    using a commitsOnly_projections(4) [of num evs] by simp
next
  assume a: "issues p num = Some j \<and>
    fetchCommits n env (tr @ [E_Visit num]) h p num j = (Some (Inr (h1, j1, c1)), tr1) \<and>
    fetchTimeline n env tr1 h1 p num j1 c1 = (Some (Inl e), tr2)"
  then show "e = Fatal" using fetchTimeline_failure [of n env tr1 h1 p num j1 c1 e] by simp
  from a show "backfillIssue n env tr h p num = (Some (Inl e), tr2)"
    using backfillIssue_timeline_failed by blast
  obtain evC where C: "snd (fetchCommits n env (tr @ [E_Visit num]) h p num j) =
      (tr @ [E_Visit num]) @ evC" "commitsOnly num evC"
    using fetchCommits_trace by blast
  obtain evT where T: "snd (fetchTimeline n env tr1 h1 p num j1 c1) = tr1 @ evT"
    "timelineOnly num evT"
    using fetchTimeline_trace by blast
  have "tr2 = tr @ E_Visit num # evC @ evT" using a C(1) T(1) by simp
  then show "list_all (\<lambda>ev. \<not> isWrite ev) (drop (length tr) tr2)"
    using commitsOnly_projections(4) [OF C(2)] timelineOnly_projections(4) [OF T(2)] by simp
next
  assume "backfillIssue n env tr h p num = (Some (Inl e), tr1)"
  then show "backfill n env tr h p (num # nums) = (Some (Inl e), tr1)" by simp
qed

subsection \<open>An example run\<close>

definition fields8 :: Fields_doc where
  "fields8 = \<lparr>Number = Some 8, Title = Some ''a pull request'',
               User = Some \<lparr>User_ID = Some 70, Login = Some ''carol''\<rparr>,
               Assignee = None, ClosedBy = None, Assignees = [], Milestone = None,
               Repository = None, PullRequestLinks = Some ''pull/8'', ClosedAt = None,
               CreatedAt = Some 5\<rparr>"

definition commitDoc :: Commit_doc where
  "commitDoc = \<lparr>SHA = Some ''abc'', Author = Some \<lparr>User_ID = Some 70, Login = Some ''carol''\<rparr>,
                 Committer = None\<rparr>"

definition eventDoc :: Event_doc where
  "eventDoc = \<lparr>Event = Some ''labeled'', Actor = Some \<lparr>User_ID = Some 70, Login = Some ''carol''\<rparr>,
                Timeline_Assignee = None, Timeline_Milestone = None\<rparr>"

definition syncEnv :: "int env" where
  "syncEnv =
     \<lparr>makeClient = (\<lambda>tr. True), now = (\<lambda>tr. 1000 + int (length tr)),
      ListByRepo = (\<lambda>tr ow re since page pp. if tr = [] then Error else Response [Some fields8] 0),
      ListCommits = (\<lambda>tr ow re num page pp. Response [Some commitDoc] 0),
      ListIssueTimeline = (\<lambda>tr ow re num page pp. Response [Some eventDoc] 0),
      ReadFile = (\<lambda>tr name. NotExist),
      ReadDir = (\<lambda>tr. Some []),
      WriteFile = (\<lambda>tr name data. True),
      Marshal_Issue = (\<lambda>d. Number (Issue d)),
      Unmarshal_Issue = (\<lambda>b. None),
      Marshal_Project = (\<lambda>m. Some (Meta_RefreshedAt m)),
      Unmarshal_Project = (\<lambda>b m. None)\<rparr>"

definition issue8a :: Issue where
  "issue8a = \<lparr>Issue = \<lparr>Number = Some 8, Title = Some ''a pull request'', User = Some 30,
               Assignee = None, ClosedBy = None, Assignees = [], Milestone = None,
               Repository = None, PullRequestLinks = Some ''pull/8'', ClosedAt = None,
               CreatedAt = Some 5\<rparr>,
            Timeline = None, Commits = None\<rparr>"

definition projectA :: Project where
  "projectA = project0\<lparr>issues := [8 \<mapsto> issue8a]\<rparr>"

definition traceA :: "int event list" where
  "traceA = [E_ListByRepo ''cockroachdb'' ''cockroach'' 0 1 100, E_Sleep 5000000000,
             E_ListByRepo ''cockroachdb'' ''cockroach'' 0 1 100]"

lemma phaseA_sync:
  "listIssues 2 syncEnv [] heap0 project0 1 = (Some (Inr (heap7, projectA)), traceA)"
  by (simp add: numeral_2_eq_2 syncEnv_def fields8_def decodeFields_def newUser_def
      newMilestone_def newRepository_def printRange_def emptyIssue_def heap0_def heap7_def
      project0_def projectA_def issue8a_def traceA_def perPage_def Second_def)

definition heapB :: heap where
  "heapB = heap7\<lparr>user_at := (user_at heap7)
                     (31 := \<lparr>User_ID = Some 70, Login = Some ''carol''\<rparr>,
                      32 := \<lparr>User_ID = Some 70, Login = Some ''carol''\<rparr>),
                 brk := 33\<rparr>"

definition issue8b :: Issue where
  "issue8b = \<lparr>Issue = Issue issue8a,
               Timeline = Some [Some \<lparr>Event = Some ''labeled'', Actor = Some 30,
                 Timeline_Assignee = None, Timeline_Milestone = None\<rparr>],
               Commits = Some [Some \<lparr>SHA = Some ''abc'', Author = Some 30, Committer = None\<rparr>]\<rparr>"

definition projectB :: Project where
  "projectB = project0\<lparr>RefreshedAt := 1000, issues := [8 \<mapsto> issue8b],
                        users := (\<lambda>k. None)(70 := Some 30)\<rparr>"

definition traceB :: "int event list" where
  "traceB = [E_WriteFile ''meta'' 1000, E_Visit 8,
             E_ListCommits ''cockroachdb'' ''cockroach'' 8 1 100,
             E_ListIssueTimeline ''cockroachdb'' ''cockroach'' 8 1 100,
             E_WriteFile ''8'' 8]"

lemma Sprintf_d_examples: "Sprintf_d 7 = ''7''" "Sprintf_d 8 = ''8''" "Sprintf_d 9 = ''9''"
  by code_simp+

lemma encodeIssue_Number: "Number (Issue (encodeIssue h i)) = Number (Issue i)"
  by (simp add: encodeIssue_def encodeFields_def)

lemma syncEnv_simps:
  "makeClient syncEnv tr" "now syncEnv tr = 1000 + int (length tr)"
  "ListByRepo syncEnv tr ow re since page pp =
     (if tr = [] then Error else Response [Some fields8] 0)"
  "ListCommits syncEnv tr ow re num page pp = Response [Some commitDoc] 0"
  "ListIssueTimeline syncEnv tr ow re num page pp = Response [Some eventDoc] 0"
  "WriteFile syncEnv tr name data" "Marshal_Issue syncEnv d = Number (Issue d)"
  "Marshal_Project syncEnv m = Some (Meta_RefreshedAt m)"
  by (simp_all add: syncEnv_def)

lemma fetchCommits_sync:
  "fetchCommits 2 syncEnv tr heap7 (projectA\<lparr>RefreshedAt := 1000\<rparr>) 8 issue8a =
     (Some (Inr (heap7\<lparr>user_at := (user_at heap7)(31 := \<lparr>User_ID = Some 70, Login = Some ''carol''\<rparr>),
                      brk := 32\<rparr>,
                 issue8a\<lparr>Commits := Some [Some \<lparr>SHA = Some ''abc'', Author = Some 31, Committer = None\<rparr>]\<rparr>,
                 True)),
      tr @ [E_ListCommits ''cockroachdb'' ''cockroach'' 8 1 100])"
  by (simp add: fetchCommits_def markChanged_def numeral_2_eq_2 syncEnv_simps commitDoc_def
      decodeCommit_def newUser_def append_slice_def heap7_def heap0_def issue8a_def projectA_def
      project0_def perPage_def)

lemma fetchTimeline_sync:
  "fetchTimeline 2 syncEnv tr
     (heap7\<lparr>user_at := (user_at heap7)(31 := \<lparr>User_ID = Some 70, Login = Some ''carol''\<rparr>),
            brk := 32\<rparr>)
     (projectA\<lparr>RefreshedAt := 1000\<rparr>) 8
     (issue8a\<lparr>Commits := Some [Some \<lparr>SHA = Some ''abc'', Author = Some 31, Committer = None\<rparr>]\<rparr>)
     True =
     (Some (Inr (heapB,
                 issue8a\<lparr>Commits := Some [Some \<lparr>SHA = Some ''abc'', Author = Some 31, Committer = None\<rparr>],
                         Timeline := Some [Some \<lparr>Event = Some ''labeled'', Actor = Some 32,
                           Timeline_Assignee = None, Timeline_Milestone = None\<rparr>]\<rparr>,
                 True)),
      tr @ [E_ListIssueTimeline ''cockroachdb'' ''cockroach'' 8 1 100])"
  by (simp add: fetchTimeline_def markChanged_def numeral_2_eq_2 syncEnv_simps eventDoc_def
      decodeEvent_def newUser_def newMilestone_def append_slice_def heap7_def heap0_def heapB_def
      issue8a_def projectA_def project0_def perPage_def)

lemma internIssue_sync:
  "internIssue heapB (projectA\<lparr>RefreshedAt := 1000\<rparr>)
     (issue8a\<lparr>Commits := Some [Some \<lparr>SHA = Some ''abc'', Author = Some 31, Committer = None\<rparr>],
              Timeline := Some [Some \<lparr>Event = Some ''labeled'', Actor = Some 32,
                Timeline_Assignee = None, Timeline_Milestone = None\<rparr>]\<rparr>) =
     Inr (projectA\<lparr>RefreshedAt := 1000, users := (\<lambda>k. None)(70 := Some 30)\<rparr>, issue8b)"
  by (simp add: internIssue_def internIssueFields_def internTimeline_def internCommitList_def
      internEvent_def internCommit_def internUser_def internMilestone_def internRepo_def
      User_GetID_def Milestone_GetID_def Repository_GetID_def heapB_def heap7_def heap0_def
      issue8a_def issue8b_def projectA_def project0_def)

lemma visit_sync:
  "backfillIssue 2 syncEnv (traceA @ [E_WriteFile ''meta'' 1000]) heap7
     (projectA\<lparr>RefreshedAt := 1000\<rparr>) 8 = (Some (Inr (heapB, projectB)), traceA @ traceB)"
proof -
  have i: "issues (projectA\<lparr>RefreshedAt := 1000\<rparr>) 8 = Some issue8a"
    by (simp add: projectA_def)
  have n: "Number (Issue issue8b) = Some 8" by (simp add: issue8b_def issue8a_def)
  have p: "projectA\<lparr>RefreshedAt := 1000, users := (\<lambda>k. None)(70 := Some 30),
      issues := (issues projectA)(8 \<mapsto> issue8b)\<rparr> = projectB"
    by (simp add: projectA_def projectB_def project0_def)
  show ?thesis
    unfolding backfillIssue_unfold [OF i fetchCommits_sync fetchTimeline_sync]
    by (simp add: saveChanged_def internIssue_sync Issue_save_def saveJSON_def n
        Sprintf_d_examples syncEnv_simps encodeIssue_Number p traceB_def)
qed

lemma refresh_sync:
  "refresh 2 syncEnv [] heap0 project0 = (Some (Inr (heapB, projectB)), traceA @ traceB)"
proof -
  have s: "sortedIssues (projectA\<lparr>RefreshedAt := 1000\<rparr>) = [8]"
    by (simp add: sortedIssues_def projectA_def)
  have m: "metaOf (projectA\<lparr>RefreshedAt := 1000\<rparr>) =
      \<lparr>Meta_Owner = ''cockroachdb'', Meta_Repo = ''cockroach'', Meta_RefreshedAt = 1000\<rparr>"
    by (simp add: metaOf_def projectA_def project0_def)
  show ?thesis
    by (simp add: refresh_def syncEnv_simps phaseA_sync Project_save_def saveJSON_def m s
        visit_sync)
qed

theorem watermark_is_start_time_witness:
  "makeClient syncEnv [] \<and>
   listIssues 2 syncEnv [] heap0 project0 1 = (Some (Inr (heap7, projectA)), traceA) \<and>
   refresh 2 syncEnv [] heap0 project0 = (Some (Inr (heapB, projectB)), traceA @ traceB) \<and>
   hd traceB = E_WriteFile ''meta'' 1000 \<and> RefreshedAt projectB = now syncEnv [] \<and>
   now syncEnv [] = 1000 \<and> now syncEnv traceA = 1003"
proof -
  have "RefreshedAt projectB = now syncEnv []"
    using watermark_is_start_time [of syncEnv "[]" 2 heap0 project0 heap7 projectA traceA]
      phaseA_sync refresh_sync syncEnv_simps(1) by blast
  then show ?thesis
    using phaseA_sync refresh_sync by (simp add: syncEnv_simps traceA_def traceB_def)
qed








text \<open>The API of \<open>syncEnv\<close> with the timeline endpoint down.\<close>

definition timelineDownEnv :: "int env" where
  "timelineDownEnv = syncEnv\<lparr>ListIssueTimeline := (\<lambda>tr ow re num page pp. Error)\<rparr>"

definition heapD :: heap where
  "heapD = heap7\<lparr>user_at := (user_at heap7)(31 := \<lparr>User_ID = Some 70, Login = Some ''carol''\<rparr>),
                 brk := 32\<rparr>"

definition issue8d :: Issue where
  "issue8d = issue8a\<lparr>Commits := Some [Some \<lparr>SHA = Some ''abc'', Author = Some 31,
                                              Committer = None\<rparr>]\<rparr>"

lemma fetchCommits_down:
  "fetchCommits 2 timelineDownEnv [E_Visit 8] heap7 projectA 8 issue8a =
     (Some (Inr (heapD, issue8d, True)),
      [E_Visit 8, E_ListCommits ''cockroachdb'' ''cockroach'' 8 1 100])"
  by (simp add: fetchCommits_def markChanged_def numeral_2_eq_2 timelineDownEnv_def syncEnv_def
      commitDoc_def decodeCommit_def newUser_def append_slice_def heap7_def heap0_def heapD_def
      issue8a_def issue8d_def projectA_def project0_def perPage_def)

lemma fetchTimeline_down:
  "fetchTimeline 2 timelineDownEnv [E_Visit 8, E_ListCommits ''cockroachdb'' ''cockroach'' 8 1 100]
     heapD projectA 8 issue8d True =
     (Some (Inl Fatal),
      [E_Visit 8, E_ListCommits ''cockroachdb'' ''cockroach'' 8 1 100,
       E_ListIssueTimeline ''cockroachdb'' ''cockroach'' 8 1 100])"
  by (simp add: fetchTimeline_def markChanged_def numeral_2_eq_2 timelineDownEnv_def syncEnv_def
      issue8a_def issue8d_def projectA_def project0_def perPage_def)

lemma fetchCommits_cacheEnv:
  "fetchCommits 2 cacheEnv [E_Visit 8] heap7 projectA 8 issue8a =
     (Some (Inl Fatal), [E_Visit 8, E_ListCommits ''cockroachdb'' ''cockroach'' 8 1 100])"
  by (simp add: fetchCommits_def markChanged_def numeral_2_eq_2 cacheEnv_def
      issue8a_def projectA_def project0_def perPage_def)

theorem error_handling_asymmetry_witness:
  "listIssues 2 syncEnv [] heap0 project0 1 =
     listIssues 1 syncEnv [requestIssues project0 1, E_Sleep (5 * Second)] heap0 project0 1 \<and>
   listIssues 2 cacheEnv [] heap0 project0 1 =
     (None, [requestIssues project0 1, E_Sleep (5 * Second),
             requestIssues project0 1, E_Sleep (5 * Second)]) \<and>
   listCommits 1 cacheEnv [] heap7 projectA 8 issue8a 1 =
     (Some (Inl Fatal), [requestCommits projectA 8 1]) \<and>
   listTimeline 1 cacheEnv [] heap7 projectA 8 issue8a 1 =
     (Some (Inl Fatal), [requestTimeline projectA 8 1]) \<and>
   backfillIssue 2 cacheEnv [] heap7 projectA 8 =
     (Some (Inl Fatal), [E_Visit 8, E_ListCommits ''cockroachdb'' ''cockroach'' 8 1 100]) \<and>
   backfillIssue 2 timelineDownEnv [] heap7 projectA 8 =
     (Some (Inl Fatal),
      [E_Visit 8, E_ListCommits ''cockroachdb'' ''cockroach'' 8 1 100,
       E_ListIssueTimeline ''cockroachdb'' ''cockroach'' 8 1 100]) \<and>
   backfill 2 timelineDownEnv [] heap7 projectA [8, 7] =
     (Some (Inl Fatal),
      [E_Visit 8, E_ListCommits ''cockroachdb'' ''cockroach'' 8 1 100,
       E_ListIssueTimeline ''cockroachdb'' ''cockroach'' 8 1 100])"
proof -
  have i: "issues projectA 8 = Some issue8a" by (simp add: projectA_def)
  have e: "ListByRepo syncEnv [] (Owner project0) (Repo project0) (RefreshedAt project0) 1 perPage
      = Error"
    "\<forall>tr'. ListByRepo cacheEnv tr' (Owner project0) (Repo project0) (RefreshedAt project0) 1
      perPage = Error"
    "ListCommits cacheEnv [] (Owner projectA) (Repo projectA) 8 1 perPage = Error"
    "ListIssueTimeline cacheEnv [] (Owner projectA) (Repo projectA) 8 1 perPage = Error"
    by (simp_all add: syncEnv_def cacheEnv_def)
  have 1: "listIssues 2 syncEnv [] heap0 project0 1 =
     listIssues 1 syncEnv [requestIssues project0 1, E_Sleep (5 * Second)] heap0 project0 1"
    using error_handling_asymmetry [of syncEnv "[]" project0 1 "Suc 0" heap0] e(1)
    by (simp add: numeral_2_eq_2)
  have 2: "listIssues 2 cacheEnv [] heap0 project0 1 =
     (None, [requestIssues project0 1, E_Sleep (5 * Second),
             requestIssues project0 1, E_Sleep (5 * Second)])"
    using error_handling_asymmetry [of cacheEnv "[]" project0 1 2 heap0] e(2)
    by (simp add: numeral_2_eq_2)
  have 3: "listCommits 1 cacheEnv [] heap7 projectA 8 issue8a 1 =
     (Some (Inl Fatal), [requestCommits projectA 8 1])"
    using error_handling_asymmetry [of cacheEnv "[]" projectA 1 0 heap7 8 issue8a] e(3)
    by simp
  have 4: "listTimeline 1 cacheEnv [] heap7 projectA 8 issue8a 1 =
     (Some (Inl Fatal), [requestTimeline projectA 8 1])"
    using error_handling_asymmetry [of cacheEnv "[]" projectA 1 0 heap7 8 issue8a] e(4)
    by simp
  have 5: "backfillIssue 2 cacheEnv [] heap7 projectA 8 =
     (Some (Inl Fatal), [E_Visit 8, E_ListCommits ''cockroachdb'' ''cockroach'' 8 1 100])"
    using error_handling_asymmetry [of cacheEnv "[]" projectA _ 2 heap7 8 _ issue8a Fatal
        "[E_Visit 8, E_ListCommits ''cockroachdb'' ''cockroach'' 8 1 100]"]
      i fetchCommits_cacheEnv by simp
  have 6: "backfillIssue 2 timelineDownEnv [] heap7 projectA 8 =
     (Some (Inl Fatal),
      [E_Visit 8, E_ListCommits ''cockroachdb'' ''cockroach'' 8 1 100,
       E_ListIssueTimeline ''cockroachdb'' ''cockroach'' 8 1 100])"
    using error_handling_asymmetry [of timelineDownEnv "[]" projectA _ 2 heap7 8 _ issue8a Fatal
        "[E_Visit 8, E_ListCommits ''cockroachdb'' ''cockroach'' 8 1 100]" heapD issue8d True
        "[E_Visit 8, E_ListCommits ''cockroachdb'' ''cockroach'' 8 1 100,
          E_ListIssueTimeline ''cockroachdb'' ''cockroach'' 8 1 100]"]
      i fetchCommits_down fetchTimeline_down by simp
  have 7: "backfill 2 timelineDownEnv [] heap7 projectA [8, 7] =
     (Some (Inl Fatal),
      [E_Visit 8, E_ListCommits ''cockroachdb'' ''cockroach'' 8 1 100,
       E_ListIssueTimeline ''cockroachdb'' ''cockroach'' 8 1 100])"
    using error_handling_asymmetry [of timelineDownEnv "[]" projectA _ 2 heap7 8 _ _ Fatal
        "[E_Visit 8, E_ListCommits ''cockroachdb'' ''cockroach'' 8 1 100,
          E_ListIssueTimeline ''cockroachdb'' ''cockroach'' 8 1 100]" _ _ _ _ "[7]"] 6
    by blast
  show ?thesis using 1 2 3 4 5 6 7 by blast
qed

section \<open>Properties of the reload round trip\<close>






subsection \<open>Decoding and encoding\<close>







































subsection \<open>Issue numbers as file names\<close>
















subsection \<open>Interning what was decoded\<close>






















subsection \<open>What a persistable store writes\<close>


definition noNilEntries :: "Project \<Rightarrow> bool" where
  "noNilEntries p \<longleftrightarrow>
     (\<forall>k i. issues p k = Some i \<longrightarrow>
        (case Timeline i of None \<Rightarrow> True | Some ts \<Rightarrow> list_all (\<lambda>x. x \<noteq> None) ts) \<and>
        (case Commits i of None \<Rightarrow> True | Some cs \<Rightarrow> list_all (\<lambda>x. x \<noteq> None) cs))"

definition storedUserRefs :: "Project \<Rightarrow> ptr set" where
  "storedUserRefs p = {u. \<exists>k i. issues p k = Some i \<and> u \<in> set (userRefs i)}"

definition storedMilestoneRefs :: "Project \<Rightarrow> ptr set" where
  "storedMilestoneRefs p = {m. \<exists>k i. issues p k = Some i \<and> m \<in> set (milestoneRefs i)}"

definition storedRepoRefs :: "Project \<Rightarrow> ptr set" where
  "storedRepoRefs p = {r. \<exists>k i. issues p k = Some i \<and> r \<in> set (repoRefs i)}"

definition consistentStore :: "heap \<Rightarrow> Project \<Rightarrow> bool" where
  "consistentStore h p \<longleftrightarrow>
     (\<forall>u \<in> storedUserRefs p. \<forall>v \<in> storedUserRefs p.
        sameUser h u v \<longrightarrow> docUser h u = docUser h v) \<and>
     (\<forall>u \<in> storedMilestoneRefs p. \<forall>v \<in> storedMilestoneRefs p.
        sameMilestone h u v \<longrightarrow> docMilestone h u = docMilestone h v) \<and>
     (\<forall>u \<in> storedRepoRefs p. \<forall>v \<in> storedRepoRefs p.
        sameRepo h u v \<longrightarrow> docRepository h u = docRepository h v)"
















text \<open>An interned store is consistent and has no nil entries.\<close>

lemma interned_consistent:
  assumes "\<forall>k i. issues p k = Some i \<longrightarrow> canonicalIssue h p i"
  shows "consistentStore h p \<and> noNilEntries p"
proof -
  have u: "canonicalUser h p u" if "u \<in> storedUserRefs p" for u
    using that assms userRefs_canon unfolding storedUserRefs_def list_all_iff by blast
  have m: "canonicalMilestone h p u" if "u \<in> storedMilestoneRefs p" for u
    using that assms milestoneRefs_canon unfolding storedMilestoneRefs_def list_all_iff by blast
  have r: "canonicalRepo h p u" if "u \<in> storedRepoRefs p" for u
    using that assms repoRefs_canon unfolding storedRepoRefs_def list_all_iff by blast
  have cu: "docUser h a = docUser h b"
    if "a \<in> storedUserRefs p" "b \<in> storedUserRefs p" "sameUser h a b" for a b
  proof -
    have "a = b" using u [OF that(1)] u [OF that(2)] that(3) by (rule canonicalUser_same)
    then show ?thesis by simp
  qed
  have cm: "docMilestone h a = docMilestone h b"
    if "a \<in> storedMilestoneRefs p" "b \<in> storedMilestoneRefs p" "sameMilestone h a b" for a b
  proof -
    have "a = b" using m [OF that(1)] m [OF that(2)] that(3) by (rule canonicalMilestone_same)
    then show ?thesis by simp
  qed
  have cr: "docRepository h a = docRepository h b"
    if "a \<in> storedRepoRefs p" "b \<in> storedRepoRefs p" "sameRepo h a b" for a b
  proof -
    have "a = b" using r [OF that(1)] r [OF that(2)] that(3) by (rule canonicalRepo_same)
    then show ?thesis by simp
  qed
  have c: "consistentStore h p"
    unfolding consistentStore_def using cu cm cr by blast
  have n: "(case Timeline i of None \<Rightarrow> True | Some ts \<Rightarrow> list_all (\<lambda>x. x \<noteq> None) ts) \<and>
        (case Commits i of None \<Rightarrow> True | Some cs \<Rightarrow> list_all (\<lambda>x. x \<noteq> None) cs)"
    if "issues p k = Some i" for k i
  proof -
    from that assms have "canonicalIssue h p i" by blast
    then show ?thesis
      unfolding canonicalIssue_def canonicalEvents_def canonicalCommits_def list_all_iff
      by (auto split: option.splits)
  qed
  show ?thesis using c n unfolding noNilEntries_def by blast
qed

subsection \<open>The files of a persisted store\<close>



























subsection \<open>The JSON codec of the library\<close>




















subsection \<open>Example stores and their caches\<close>






























































































































end
